(* ===== verification/Prelude.thy ===== *)
theory Prelude
  imports Main "HOL-Library.Word"
begin

text \<open>
  Names, machine integers and generic lemmas shared by every component.

  C++ integer types are words of their width; \<open>size_t\<close> is taken as 64 bits wide and \<open>int\<close>
  as 32 bits (the LP64 and LLP64 targets of the build files). Pointers into one buffer are
  offsets from its start.
\<close>

unbundle bit_operations_syntax

section \<open>Types\<close>

type_synonym u8 = "8 word"
type_synonym u16 = "16 word"
type_synonym u32 = "32 word"

text \<open>\<open>bvector\<close> of \<open>common/defs.h\<close>: \<open>std::vector<uint8_t>\<close>.\<close>

type_synonym bvector = "u8 list"

text \<open>\<open>conn_id_t\<close>: Bindy's connection number, a \<open>uint32_t\<close>.\<close>

type_synonym conn_id_t = u32

named_theorems codec_simps \<open>byte-level encodings and their lengths\<close>
named_theorems buf_simps \<open>evaluation of buffer operations on canonical buffers\<close>
named_theorems packet_defs \<open>definitions that build or parse a packet\<close>

section \<open>Conversions of C++ integers\<close>

text \<open>\<open>(int)x\<close> for a 64-bit \<open>x\<close>: reduction to 32 bits, two's complement.\<close>

definition c_int :: "int \<Rightarrow> int" where
  "c_int x = signed_take_bit 31 x"

text \<open>\<open>SIZE_MAX\<close>, and \<open>a - b\<close> on \<open>size_t\<close>, which wraps.\<close>

definition size_max :: nat where
  "size_max = 2 ^ 64 - 1"

definition size_sub :: "nat \<Rightarrow> nat \<Rightarrow> nat" where
  "size_sub a b = nat ((int a - int b) mod 2 ^ 64)"

lemma c_int_small [simp]:
  assumes "- (2 ^ 31) \<le> x" and "x < 2 ^ 31"
  shows "c_int x = x"
  using assms by (simp add: c_int_def signed_take_bit_int_eq_self)

lemma c_int_of_nat_small [simp]:
  "n < 2 ^ 31 \<Longrightarrow> c_int (int n) = int n"
  by simp

lemma c_int_lower: "- (2 ^ 31) \<le> c_int x"
  unfolding c_int_def using signed_take_bit_int_greater_eq_minus_exp [of 31 x] by simp

lemma c_int_upper: "c_int x < 2 ^ 31"
  unfolding c_int_def using signed_take_bit_int_less_exp [of 31 x] by simp

lemma size_sub_le [simp]:
  assumes "b \<le> a" and "a < 2 ^ 64"
  shows "size_sub a b = a - b"
  using assms by (simp add: size_sub_def nat_diff_distrib flip: of_nat_diff)

lemma unat_u8 [simp]: "unat (x :: u8) < 256"
  by (rule unsigned_less [of x, where ?'a = nat, simplified])

lemma unat_u16 [simp]: "unat (x :: u16) < 65536"
  by (rule unsigned_less [of x, where ?'a = nat, simplified])

lemma unat_u32 [simp]: "unat (x :: u32) < 4294967296"
  by (rule unsigned_less [of x, where ?'a = nat, simplified])

lemma unat_ucast_u16_u32 [simp]: "unat (ucast (x :: u16) :: u32) = unat x"
  using unat_u16 [of x] by (simp add: unsigned_ucast_eq take_bit_nat_eq_self del: unat_u16)

lemma unat_ucast_u8_u32 [simp]: "unat (ucast (x :: u8) :: u32) = unat x"
  using unat_u8 [of x] by (simp add: unsigned_ucast_eq take_bit_nat_eq_self del: unat_u8)

lemma ucast_u32_u16_u32 [simp]: "(ucast (ucast (x :: u16) :: u32) :: u16) = x"
  by (rule bit_word_eqI) (simp add: bit_simps)

section \<open>Lists\<close>

text \<open>Overwriting the bytes of a buffer from offset \<open>k\<close>, as \<open>memcpy\<close> to \<open>p + k\<close> does.\<close>

definition overwrite :: "nat \<Rightarrow> 'a list \<Rightarrow> 'a list \<Rightarrow> 'a list" where
  "overwrite k ys xs = take k xs @ ys @ drop (k + length ys) xs"

lemma length_overwrite [simp]:
  "k + length ys \<le> length xs \<Longrightarrow> length (overwrite k ys xs) = length xs"
  by (simp add: overwrite_def)

lemma take_overwrite [simp]:
  "k \<le> length xs \<Longrightarrow> take (k + length ys) (overwrite k ys xs) = take k xs @ ys"
  by (simp add: overwrite_def)

lemma overwrite_pad:
  "length ys + length out \<le> cap \<Longrightarrow>
   overwrite (length out) ys (out @ replicate (cap - length out) z)
     = (out @ ys) @ replicate (cap - length (out @ ys)) z"
  by (simp add: overwrite_def)

lemma take_drop_append3:
  "take (length ys) (drop (length xs) (xs @ ys @ zs)) = ys"
  by simp

end
