(* ===== verification/DevId.thy ===== *)
theory DevId
  imports Prelude "HOL-Library.Product_Lexorder"
begin

text \<open>
  Device identifiers: \<open>xibridge_device_t\<close> (\<open>xibridge.h\<close>) and the class \<open>DevId\<close> around it
  (\<open>common/protocols.h\<close>), with its equality and the comparison that keys the server's
  \<open>std::map\<close>s. The lemmas say where that comparison is an order and where it is not.
\<close>

section \<open>The identifier\<close>

text \<open>The packed struct, fields in declaration order.\<close>

record devid =
  dev_reserve :: u32
  dev_VID :: u16
  dev_PID :: u16
  dev_id :: u32

text \<open>\<open>DevId(id, pid, vid, reserve)\<close>; the source leaves out trailing zero arguments.\<close>

definition mk_devid :: "u32 \<Rightarrow> u16 \<Rightarrow> u16 \<Rightarrow> u32 \<Rightarrow> devid" where
  "mk_devid i pid vid res = \<lparr>dev_reserve = res, dev_VID = vid, dev_PID = pid, dev_id = i\<rparr>"

abbreviation devid_of_id :: "u32 \<Rightarrow> devid" where
  "devid_of_id i \<equiv> mk_devid i 0 0 0"

text \<open>The accessors \<open>PID()\<close> and \<open>VID()\<close> return \<open>uint32_t\<close>.\<close>

definition devid_PID :: "devid \<Rightarrow> u32" where
  "devid_PID d = ucast (dev_PID d)"

definition devid_VID :: "devid \<Rightarrow> u32" where
  "devid_VID d = ucast (dev_VID d)"

text \<open>\<open>operator ==\<close>\<close>

definition devid_eq :: "devid \<Rightarrow> devid \<Rightarrow> bool" where
  "devid_eq a b \<longleftrightarrow> dev_id a = dev_id b \<and> dev_PID a = dev_PID b
     \<and> dev_VID a = dev_VID b \<and> dev_reserve a = dev_reserve b"

text \<open>\<open>operator <\<close>: three early returns.\<close>

definition devid_less :: "devid \<Rightarrow> devid \<Rightarrow> bool" where
  "devid_less a b =
     (if devid_VID a < devid_VID b then True
      else if devid_PID a < devid_PID b then True
      else if dev_id a < dev_id b then True
      else False)"

text \<open>What a \<open>std::map\<close> takes for "the same key": neither is less than the other.\<close>

definition devid_equiv :: "devid \<Rightarrow> devid \<Rightarrow> bool" where
  "devid_equiv a b \<longleftrightarrow> \<not> devid_less a b \<and> \<not> devid_less b a"

section \<open>Equality and comparison\<close>

lemma ucast16_less [simp]: "(ucast (x :: u16) :: u32) < ucast y \<longleftrightarrow> x < y"
  by (simp add: word_less_nat_alt)

lemma mk_devid_sel [simp]:
  "dev_id (mk_devid i p v r) = i" "dev_PID (mk_devid i p v r) = p"
  "dev_VID (mk_devid i p v r) = v" "dev_reserve (mk_devid i p v r) = r"
  by (simp_all add: mk_devid_def)

lemma mk_devid_self [simp]: "mk_devid (dev_id e) (dev_PID e) (dev_VID e) (dev_reserve e) = e"
  by (cases e) (simp add: mk_devid_def)

lemma devid_eq_iff [simp]: "devid_eq a b \<longleftrightarrow> a = b"
  by (cases a; cases b) (auto simp: devid_eq_def)

lemma devid_less_alt:
  "devid_less a b \<longleftrightarrow> dev_VID a < dev_VID b \<or> dev_PID a < dev_PID b \<or> dev_id a < dev_id b"
  by (simp add: devid_less_def devid_VID_def devid_PID_def)

lemma devid_less_irrefl [simp]: "\<not> devid_less a a"
  by (simp add: devid_less_alt)

lemma devid_equiv_alt:
  "devid_equiv a b \<longleftrightarrow> dev_VID a = dev_VID b \<and> dev_PID a = dev_PID b \<and> dev_id a = dev_id b"
  by (auto simp: devid_equiv_def devid_less_alt)

lemma devid_equiv_refl [simp]: "devid_equiv a a"
  by (simp add: devid_equiv_alt)

lemma devid_equiv_sym: "devid_equiv a b \<longleftrightarrow> devid_equiv b a"
  by (auto simp: devid_equiv_alt)

lemma devid_equiv_trans [trans]: "devid_equiv a b \<Longrightarrow> devid_equiv b c \<Longrightarrow> devid_equiv a c"
  by (simp add: devid_equiv_alt)

subsection \<open>The order the identifiers should have\<close>

text \<open>
  The lexicographic order on (VID, PID, id, reserve): what a comparison in the style of
  \<open>operator <\<close> means to be. The library's facts on \<open>linorder\<close> apply to it.
\<close>

definition devid_key :: "'a devid_scheme \<Rightarrow> u16 \<times> u16 \<times> u32 \<times> u32 \<times> 'a" where
  "devid_key d = (dev_VID d, dev_PID d, dev_id d, dev_reserve d, devid.more d)"

lemma devid_key_inj [simp]: "devid_key a = devid_key b \<longleftrightarrow> a = b"
  by (cases a; cases b) (auto simp: devid_key_def)

instantiation devid_ext :: (linorder) linorder
begin

definition less_eq_devid_ext :: "'a devid_scheme \<Rightarrow> 'a devid_scheme \<Rightarrow> bool" where
  "a \<le> b \<longleftrightarrow> devid_key a \<le> devid_key b"

definition less_devid_ext :: "'a devid_scheme \<Rightarrow> 'a devid_scheme \<Rightarrow> bool" where
  "a < b \<longleftrightarrow> devid_key a < devid_key b"

instance
proof
  fix a b c :: "'a devid_scheme"
  show "(a < b) = (a \<le> b \<and> \<not> b \<le> a)"
    by (simp add: less_eq_devid_ext_def less_devid_ext_def less_le_not_le)
  show "a \<le> a" by (simp add: less_eq_devid_ext_def)
  show "a \<le> b \<Longrightarrow> b \<le> c \<Longrightarrow> a \<le> c"
    unfolding less_eq_devid_ext_def by (rule order_trans)
  show "a \<le> b \<Longrightarrow> b \<le> a \<Longrightarrow> a = b"
    unfolding less_eq_devid_ext_def by (drule (1) order_antisym) simp
  show "a \<le> b \<or> b \<le> a" unfolding less_eq_devid_ext_def by (rule linear)
qed

end

text \<open>Identifiers of one product: the key sets on which the code's comparison is an order.\<close>

definition same_product :: "devid \<Rightarrow> devid \<Rightarrow> bool" where
  "same_product a b \<longleftrightarrow> dev_VID a = dev_VID b \<and> dev_PID a = dev_PID b"

definition one_product :: "devid set \<Rightarrow> bool" where
  "one_product D \<longleftrightarrow> (\<forall>a \<in> D. \<forall>b \<in> D. same_product a b)"

lemma devid_less_same_product:
  "same_product a b \<Longrightarrow> devid_less a b \<longleftrightarrow> dev_id a < dev_id b"
  by (simp add: same_product_def devid_less_alt)

text \<open>Below in every component. \<open>operator <\<close> is its negation, turned around.\<close>

definition devid_below :: "devid \<Rightarrow> devid \<Rightarrow> bool" where
  "devid_below a b \<longleftrightarrow> dev_VID a \<le> dev_VID b \<and> dev_PID a \<le> dev_PID b \<and> dev_id a \<le> dev_id b"

lemma devid_less_iff_not_below: "devid_less a b \<longleftrightarrow> \<not> devid_below b a"
  by (auto simp: devid_less_alt devid_below_def)

lemma devid_below_trans [trans]: "devid_below a b \<Longrightarrow> devid_below b c \<Longrightarrow> devid_below a c"
  by (auto simp: devid_below_def)

lemma devid_less_total: "devid_equiv a b \<or> devid_less a b \<or> devid_less b a"
  by (auto simp: devid_equiv_def)

lemma devid_lex_imp_less:
  "a < b \<Longrightarrow> dev_reserve a = dev_reserve b \<Longrightarrow> devid_less a b" for a b :: devid
  by (auto simp: less_devid_ext_def devid_key_def devid_less_alt)

end
