(* ===== verification/Hex.thy ===== *)
theory Hex
  imports DevId
begin

text \<open>
  The number codecs of \<open>common/utils.h\<close> and \<open>common/utils.cpp\<close>: the base class \<open>AHex\<close>
  (byte order and width) and \<open>Hex8\<close>, \<open>Hex16\<close>, \<open>Hex24\<close>, \<open>Hex32\<close>, \<open>HexIDev3\<close> over
  it, each a record extending \<open>ahex\<close> as the classes extend \<open>AHex\<close>; and the functions that
  append numbers to a \<open>bvector\<close> in network order. The lemmas are the round trips.
\<close>

section \<open>The classes\<close>

record ahex =
  lend :: bool
  tsize :: nat

record hex32 = ahex + value32 :: u32
record hex24 = ahex + value24 :: u32
record hex16 = ahex + value16 :: u16
record hex8 = ahex + value8 :: u8

definition Hex32 :: "u32 \<Rightarrow> bool \<Rightarrow> hex32" where
  "Hex32 v lit_end = \<lparr>lend = lit_end, tsize = 4, value32 = v\<rparr>"

definition Hex24 :: "u32 \<Rightarrow> bool \<Rightarrow> hex24" where
  "Hex24 v lit_end = \<lparr>lend = lit_end, tsize = 3, value24 = v\<rparr>"

definition Hex16 :: "u16 \<Rightarrow> bool \<Rightarrow> hex16" where
  "Hex16 v lit_end = \<lparr>lend = lit_end, tsize = 2, value16 = v\<rparr>"

definition Hex8 :: "u8 \<Rightarrow> hex8" where
  "Hex8 v = \<lparr>lend = False, tsize = 1, value8 = v\<rparr>"

text \<open>
  \<open>Hex32(char *)\<close>, given the number \<open>atoi\<close> returns. It leaves the width at \<open>AHex\<close>'s 0.
\<close>

definition Hex32_decimal :: "int \<Rightarrow> hex32" where
  "Hex32_decimal atoi_result = \<lparr>lend = False, tsize = 0, value32 = word_of_int atoi_result\<rparr>"

text \<open>
  \<open>_get_stream1_4\<close> on the bytes at \<open>*ptr\<close>; the caller advances the pointer by \<open>tsize\<close>.
  Little endian runs through the bytes from the last to the first.
\<close>

definition shift_in :: "u32 \<Rightarrow> u8 \<Rightarrow> u32" where
  "shift_in val b = push_bit 8 val + ucast b"

definition get_stream1_4 :: "'a ahex_scheme \<Rightarrow> bvector \<Rightarrow> u32" where
  "get_stream1_4 h bs =
     (if lend h then foldl shift_in 0 (rev (take (tsize h) bs))
      else foldl shift_in 0 (take (tsize h) bs))"

text \<open>\<open>put_stream1_4\<close>: the bytes it stores at \<open>*ptr\<close>.\<close>

definition put_stream1_4 :: "'a ahex_scheme \<Rightarrow> u32 \<Rightarrow> bvector" where
  "put_stream1_4 h val =
     (if lend h then map (\<lambda>i. ucast (drop_bit (i * 8) val AND 0xFF)) [0..<tsize h]
      else map (\<lambda>i. ucast (drop_bit ((tsize h - 1 - i) * 8) val AND 0xFF)) [0..<tsize h])"

text \<open>The \<open>_get_stream\<close> members. \<open>Hex24\<close>'s drops the number it has read.\<close>

definition Hex8_get_stream :: "hex8 \<Rightarrow> bvector \<Rightarrow> hex8" where
  "Hex8_get_stream h bs = h\<lparr>value8 := hd bs\<rparr>"

definition Hex16_get_stream :: "hex16 \<Rightarrow> bvector \<Rightarrow> hex16" where
  "Hex16_get_stream h bs = h\<lparr>value16 := ucast (get_stream1_4 h bs)\<rparr>"

definition Hex24_get_stream :: "hex24 \<Rightarrow> bvector \<Rightarrow> hex24" where
  "Hex24_get_stream h bs = (let ignored = get_stream1_4 h bs in h)"

definition Hex32_get_stream :: "hex32 \<Rightarrow> bvector \<Rightarrow> hex32" where
  "Hex32_get_stream h bs = h\<lparr>value32 := get_stream1_4 h bs\<rparr>"

subsection \<open>The 12-byte device identifier\<close>

record hexidev3 = ahex +
  id_value :: hex32
  idev_reserve :: hex32
  id_pid :: hex16
  id_vid :: hex16

text \<open>
  The constructor. \<open>_id_value\<close> and \<open>_reserve\<close> are assigned whole (byte order included); a
  \<open>Hex16\<close> takes a \<open>Hex32\<close> through \<open>operator=(uint16_t)\<close>, which sets the value only.
\<close>

definition HexIDev3 :: "devid option \<Rightarrow> bool \<Rightarrow> hexidev3" where
  "HexIDev3 pdevid lit_end =
     (case pdevid of
        None \<Rightarrow> \<lparr>lend = lit_end, tsize = 12, id_value = Hex32 0 False, idev_reserve = Hex32 0 False,
                  id_pid = Hex16 0 False, id_vid = Hex16 0 False\<rparr>
      | Some d \<Rightarrow> \<lparr>lend = lit_end, tsize = 12,
                  id_value = Hex32 (dev_id d) lit_end,
                  idev_reserve = Hex32 (dev_reserve d) lit_end,
                  id_pid = (Hex16 0 False)\<lparr>value16 := ucast (devid_PID d)\<rparr>,
                  id_vid = (Hex16 0 False)\<lparr>value16 := ucast (devid_VID d)\<rparr>\<rparr>)"

definition toDevId :: "hexidev3 \<Rightarrow> devid" where
  "toDevId h = mk_devid (value32 (id_value h)) (value16 (id_pid h)) (value16 (id_vid h))
                 (value32 (idev_reserve h))"

subsection \<open>Appending numbers to a vector\<close>

definition add_value_2_bvector_net_order :: "bvector \<Rightarrow> u32 \<Rightarrow> nat \<Rightarrow> bvector" where
  "add_value_2_bvector_net_order bv val nbytes =
     foldl (\<lambda>bv i. bv @ [ucast (drop_bit ((nbytes - 1) * 8 - 8 * i) val)]) bv [0..<nbytes]"

definition add_uint32_2_bvector :: "bvector \<Rightarrow> u32 \<Rightarrow> bvector" where
  "add_uint32_2_bvector bv val = add_value_2_bvector_net_order bv val 4"

definition add_uint16_2_bvector :: "bvector \<Rightarrow> u16 \<Rightarrow> bvector" where
  "add_uint16_2_bvector bv val = add_value_2_bvector_net_order bv (ucast val) 2"

definition add_dev_id_bvector_net_order :: "bvector \<Rightarrow> devid \<Rightarrow> bvector" where
  "add_dev_id_bvector_net_order bv devid =
     add_uint32_2_bvector
       (add_uint16_2_bvector
         (add_uint16_2_bvector
           (add_uint32_2_bvector bv (dev_reserve devid)) (dev_VID devid)) (dev_PID devid))
       (dev_id devid)"

section \<open>The wire encodings\<close>

text \<open>
  Reference encodings the packets are stated with: a number as big-endian bytes, and the
  identifier as (reserve, VID, PID, id).
\<close>

definition be32 :: "u32 \<Rightarrow> bvector" where
  "be32 v = [ucast (drop_bit 24 v), ucast (drop_bit 16 v), ucast (drop_bit 8 v), ucast v]"

definition be16 :: "u16 \<Rightarrow> bvector" where
  "be16 v = [ucast (drop_bit 8 v), ucast v]"

definition be_devid :: "devid \<Rightarrow> bvector" where
  "be_devid d = be32 (dev_reserve d) @ be16 (dev_VID d) @ be16 (dev_PID d) @ be32 (dev_id d)"

lemma length_be [simp, codec_simps]:
  "length (be32 v) = 4" "length (be16 w) = 2" "length (be_devid d) = 12"
  by (simp_all add: be32_def be16_def be_devid_def)

lemma length_be_devids [simp]: "length (concat (map be_devid ds)) = 12 * length ds"
  by (induction ds) simp_all

lemma length_put_stream1_4 [simp, codec_simps]: "length (put_stream1_4 h v) = tsize h"
  by (simp add: put_stream1_4_def)

subsection \<open>Encoding\<close>

lemma upt_small: "[0..<4] = [0, 1, 2, 3::nat]" "[0..<3] = [0, 1, 2::nat]" "[0..<2] = [0, 1::nat]"
  by (simp_all add: upt_rec)

lemma ucast_and_FF [simp]: "(ucast ((x :: u32) AND 0xFF) :: u8) = ucast x"
proof -
  have "x AND 0xFF = take_bit 8 x" by (simp add: take_bit_eq_mask mask_eq_exp_minus_1)
  then show ?thesis by (intro bit_word_eqI) (simp add: bit_simps)
qed

lemma ucast_u16_drop [simp]:
  "(ucast (ucast (w :: u16) :: u32) :: u8) = ucast w"
  "(ucast (drop_bit 8 (ucast (w :: u16) :: u32)) :: u8) = ucast (drop_bit 8 w)"
  by (rule bit_word_eqI; simp add: bit_simps)+

lemma put_stream_be32 [codec_simps]:
  "tsize h = 4 \<Longrightarrow> \<not> lend h \<Longrightarrow> put_stream1_4 h v = be32 v"
  by (simp add: put_stream1_4_def be32_def upt_small)

lemma put_stream_le32 [codec_simps]:
  "tsize h = 4 \<Longrightarrow> lend h \<Longrightarrow> put_stream1_4 h v = rev (be32 v)"
  by (simp add: put_stream1_4_def be32_def upt_small)

lemma put_stream_be16 [codec_simps]:
  "tsize h = 2 \<Longrightarrow> \<not> lend h \<Longrightarrow> put_stream1_4 h (ucast (w :: u16)) = be16 w"
  by (simp add: put_stream1_4_def be16_def upt_small)

lemma add_uint32_be [codec_simps]: "add_uint32_2_bvector bv v = bv @ be32 v"
  by (simp add: add_uint32_2_bvector_def add_value_2_bvector_net_order_def be32_def upt_small)

lemma add_uint16_be [codec_simps]: "add_uint16_2_bvector bv w = bv @ be16 w"
  by (simp add: add_uint16_2_bvector_def add_value_2_bvector_net_order_def be16_def upt_small)

lemma add_dev_id_be [codec_simps]: "add_dev_id_bvector_net_order bv d = bv @ be_devid d"
  by (simp add: add_dev_id_bvector_net_order_def be_devid_def add_uint32_be add_uint16_be)

subsection \<open>Decoding\<close>

lemma shift_in_bit [bit_simps]:
  "bit (shift_in v b) n \<longleftrightarrow>
     (if n < 8 then bit b n else n < 32 \<and> bit v (n - 8))"
proof -
  have "push_bit 8 v + ucast b = push_bit 8 v OR (ucast b :: u32)"
    by (rule disjunctive_add) (auto simp: bit_simps dest: bit_imp_le_length)
  then show ?thesis
    by (auto simp: shift_in_def bit_simps dest: bit_imp_le_length)
qed

lemma shift_in_be32: "foldl shift_in 0 (be32 v) = v"
proof (rule bit_word_eqI)
  fix n assume "n < LENGTH(32)"
  then show "bit (foldl shift_in 0 (be32 v)) n = bit v n"
    by (auto simp: be32_def bit_simps)
qed

lemma shift_in_be16: "foldl shift_in 0 (be16 w) = ucast w"
proof (rule bit_word_eqI)
  fix n assume "n < LENGTH(32)"
  then show "bit (foldl shift_in 0 (be16 w)) n = bit (ucast w :: u32) n"
    by (auto simp: be16_def bit_simps dest: bit_imp_le_length)
qed

lemma get_stream_be32 [codec_simps]:
  "tsize h = 4 \<Longrightarrow> \<not> lend h \<Longrightarrow> get_stream1_4 h (be32 v @ bs) = v"
  by (simp add: get_stream1_4_def shift_in_be32)

lemma get_stream_le32 [codec_simps]:
  "tsize h = 4 \<Longrightarrow> lend h \<Longrightarrow> get_stream1_4 h (rev (be32 v) @ bs) = v"
  by (simp add: get_stream1_4_def shift_in_be32)

lemma get_stream_be16 [codec_simps]:
  "tsize h = 2 \<Longrightarrow> \<not> lend h \<Longrightarrow> get_stream1_4 h (be16 w @ bs) = ucast w"
  by (simp add: get_stream1_4_def shift_in_be16)

text \<open>Encoding then decoding keeps the low \<open>8 * tsize\<close> bits, in either byte order.\<close>

lemma get_put_stream:
  assumes "tsize h \<le> 4"
  shows "get_stream1_4 h (put_stream1_4 h v @ bs) = take_bit (8 * tsize h) v"
proof -
  have "tsize h \<in> {0, 1, 2, 3, 4}" using assms by auto
  then have "n < 32 \<Longrightarrow> bit (get_stream1_4 h (put_stream1_4 h v @ bs)) n
      = bit (take_bit (8 * tsize h) v) n" for n
    by (auto simp: get_stream1_4_def put_stream1_4_def upt_small bit_simps split: if_splits)
  then show ?thesis by (intro bit_word_eqI) simp
qed

end
