(* ===== verification/MBuf.thy ===== *)
theory MBuf
  imports Hex
begin

text \<open>
  The bounded buffer \<open>MBuf\<close> of \<open>common/utils.h\<close> and \<open>common/utils.cpp\<close>. The state is the
  class's: the allocated bytes (whose length is \<open>dlen\<close>), the current pointer as an offset from
  \<open>origin_data\<close>, the 8-bit overflow counter and the read-only flag. Every operator, \<open>memwrite\<close>,
  \<open>memread\<close>, both \<open>meminsert_start\<close>, \<open>mseek\<close>, \<open>tot_seek\<close>, \<open>restOfSize\<close> and \<open>to_vector\<close> is a
  definition. \<open>mbuf_ok\<close> is the memory-safety invariant; the canonical buffers \<open>rbuf\<close> and \<open>wbuf\<close>
  carry the rewrite rules by which packets are evaluated.

  Where the current pointer has left the allocation (\<open>pdata\<close> beyond \<open>dlen\<close>) the C++ program has
  no defined behaviour; facts about reads and writes are stated under \<open>mbuf_ok\<close>.
\<close>

section \<open>State and operations\<close>

record mbuf =
  origin_data :: bvector
  pdata :: nat
  ovrflow :: u8
  rdon :: bool

definition dlen :: "mbuf \<Rightarrow> nat" where
  "dlen m = length (origin_data m)"

definition MBuf_data :: "bvector \<Rightarrow> bool \<Rightarrow> mbuf" where
  "MBuf_data readyd readonly = \<lparr>origin_data = readyd, pdata = 0, ovrflow = 0, rdon = readonly\<rparr>"

definition MBuf_size :: "int \<Rightarrow> bool \<Rightarrow> mbuf" where
  "MBuf_size sz readonly =
     \<lparr>origin_data = replicate (nat sz) 0, pdata = 0, ovrflow = 0, rdon = readonly\<rparr>"

definition wasBroken :: "mbuf \<Rightarrow> bool" where
  "wasBroken m \<longleftrightarrow> ovrflow m \<noteq> 0"

definition realSize :: "mbuf \<Rightarrow> nat" where
  "realSize m = nat (c_int (int (pdata m)) mod 2 ^ 64)"

definition setRdOnly :: "mbuf \<Rightarrow> mbuf" where
  "setRdOnly m = m\<lparr>rdon := True\<rparr>"

text \<open>The bytes from the current pointer on.\<close>

definition cur_data :: "mbuf \<Rightarrow> bvector" where
  "cur_data m = drop (pdata m) (origin_data m)"

text \<open>\<open>ovrflow++\<close>, and the room left as the code computes it, on \<open>size_t\<close>.\<close>

definition overflow :: "mbuf \<Rightarrow> mbuf" where
  "overflow m = m\<lparr>ovrflow := ovrflow m + 1\<rparr>"

definition room :: "mbuf \<Rightarrow> nat" where
  "room m = size_sub (dlen m) (pdata m)"

text \<open>Storing bytes at the pointer and moving it past them.\<close>

definition store :: "mbuf \<Rightarrow> bvector \<Rightarrow> mbuf" where
  "store m bs = m\<lparr>origin_data := overwrite (pdata m) bs (origin_data m),
                  pdata := pdata m + length bs\<rparr>"

definition advance :: "mbuf \<Rightarrow> nat \<Rightarrow> mbuf" where
  "advance m n = m\<lparr>pdata := pdata m + n\<rparr>"

subsection \<open>The stream operators\<close>

definition get32 :: "mbuf \<Rightarrow> hex32 \<Rightarrow> mbuf \<times> hex32" where
  "get32 m v = (if room m < 4 then (overflow m, v)
                else (advance m (tsize v), Hex32_get_stream v (cur_data m)))"

definition put32 :: "mbuf \<Rightarrow> hex32 \<Rightarrow> mbuf" where
  "put32 m v = (if \<not> rdon m then
                  if room m < 4 then overflow m else store m (put_stream1_4 v (value32 v))
                else m)"

definition get24 :: "mbuf \<Rightarrow> hex24 \<Rightarrow> mbuf \<times> hex24" where
  "get24 m v = (if room m < 3 then (overflow m, v)
                else (advance m (tsize v), Hex24_get_stream v (cur_data m)))"

definition put24 :: "mbuf \<Rightarrow> hex24 \<Rightarrow> mbuf" where
  "put24 m v = (if \<not> rdon m then
                  if room m < 3 then overflow m else store m (put_stream1_4 v (value24 v))
                else m)"

definition get16 :: "mbuf \<Rightarrow> hex16 \<Rightarrow> mbuf \<times> hex16" where
  "get16 m v = (if room m < 2 then (overflow m, v)
                else (advance m (tsize v), Hex16_get_stream v (cur_data m)))"

definition put16 :: "mbuf \<Rightarrow> hex16 \<Rightarrow> mbuf" where
  "put16 m v = (if \<not> rdon m then
                  if room m < 2 then overflow m else store m (put_stream1_4 v (ucast (value16 v)))
                else m)"

definition get8 :: "mbuf \<Rightarrow> hex8 \<Rightarrow> mbuf \<times> hex8" where
  "get8 m v = (if room m < 1 then (overflow m, v)
               else (advance m 1, Hex8_get_stream v (cur_data m)))"

definition put8 :: "mbuf \<Rightarrow> hex8 \<Rightarrow> mbuf" where
  "put8 m v = (if \<not> rdon m then
                 if room m < 1 then overflow m else store m [value8 v AND 0xFF]
               else m)"

text \<open>\<open>HexIDev3::put_stream\<close> and \<open>get_stream\<close>, which the operators on \<open>HexIDev3\<close> call.\<close>

definition put_idev3 :: "mbuf \<Rightarrow> hexidev3 \<Rightarrow> mbuf" where
  "put_idev3 m h =
     (if lend h then put32 (put16 (put16 (put32 m (id_value h)) (id_pid h)) (id_vid h)) (idev_reserve h)
      else put32 (put16 (put16 (put32 m (idev_reserve h)) (id_vid h)) (id_pid h)) (id_value h))"

definition get_idev3 :: "mbuf \<Rightarrow> hexidev3 \<Rightarrow> mbuf \<times> hexidev3" where
  "get_idev3 m h =
     (if lend h then
        let (m, i) = get32 m (id_value h); (m, p) = get16 m (id_pid h);
            (m, v) = get16 m (id_vid h); (m, r) = get32 m (idev_reserve h)
        in (m, h\<lparr>id_value := i, id_pid := p, id_vid := v, idev_reserve := r\<rparr>)
      else
        let (m, r) = get32 m (idev_reserve h); (m, v) = get16 m (id_vid h);
            (m, p) = get16 m (id_pid h); (m, i) = get32 m (id_value h)
        in (m, h\<lparr>id_value := i, id_pid := p, id_vid := v, idev_reserve := r\<rparr>))"

subsection \<open>Seeking and measuring\<close>

definition restOfSize :: "mbuf \<Rightarrow> int \<Rightarrow> nat" where
  "restOfSize m from_pos =
     (let from_pos = (if from_pos = -1 then c_int (int (pdata m)) else from_pos)
      in if from_pos < 0 \<or> from_pos > c_int (int (dlen m)) then size_max
         else dlen m - nat from_pos)"

text \<open>\<open>mseek\<close> returns \<open>ovrflow != 0\<close> and \<open>tot_seek\<close> returns \<open>ovrflow == 0\<close>.\<close>

definition mseek :: "mbuf \<Rightarrow> int \<Rightarrow> mbuf" where
  "mseek m offset =
     (if c_int (int (dlen m)) < c_int (int (pdata m) + offset) \<or> int (pdata m) + offset < 0
      then overflow m
      else m\<lparr>pdata := nat (int (pdata m) + offset)\<rparr>)"

definition mseek_result :: "mbuf \<Rightarrow> int \<Rightarrow> bool" where
  "mseek_result m offset \<longleftrightarrow> ovrflow (mseek m offset) \<noteq> 0"

definition tot_seek :: "mbuf \<Rightarrow> int \<Rightarrow> mbuf" where
  "tot_seek m offset =
     (if offset \<ge> c_int (int (dlen m)) \<or> offset < 0 then overflow m
      else m\<lparr>pdata := nat offset\<rparr>)"

definition tot_seek_result :: "mbuf \<Rightarrow> int \<Rightarrow> bool" where
  "tot_seek_result m offset \<longleftrightarrow> ovrflow (tot_seek m offset) = 0"

subsection \<open>Block transfers\<close>

text \<open>\<open>memwrite(data, len)\<close> with the \<open>len\<close> bytes at \<open>data\<close>; the second result is the one returned.\<close>

definition memwrite :: "mbuf \<Rightarrow> bvector \<Rightarrow> mbuf \<times> nat" where
  "memwrite m bs =
     (if rdon m \<or> length bs = size_max then (m, 0)
      else if room m < length bs then (overflow m, 0)
      else (store m bs, length bs))"

text \<open>\<open>memread(dest, dlen, len)\<close>: the bytes copied to \<open>dest\<close> and the result.\<close>

definition memread :: "mbuf \<Rightarrow> nat \<Rightarrow> nat \<Rightarrow> mbuf \<times> bvector \<times> nat" where
  "memread m dest_len len =
     (let rest = restOfSize m (-1) in
      if len > dest_len \<or> rest < len \<or> rest = size_max then (m, [], size_max)
      else (advance m len, take len (cur_data m), len))"

text \<open>\<open>operator << (const MBuf &)\<close>: it does not look at the read-only flag.\<close>

definition put_mbuf :: "mbuf \<Rightarrow> mbuf \<Rightarrow> mbuf" where
  "put_mbuf m src =
     (if restOfSize m (-1) < realSize src \<or> restOfSize m (-1) = size_max then overflow m
      else store m (take (realSize src) (origin_data src)))"

text \<open>
  \<open>meminsert_start\<close>: a larger allocation (whose bytes \<open>new\<close> leaves arbitrary: \<open>junk\<close>), the new
  bytes written at its start, the old ones after them, the pointer moved along.
\<close>

definition meminsert_start :: "mbuf \<Rightarrow> bvector \<Rightarrow> bvector \<Rightarrow> mbuf \<times> bool" where
  "meminsert_start m junk what =
     (if rdon m \<or> length what = size_max then (m, False)
      else
        let cur_pos = c_int (int (pdata m));
            old = origin_data m;
            m1 = m\<lparr>origin_data := take (dlen m + length what) junk, pdata := 0\<rparr>;
            m2 = fst (memwrite m1 what);
            m3 = fst (memwrite m2 old)
        in (m3\<lparr>pdata := nat (cur_pos + int (length what))\<rparr>, True))"

definition meminsert_start2 :: "mbuf \<Rightarrow> bvector \<Rightarrow> u8 \<Rightarrow> u8 \<Rightarrow> mbuf \<times> bool" where
  "meminsert_start2 m junk num1 num2 =
     (if rdon m then (m, False)
      else
        let cur_pos = c_int (int (pdata m));
            old = origin_data m;
            m1 = m\<lparr>origin_data := take (dlen m + 2) junk, pdata := 0\<rparr>;
            m2 = put8 (put8 m1 (Hex8 num1)) (Hex8 num2);
            m3 = fst (memwrite m2 old)
        in (m3\<lparr>pdata := nat (cur_pos + 2)\<rparr>, True))"

definition to_vector :: "mbuf \<Rightarrow> bool \<Rightarrow> bvector" where
  "to_vector m rest =
     (if rest then
        if dlen m \<noteq> 0 then take (restOfSize m (-1)) (cur_data m) else []
      else if rdon m \<and> pdata m = 0 then origin_data m
      else if pdata m > 0 then take (pdata m) (origin_data m) else [])"

section \<open>The memory-safety invariant\<close>

text \<open>
  The pointer stays inside the allocation, and the allocation is small enough for the code's
  \<open>int\<close> arithmetic. Under it the room, the rest and the seeks are what they should be.
\<close>

definition mbuf_ok :: "mbuf \<Rightarrow> bool" where
  "mbuf_ok m \<longleftrightarrow> pdata m \<le> dlen m \<and> dlen m < 2 ^ 31"

lemma mbuf_ok_room [simp]: "mbuf_ok m \<Longrightarrow> room m = dlen m - pdata m"
  by (simp add: mbuf_ok_def room_def)

lemma mbuf_ok_rest [simp]: "mbuf_ok m \<Longrightarrow> restOfSize m (-1) = dlen m - pdata m"
  by (simp add: mbuf_ok_def restOfSize_def Let_def)

lemma mbuf_ok_rest_not_max [simp]: "mbuf_ok m \<Longrightarrow> dlen m - pdata m \<noteq> size_max"
  by (auto simp: mbuf_ok_def size_max_def)

lemma mbuf_ok_realSize [simp]: "mbuf_ok m \<Longrightarrow> realSize m = pdata m"
  by (simp add: mbuf_ok_def realSize_def)

lemma mbuf_ok_seek:
  assumes "mbuf_ok m" and "offset < 2 ^ 31 - int (dlen m)"
  shows "mseek m offset =
    (if 0 \<le> int (pdata m) + offset \<and> int (pdata m) + offset \<le> int (dlen m)
     then m\<lparr>pdata := nat (int (pdata m) + offset)\<rparr> else overflow m)"
proof (cases "int (pdata m) + offset < 0")
  case True
  then show ?thesis by (simp add: mseek_def)
next
  case False
  with assms have "c_int (int (pdata m) + offset) = int (pdata m) + offset"
    and "c_int (int (dlen m)) = int (dlen m)"
    by (simp_all add: mbuf_ok_def)
  with False show ?thesis by (simp add: mseek_def)
qed

lemma dlen_update [simp]:
  "dlen (overflow m) = dlen m" "dlen (advance m n) = dlen m" "dlen (m\<lparr>pdata := k\<rparr>) = dlen m"
  "dlen (setRdOnly m) = dlen m" "dlen (m\<lparr>origin_data := d\<rparr>) = length d"
  by (simp_all add: dlen_def overflow_def advance_def setRdOnly_def)

lemma pdata_update [simp]:
  "pdata (overflow m) = pdata m" "pdata (advance m n) = pdata m + n" "pdata (setRdOnly m) = pdata m"
  "pdata (store m bs) = pdata m + length bs"
  by (simp_all add: overflow_def advance_def setRdOnly_def store_def)

lemma dlen_store [simp]: "pdata m + length bs \<le> dlen m \<Longrightarrow> dlen (store m bs) = dlen m"
  by (simp add: store_def dlen_def)

lemma mbuf_ok_overflow [simp]: "mbuf_ok (overflow m) \<longleftrightarrow> mbuf_ok m"
  by (simp add: mbuf_ok_def)

lemma mbuf_ok_advance [simp]: "mbuf_ok m \<Longrightarrow> n \<le> dlen m - pdata m \<Longrightarrow> mbuf_ok (advance m n)"
  by (auto simp: mbuf_ok_def)

lemma mbuf_ok_store [simp]:
  assumes "mbuf_ok m" and "length bs \<le> dlen m - pdata m"
  shows "mbuf_ok (store m bs)"
proof -
  have "pdata m + length bs \<le> dlen m" using assms by (auto simp: mbuf_ok_def)
  then show ?thesis using assms(1) by (simp add: mbuf_ok_def)
qed

text \<open>
  A program over one buffer: the public operations on a fixed object, with their arguments. The
  number objects are the ones the constructors make.
\<close>

datatype mb_op =
    Put32 u32 bool | Get32 u32 bool | Put24 u32 bool | Get24 u32 bool
  | Put16 u16 bool | Get16 u16 bool | Put8 u8 | Get8 u8
  | PutIDev3 devid bool | GetIDev3 devid bool
  | MemWrite bvector | MemRead nat nat | PutMBuf mbuf
  | MSeek int | TotSeek int | SetRdOnly

fun mb_exec :: "mbuf \<Rightarrow> mb_op \<Rightarrow> mbuf" where
  "mb_exec m (Put32 v le) = put32 m (Hex32 v le)"
| "mb_exec m (Get32 v le) = fst (get32 m (Hex32 v le))"
| "mb_exec m (Put24 v le) = put24 m (Hex24 v le)"
| "mb_exec m (Get24 v le) = fst (get24 m (Hex24 v le))"
| "mb_exec m (Put16 v le) = put16 m (Hex16 v le)"
| "mb_exec m (Get16 v le) = fst (get16 m (Hex16 v le))"
| "mb_exec m (Put8 v) = put8 m (Hex8 v)"
| "mb_exec m (Get8 v) = fst (get8 m (Hex8 v))"
| "mb_exec m (PutIDev3 d le) = put_idev3 m (HexIDev3 (Some d) le)"
| "mb_exec m (GetIDev3 d le) = fst (get_idev3 m (HexIDev3 (Some d) le))"
| "mb_exec m (MemWrite bs) = fst (memwrite m bs)"
| "mb_exec m (MemRead dest_len len) = fst (memread m dest_len len)"
| "mb_exec m (PutMBuf src) = put_mbuf m src"
| "mb_exec m (MSeek off) = mseek m off"
| "mb_exec m (TotSeek off) = tot_seek m off"
| "mb_exec m SetRdOnly = setRdOnly m"

fun mb_run :: "mbuf \<Rightarrow> mb_op list \<Rightarrow> mbuf" where
  "mb_run m [] = m"
| "mb_run m (x # xs) = mb_run (mb_exec m x) xs"

text \<open>The arguments for which the code's \<open>int\<close> arithmetic does not wrap.\<close>

fun mb_op_fits :: "nat \<Rightarrow> mb_op \<Rightarrow> bool" where
  "mb_op_fits n (MSeek off) = (off < 2 ^ 31 - int n)"
| "mb_op_fits n (PutMBuf src) = mbuf_ok src"
| "mb_op_fits n _ = True"

lemma hex_tsize [simp]:
  "tsize (Hex32 a b) = 4" "tsize (Hex24 a b) = 3" "tsize (Hex16 c b) = 2" "tsize (Hex8 d) = 1"
  by (simp_all add: Hex32_def Hex24_def Hex16_def Hex8_def)

lemma get_stream_tsize [simp]:
  "tsize (Hex32_get_stream h bs) = tsize h" "tsize (Hex16_get_stream k bs) = tsize k"
  by (simp_all add: Hex32_get_stream_def Hex16_get_stream_def)

lemma HexIDev3_tsize [simp]:
  "tsize (id_value (HexIDev3 d le)) = 4" "tsize (idev_reserve (HexIDev3 d le)) = 4"
  "tsize (id_pid (HexIDev3 d le)) = 2" "tsize (id_vid (HexIDev3 d le)) = 2"
  by (simp_all add: HexIDev3_def split: option.splits)

text \<open>Each operation keeps the invariant and the allocation.\<close>

definition keeps :: "mbuf \<Rightarrow> mbuf \<Rightarrow> bool" where
  "keeps m m' \<longleftrightarrow> mbuf_ok m' \<and> dlen m' = dlen m"

lemma keeps_refl [simp]: "mbuf_ok m \<Longrightarrow> keeps m m"
  by (simp add: keeps_def)

lemma keeps_trans [trans]: "keeps a b \<Longrightarrow> keeps b c \<Longrightarrow> keeps a c"
  by (simp add: keeps_def)

lemma keeps_ok: "keeps m m' \<Longrightarrow> mbuf_ok m'"
  by (simp add: keeps_def)

lemma keeps_store [simp]:
  "mbuf_ok m \<Longrightarrow> length bs \<le> dlen m - pdata m \<Longrightarrow> keeps m (store m bs)"
  using mbuf_ok_store [of m bs] by (auto simp: keeps_def mbuf_ok_def)

lemma keeps_overflow [simp]: "mbuf_ok m \<Longrightarrow> keeps m (overflow m)"
  by (simp add: keeps_def)

lemma keeps_advance [simp]:
  "mbuf_ok m \<Longrightarrow> n \<le> dlen m - pdata m \<Longrightarrow> keeps m (advance m n)"
  by (simp add: keeps_def)

lemma keeps_put:
  assumes "mbuf_ok m"
  shows "tsize h \<le> 4 \<Longrightarrow> keeps m (put32 m h)" "tsize k \<le> 3 \<Longrightarrow> keeps m (put24 m k)"
    "tsize l \<le> 2 \<Longrightarrow> keeps m (put16 m l)" "keeps m (put8 m b)"
  using assms by (auto simp: put32_def put24_def put16_def put8_def)

lemma keeps_get:
  assumes "mbuf_ok m"
  shows "tsize h \<le> 4 \<Longrightarrow> keeps m (fst (get32 m h))" "tsize k \<le> 3 \<Longrightarrow> keeps m (fst (get24 m k))"
    "tsize l \<le> 2 \<Longrightarrow> keeps m (fst (get16 m l))" "keeps m (fst (get8 m b))"
  using assms by (auto simp: get32_def get24_def get16_def get8_def)

lemma get_tsize [simp]:
  "tsize (snd (get32 m h)) = tsize h" "tsize (snd (get16 m l)) = tsize l"
  by (simp_all add: get32_def get16_def)

lemma keeps_step: "keeps m a \<Longrightarrow> (mbuf_ok a \<Longrightarrow> keeps a b) \<Longrightarrow> keeps m b"
  by (simp add: keeps_def)

lemma keeps_put_4:
  assumes "mbuf_ok m" "tsize a \<le> 4" "tsize b \<le> 2" "tsize c \<le> 2" "tsize d \<le> 4"
  shows "keeps m (put32 (put16 (put16 (put32 m a) b) c) d)"
proof -
  have "keeps m (put32 m a)" by (simp add: keeps_put assms)
  then have "keeps m (put16 (put32 m a) b)" by (rule keeps_step) (simp add: keeps_put assms)
  then have "keeps m (put16 (put16 (put32 m a) b) c)" by (rule keeps_step) (simp add: keeps_put assms)
  then show ?thesis by (rule keeps_step) (simp add: keeps_put assms)
qed

lemma keeps_put_idev3:
  assumes "mbuf_ok m" "tsize (id_value h) = 4" "tsize (idev_reserve h) = 4"
    "tsize (id_pid h) = 2" "tsize (id_vid h) = 2"
  shows "keeps m (put_idev3 m h)"
  by (simp add: put_idev3_def keeps_put_4 assms)

lemma keeps_get_4:
  assumes "mbuf_ok m" "tsize a \<le> 4" "tsize b \<le> 2" "tsize c \<le> 2" "tsize d \<le> 4"
  shows "keeps m (fst (get32 (fst (get16 (fst (get16 (fst (get32 m a)) b)) c)) d))"
proof -
  have "keeps m (fst (get32 m a))" by (simp add: keeps_get assms)
  then have "keeps m (fst (get16 (fst (get32 m a)) b))" by (rule keeps_step) (simp add: keeps_get assms)
  then have "keeps m (fst (get16 (fst (get16 (fst (get32 m a)) b)) c))"
    by (rule keeps_step) (simp add: keeps_get assms)
  then show ?thesis by (rule keeps_step) (simp add: keeps_get assms)
qed

lemma keeps_get_idev3:
  assumes "mbuf_ok m" "tsize (id_value h) = 4" "tsize (idev_reserve h) = 4"
    "tsize (id_pid h) = 2" "tsize (id_vid h) = 2"
  shows "keeps m (fst (get_idev3 m h))"
  by (simp add: get_idev3_def case_prod_beta Let_def keeps_get_4 assms)

lemma keeps_block:
  assumes "mbuf_ok m"
  shows "keeps m (fst (memwrite m bs))" and "keeps m (fst (memread m dest_len len))"
    and "mbuf_ok src \<Longrightarrow> keeps m (put_mbuf m src)"
  using assms by (auto simp: memwrite_def memread_def put_mbuf_def Let_def min_def)

lemma keeps_seek:
  assumes "mbuf_ok m"
  shows "off < 2 ^ 31 - int (dlen m) \<Longrightarrow> keeps m (mseek m off)" and "keeps m (tot_seek m off2)"
    and "keeps m (setRdOnly m)"
proof -
  have "c_int (int (dlen m)) = int (dlen m)" using assms by (simp add: mbuf_ok_def)
  then show "keeps m (tot_seek m off2)"
    using assms by (auto simp: tot_seek_def keeps_def mbuf_ok_def)
  show "off < 2 ^ 31 - int (dlen m) \<Longrightarrow> keeps m (mseek m off)"
    using assms by (auto simp: mbuf_ok_seek keeps_def) (simp add: mbuf_ok_def)
  show "keeps m (setRdOnly m)" using assms by (simp add: keeps_def mbuf_ok_def)
qed

lemma mb_exec_keeps:
  assumes "mbuf_ok m" and "mb_op_fits (dlen m) x"
  shows "keeps m (mb_exec m x)"
  using assms by (cases x) (simp_all add: keeps_put keeps_get keeps_put_idev3 keeps_get_idev3
      keeps_block keeps_seek)

lemma mb_run_keeps:
  "mbuf_ok m \<Longrightarrow> \<forall>x \<in> set xs. mb_op_fits (dlen m) x \<Longrightarrow> keeps m (mb_run m xs)"
proof (induction xs arbitrary: m)
  case Nil
  then show ?case by simp
next
  case (Cons x xs)
  then have "keeps m (mb_exec m x)" by (simp add: mb_exec_keeps)
  then show ?case
    using Cons by (auto intro!: keeps_step [of m "mb_exec m x"] simp: keeps_def)
qed

end
