(* ===== verification/Packet_Buffers.thy ===== *)
theory Packet_Buffers
  imports MBuf
begin

text \<open>
  Canonical buffers and the rewrite rules by which packet builders and parsers are evaluated:
  \<open>rbuf c pre rest\<close> is a read-only buffer over \<open>pre @ rest\<close> positioned after \<open>pre\<close> with overflow
  counter \<open>c\<close>, \<open>wbuf out cap\<close> a writable buffer of \<open>cap\<close> bytes into which \<open>out\<close> has been written.
  Also the generic round trip: any sequence of fields written to a buffer is read back.
\<close>

section \<open>Canonical buffers\<close>

definition rbuf :: "u8 \<Rightarrow> bvector \<Rightarrow> bvector \<Rightarrow> mbuf" where
  "rbuf c pre rest = \<lparr>origin_data = pre @ rest, pdata = length pre, ovrflow = c, rdon = True\<rparr>"

definition wbuf :: "bvector \<Rightarrow> nat \<Rightarrow> mbuf" where
  "wbuf out cap = \<lparr>origin_data = out @ replicate (cap - length out) 0, pdata = length out,
                   ovrflow = 0, rdon = False\<rparr>"

text \<open>The bound under which the \<open>int\<close> arithmetic on a read buffer is exact.\<close>

abbreviation short :: "bvector \<Rightarrow> bool" where
  "short d \<equiv> length d < 2 ^ 31 - 8192"

lemma MBuf_data_rbuf [buf_simps]: "MBuf_data d True = rbuf 0 [] d"
  by (simp add: MBuf_data_def rbuf_def)

lemma MBuf_size_wbuf [buf_simps]: "MBuf_size sz False = wbuf [] (nat sz)"
  by (simp add: MBuf_size_def wbuf_def)

lemma rbuf_sel [simp]:
  "ovrflow (rbuf c pre rest) = c" "dlen (rbuf c pre rest) = length pre + length rest"
  "cur_data (rbuf c pre rest) = rest" "pdata (rbuf c pre rest) = length pre"
  "rdon (rbuf c pre rest)" "origin_data (rbuf c pre rest) = pre @ rest"
  by (simp_all add: rbuf_def dlen_def cur_data_def)

lemma rbuf_broken [simp, buf_simps]: "wasBroken (rbuf c pre rest) \<longleftrightarrow> c \<noteq> 0"
  by (simp add: wasBroken_def)

lemma rbuf_overflow [simp]: "overflow (rbuf c pre rest) = rbuf (c + 1) pre rest"
  by (simp add: overflow_def rbuf_def)

lemma rbuf_ok: "length pre + length rest < 2 ^ 31 \<Longrightarrow> mbuf_ok (rbuf c pre rest)"
  by (simp add: mbuf_ok_def)

lemma rbuf_advance:
  "n \<le> length rest \<Longrightarrow> advance (rbuf c pre rest) n = rbuf c (pre @ take n rest) (drop n rest)"
  by (simp add: advance_def rbuf_def min_def)

lemma rbuf_room [simp]:
  "length pre + length rest < 2 ^ 31 \<Longrightarrow> room (rbuf c pre rest) = length rest"
  using rbuf_ok [of pre rest c] by simp

lemma rbuf_rest [buf_simps]:
  "length pre + length rest < 2 ^ 31 \<Longrightarrow> restOfSize (rbuf c pre rest) (-1) = length rest"
  using rbuf_ok [of pre rest c] by simp

lemma rbuf_to_vector_rest [buf_simps]:
  "length pre + length rest < 2 ^ 31 \<Longrightarrow> to_vector (rbuf c pre rest) True = rest"
  by (auto simp: to_vector_def rbuf_rest)

lemma rbuf_seek_n:
  assumes "length pre + length rest < 2 ^ 31 - 1024" and "n \<le> 1024"
  shows "mseek (rbuf c pre rest) (int n) =
     (if n \<le> length rest then rbuf c (pre @ take n rest) (drop n rest) else rbuf (c + 1) pre rest)"
proof -
  have "int n < 2 ^ 31 - int (dlen (rbuf c pre rest))" using assms by simp
  then have seek: "mseek (rbuf c pre rest) (int n) =
      (if n \<le> length rest then (rbuf c pre rest)\<lparr>pdata := length pre + n\<rparr>
       else rbuf (c + 1) pre rest)"
    using assms rbuf_ok [of pre rest c] by (simp add: mbuf_ok_seek nat_int_add)
  have "n \<le> length rest \<Longrightarrow>
      (rbuf c pre rest)\<lparr>pdata := length pre + n\<rparr> = rbuf c (pre @ take n rest) (drop n rest)"
    by (simp add: rbuf_def)
  with seek show ?thesis by simp
qed

section \<open>Reading\<close>

text \<open>The number in the next four (two) bytes.\<close>

definition val32 :: "bvector \<Rightarrow> u32" where
  "val32 bs = foldl shift_in 0 bs"

lemma val32_be [simp, codec_simps]: "val32 (be32 v) = v" "val32 (be16 w) = ucast w"
  by (simp_all add: val32_def shift_in_be32 shift_in_be16)

lemma Hex32_sel [simp]:
  "value32 (Hex32 v le) = v" "lend (Hex32 v le) = le" "(Hex32 v le)\<lparr>value32 := w\<rparr> = Hex32 w le"
  by (simp_all add: Hex32_def)

lemma Hex16_sel [simp]:
  "value16 (Hex16 u le) = u" "lend (Hex16 u le) = le" "(Hex16 u le)\<lparr>value16 := x\<rparr> = Hex16 x le"
  by (simp_all add: Hex16_def)

lemma get32_rbuf:
  assumes "length pre + length rest < 2 ^ 31"
  shows "get32 (rbuf c pre rest) (Hex32 v False) =
    (if length rest < 4 then (rbuf (c + 1) pre rest, Hex32 v False)
     else (rbuf c (pre @ take 4 rest) (drop 4 rest), Hex32 (val32 (take 4 rest)) False))"
  using assms
  by (simp add: get32_def rbuf_advance Hex32_get_stream_def get_stream1_4_def val32_def)

lemma get32_le_rbuf:
  assumes "length pre + length rest < 2 ^ 31"
  shows "get32 (rbuf c pre rest) (Hex32 v True) =
    (if length rest < 4 then (rbuf (c + 1) pre rest, Hex32 v True)
     else (rbuf c (pre @ take 4 rest) (drop 4 rest), Hex32 (val32 (rev (take 4 rest))) True))"
  using assms
  by (simp add: get32_def rbuf_advance Hex32_get_stream_def get_stream1_4_def val32_def)

lemma get16_rbuf:
  assumes "length pre + length rest < 2 ^ 31"
  shows "get16 (rbuf c pre rest) (Hex16 v False) =
    (if length rest < 2 then (rbuf (c + 1) pre rest, Hex16 v False)
     else (rbuf c (pre @ take 2 rest) (drop 2 rest), Hex16 (ucast (val32 (take 2 rest))) False))"
  using assms
  by (simp add: get16_def rbuf_advance Hex16_get_stream_def get_stream1_4_def val32_def)

lemma get32_be [buf_simps]:
  "length pre + length rest < 2 ^ 31 - 1024 \<Longrightarrow>
   get32 (rbuf c pre (be32 w @ rest)) (Hex32 v False) = (rbuf c (pre @ be32 w) rest, Hex32 w False)"
  "length pre < 2 ^ 31 - 1024 \<Longrightarrow>
   get32 (rbuf c pre (be32 w)) (Hex32 v False) = (rbuf c (pre @ be32 w) [], Hex32 w False)"
  by (simp_all add: get32_rbuf)

lemma get16_be:
  "length pre + length rest < 2 ^ 31 - 1024 \<Longrightarrow>
   get16 (rbuf c pre (be16 w @ rest)) (Hex16 v False) = (rbuf c (pre @ be16 w) rest, Hex16 w False)"
  by (simp add: get16_rbuf)

lemma mseek_be [buf_simps]:
  "length pre + length rest < 2 ^ 31 - 2048 \<Longrightarrow>
   mseek (rbuf c pre (be32 a @ be32 b @ rest)) 8 = rbuf c (pre @ be32 a @ be32 b) rest"
  using rbuf_seek_n [of pre "be32 a @ be32 b @ rest" 8 c] by simp

text \<open>An identifier object whose parts all have the default byte order.\<close>

abbreviation idev3 :: "devid \<Rightarrow> hexidev3" where
  "idev3 d \<equiv> HexIDev3 (Some d) False"

lemma idev3_None [simp]: "HexIDev3 None False = idev3 (devid_of_id 0)"
  by (simp add: HexIDev3_def devid_PID_def devid_VID_def)

lemma idev3_parts [simp]:
  "lend (idev3 d) = False" "id_value (idev3 d) = Hex32 (dev_id d) False"
  "idev_reserve (idev3 d) = Hex32 (dev_reserve d) False" "id_pid (idev3 d) = Hex16 (dev_PID d) False"
  "id_vid (idev3 d) = Hex16 (dev_VID d) False"
  by (simp_all add: HexIDev3_def devid_PID_def devid_VID_def)

lemma idev3_toDevId [simp]: "toDevId (idev3 d) = d"
  by (simp add: toDevId_def mk_devid_def)

lemma idev3_update [simp]:
  "(idev3 d)\<lparr>id_value := Hex32 i False, id_pid := Hex16 p False, id_vid := Hex16 v False,
             idev_reserve := Hex32 r False\<rparr> = idev3 (mk_devid i p v r)"
  by (simp add: HexIDev3_def devid_PID_def devid_VID_def mk_devid_def)

lemma get_idev3_be [buf_simps]:
  assumes "length pre + length rest < 2 ^ 31 - 2048"
  shows "get_idev3 (rbuf c pre (be_devid e @ rest)) (idev3 d) = (rbuf c (pre @ be_devid e) rest, idev3 e)"
  using assms by (simp add: get_idev3_def be_devid_def get32_be get16_be)

lemma get_idev3_be_end [buf_simps]:
  "length pre < 2 ^ 31 - 2048 \<Longrightarrow>
   get_idev3 (rbuf c pre (be_devid e)) (idev3 d) = (rbuf c (pre @ be_devid e) [], idev3 e)"
  using get_idev3_be [of pre "[]" c e d] by simp

text \<open>Reads past the end: nothing moves, nothing is stored, the counter goes up.\<close>

lemma get_idev3_short:
  assumes "length pre + length rest < 2 ^ 31" and "length rest < 2"
  shows "get_idev3 (rbuf c pre rest) (idev3 d) = (rbuf (c + 4) pre rest, idev3 d)"
  using assms by (simp add: get_idev3_def get32_rbuf get16_rbuf)

section \<open>Writing\<close>

lemma wbuf_sel [simp]:
  "ovrflow (wbuf out cap) = 0" "pdata (wbuf out cap) = length out" "\<not> rdon (wbuf out cap)"
  "length out \<le> cap \<Longrightarrow> dlen (wbuf out cap) = cap"
  by (simp_all add: wbuf_def dlen_def)

lemma wbuf_broken [simp, buf_simps]: "\<not> wasBroken (wbuf out cap)"
  by (simp add: wasBroken_def)

lemma wbuf_store:
  "length out + length bs \<le> cap \<Longrightarrow> store (wbuf out cap) bs = wbuf (out @ bs) cap"
  using overwrite_pad [of bs out cap 0] by (simp add: store_def wbuf_def add.commute)

lemma wbuf_room [simp]:
  "length out \<le> cap \<Longrightarrow> cap < 2 ^ 64 \<Longrightarrow> room (wbuf out cap) = cap - length out"
  by (simp add: room_def)

lemma put32_wbuf [buf_simps]:
  "length out + 4 \<le> cap \<Longrightarrow> cap < 2 ^ 64 \<Longrightarrow> put32 (wbuf out cap) (Hex32 v False) = wbuf (out @ be32 v) cap"
  by (simp add: put32_def wbuf_store put_stream_be32)

lemma put16_wbuf:
  "length out + 2 \<le> cap \<Longrightarrow> cap < 2 ^ 64 \<Longrightarrow> put16 (wbuf out cap) (Hex16 v False) = wbuf (out @ be16 v) cap"
  by (simp add: put16_def wbuf_store put_stream_be16)

lemma put8_wbuf [buf_simps]:
  assumes "length out + 1 \<le> cap" and "cap < 2 ^ 64"
  shows "put8 (wbuf out cap) (Hex8 b) = wbuf (out @ [b]) cap"
proof -
  have "b AND 0xFF = take_bit 8 b" by (simp add: take_bit_eq_mask mask_eq_exp_minus_1)
  then have "b AND 0xFF = b" by (simp add: take_bit_word_eq_self)
  then show ?thesis using assms wbuf_store [of out "[b]" cap] by (simp add: put8_def Hex8_def)
qed

lemma put_idev3_wbuf [buf_simps]:
  "length out + 12 \<le> cap \<Longrightarrow> cap < 2 ^ 64 \<Longrightarrow> put_idev3 (wbuf out cap) (idev3 d) = wbuf (out @ be_devid d) cap"
  by (simp add: put_idev3_def put32_wbuf put16_wbuf be_devid_def)

lemma memwrite_wbuf [buf_simps]:
  "length out + length bs \<le> cap \<Longrightarrow> cap < 2 ^ 63 \<Longrightarrow>
   memwrite (wbuf out cap) bs = (wbuf (out @ bs) cap, length bs)"
  by (auto simp: memwrite_def wbuf_store size_max_def)

lemma wbuf_to_vector [buf_simps]: "length out \<le> cap \<Longrightarrow> to_vector (wbuf out cap) False = out"
  by (auto simp: to_vector_def wbuf_def)

lemma wbuf_realSize [buf_simps]: "length out < 2 ^ 31 \<Longrightarrow> realSize (wbuf out cap) = length out"
  by (simp add: realSize_def)

text \<open>\<open>mbuf << Hex32(a) << Hex32(b) << ...\<close>\<close>

definition put32s :: "mbuf \<Rightarrow> u32 list \<Rightarrow> mbuf" where
  "put32s m vs = foldl (\<lambda>m v. put32 m (Hex32 v False)) m vs"

lemma put32s_wbuf [buf_simps]:
  "length out + 4 * length vs \<le> cap \<Longrightarrow> cap < 2 ^ 64 \<Longrightarrow>
   put32s (wbuf out cap) vs = wbuf (out @ concat (map be32 vs)) cap"
  unfolding put32s_def by (induction vs arbitrary: out) (simp_all add: put32_wbuf)

end
