(* ===== verification/Cmd_Schema.thy ===== *)
theory Cmd_Schema
  imports Packet_Buffers
begin

text \<open>
  Command schemas (\<open>cmd_schema_t\<close> of \<open>common/protocols.h\<close> and \<open>common/protocols.cpp\<close>): a
  packet type with a format string, the lookup in a table, the generation of a packet without
  payload and the check of a packet against a schema. A \<open>nullptr\<close> schema is \<open>None\<close>; building
  a \<open>std::string\<close> from it has no defined result, which the results report as \<open>None\<close>.
\<close>

record cmd_schema =
  pkt_type :: u32
  schema :: "string option"

text \<open>\<open>get_schema\<close>: the first entry of the type, or the closing entry; \<open>None\<close> past the table.\<close>

fun get_schema :: "u32 \<Rightarrow> cmd_schema list \<Rightarrow> cmd_schema option" where
  "get_schema pckt [] = None"
| "get_schema pckt (s # ss) =
     (if schema s \<noteq> None then
        if pkt_type s = pckt then Some s else get_schema pckt ss
      else Some s)"

text \<open>
  \<open>get_plain_command_length\<close>: -1 at the first letter that is not of fixed width. The switch on a
  letter and the loop over the schema are separate definitions here and below; the loop skips
  underscores.
\<close>

definition letter_length :: "char \<Rightarrow> int option" where
  "letter_length ch =
     (if ch \<in> set ''v0pdbu'' then Some 4
      else if ch = CHR ''I'' then Some (4 * 3)
      else None)"

fun plain_length_loop :: "string \<Rightarrow> int \<Rightarrow> int" where
  "plain_length_loop [] l = l"
| "plain_length_loop (ch # sc) l =
     (if ch = CHR ''_'' then plain_length_loop sc l
      else case letter_length ch of None \<Rightarrow> -1 | Some n \<Rightarrow> plain_length_loop sc (l + n))"

definition get_plain_command_length :: "cmd_schema \<Rightarrow> int option" where
  "get_plain_command_length s = map_option (\<lambda>sc. plain_length_loop sc 0) (schema s)"

text \<open>\<open>gen_plain_command\<close>\<close>

definition put_letter :: "u32 \<Rightarrow> u32 \<Rightarrow> devid \<Rightarrow> u32 \<Rightarrow> u32 \<Rightarrow> char \<Rightarrow> mbuf \<Rightarrow> mbuf" where
  "put_letter pkt proto dev zero_one some ch m =
     (if ch = CHR ''v'' then put32 m (Hex32 proto False)
      else if ch = CHR ''0'' then put32 m (Hex32 0 False)
      else if ch = CHR ''p'' then put32 m (Hex32 pkt False)
      else if ch = CHR ''d'' then put32 m (Hex32 (dev_id dev) False)
      else if ch = CHR ''b'' then put32 m (Hex32 zero_one False)
      else if ch = CHR ''u'' then put32 m (Hex32 some False)
      else if ch = CHR ''I'' then put_idev3 m (HexIDev3 (Some dev) False)
      else m)"

fun gen_plain_loop :: "u32 \<Rightarrow> u32 \<Rightarrow> devid \<Rightarrow> u32 \<Rightarrow> u32 \<Rightarrow> string \<Rightarrow> mbuf \<Rightarrow> mbuf" where
  "gen_plain_loop pkt proto dev zero_one some [] m = m"
| "gen_plain_loop pkt proto dev zero_one some (ch # sc) m =
     gen_plain_loop pkt proto dev zero_one some sc
       (if ch = CHR ''_'' then m else put_letter pkt proto dev zero_one some ch m)"

definition gen_plain_command ::
    "cmd_schema \<Rightarrow> u32 \<Rightarrow> devid \<Rightarrow> u32 \<Rightarrow> u32 \<Rightarrow> bvector option" where
  "gen_plain_command s proto dev zero_one some =
     (case schema s of
        None \<Rightarrow> None
      | Some sc \<Rightarrow>
          let len = plain_length_loop sc 0
          in if len = -1 then Some []
             else Some (to_vector
                    (gen_plain_loop (pkt_type s) proto dev zero_one some sc (MBuf_size len False)) False))"

text \<open>
  \<open>is_match\<close>: the objects \<open>hex32\<close> and \<open>hdev3\<close> live across the loop. A letter either rejects the
  packet (\<open>None\<close>) or moves on.
\<close>

definition match_letter ::
    "u32 \<Rightarrow> u32 \<Rightarrow> devid \<Rightarrow> char \<Rightarrow> mbuf \<times> hex32 \<times> hexidev3 \<Rightarrow> (mbuf \<times> hex32 \<times> hexidev3) option" where
  "match_letter pkt proto dev ch = (\<lambda>(m, h, d).
     let (m', h') = get32 m h in
     if ch = CHR ''v'' then (if value32 h' \<noteq> proto then None else Some (m', h', d))
     else if ch = CHR ''0'' then (if value32 h' \<noteq> 0 then None else Some (m', h', d))
     else if ch = CHR ''p'' then (if pkt \<noteq> value32 h' then None else Some (m', h', d))
     else if ch = CHR ''d'' then (if value32 h' \<noteq> dev_id dev then None else Some (m', h', d))
     else if ch = CHR ''x'' then (if restOfSize m (-1) = size_max then None else Some (m, h, d))
     else if ch = CHR ''l'' then Some (mseek m' (sint (value32 h')), h', d)
     else if ch = CHR ''b'' then
       (if value32 h' \<noteq> 0 \<and> value32 h' \<noteq> 1 then None else Some (m', h', d))
     else if ch = CHR ''u'' then Some (m', h', d)
     else if ch = CHR ''I'' then (let (m'', d') = get_idev3 m d in Some (m'', h, d'))
     else None)"

fun is_match_loop ::
    "u32 \<Rightarrow> u32 \<Rightarrow> devid \<Rightarrow> string \<Rightarrow> mbuf \<times> hex32 \<times> hexidev3 \<Rightarrow> bool" where
  "is_match_loop pkt proto dev [] st = (\<not> wasBroken (fst st))"
| "is_match_loop pkt proto dev (ch # sc) st =
     (if ch = CHR ''_'' then is_match_loop pkt proto dev sc st
      else case match_letter pkt proto dev ch st of
             None \<Rightarrow> False
           | Some st' \<Rightarrow> is_match_loop pkt proto dev sc st')"

definition is_match :: "cmd_schema \<Rightarrow> bvector \<Rightarrow> u32 \<Rightarrow> devid \<Rightarrow> bool option" where
  "is_match s data proto dev =
     map_option (\<lambda>sc. is_match_loop (pkt_type s) proto dev sc
                        (MBuf_data data True, Hex32 0 False, HexIDev3 None False)) (schema s)"

section \<open>Generated packets\<close>

text \<open>What each letter of a plain schema stands for on the wire.\<close>

definition letter_bytes :: "u32 \<Rightarrow> u32 \<Rightarrow> devid \<Rightarrow> u32 \<Rightarrow> u32 \<Rightarrow> char \<Rightarrow> bvector" where
  "letter_bytes pkt proto dev zero_one some ch =
     (if ch = CHR ''v'' then be32 proto
      else if ch = CHR ''p'' then be32 pkt
      else if ch = CHR ''d'' then be32 (dev_id dev)
      else if ch = CHR ''b'' then be32 zero_one
      else if ch = CHR ''u'' then be32 some
      else if ch = CHR ''I'' then be_devid dev
      else be32 0)"

definition schema_bytes :: "u32 \<Rightarrow> u32 \<Rightarrow> devid \<Rightarrow> u32 \<Rightarrow> u32 \<Rightarrow> string \<Rightarrow> bvector" where
  "schema_bytes pkt proto dev zero_one some sc =
     concat (map (letter_bytes pkt proto dev zero_one some) (filter (\<lambda>ch. ch \<noteq> CHR ''_'') sc))"

fun plain_schema :: "string \<Rightarrow> bool" where
  "plain_schema [] = True"
| "plain_schema (ch # sc) =
     (if ch = CHR ''_'' then plain_schema sc
      else case letter_length ch of None \<Rightarrow> False | Some n \<Rightarrow> plain_schema sc)"

lemma schema_bytes_simps [simp]:
  "schema_bytes pkt proto dev z s [] = []"
  "schema_bytes pkt proto dev z s (ch # sc) =
     (if ch = CHR ''_'' then [] else letter_bytes pkt proto dev z s ch)
       @ schema_bytes pkt proto dev z s sc"
  by (simp_all add: schema_bytes_def)

lemma letter_cases:
  assumes "letter_length ch = Some n"
  obtains "ch = CHR ''v''" "n = 4" | "ch = CHR ''0''" "n = 4" | "ch = CHR ''p''" "n = 4"
    | "ch = CHR ''d''" "n = 4" | "ch = CHR ''b''" "n = 4" | "ch = CHR ''u''" "n = 4"
    | "ch = CHR ''I''" "n = 12"
  using assms by (auto simp: letter_length_def split: if_splits)

lemma letter_bytes_length:
  "letter_length ch = Some n \<Longrightarrow> int (length (letter_bytes pkt proto dev z s ch)) = n"
  by (erule letter_cases) (simp_all add: letter_bytes_def)

lemma put_letter_wbuf:
  "letter_length ch = Some n \<Longrightarrow> int (length out) + n \<le> int cap \<Longrightarrow> cap < 2 ^ 63 \<Longrightarrow>
   put_letter pkt proto dev z s ch (wbuf out cap) = wbuf (out @ letter_bytes pkt proto dev z s ch) cap"
  by (erule letter_cases) (simp_all add: letter_bytes_def put_letter_def put32_wbuf put_idev3_wbuf)

lemma plain_length_loop_plain:
  "plain_schema sc \<Longrightarrow>
   plain_length_loop sc l = l + int (length (schema_bytes pkt proto dev z s sc))"
proof (induction sc arbitrary: l)
  case Nil
  then show ?case by simp
next
  case (Cons ch sc)
  show ?case
  proof (cases "letter_length ch")
    case None
    with Cons show ?thesis by (simp split: if_splits)
  next
    case (Some n)
    with Cons.prems have "plain_schema sc" by (simp split: if_splits)
    with Cons.IH Some letter_bytes_length [OF Some, of pkt proto dev z s] show ?thesis by simp
  qed
qed

lemma plain_length_loop_not_plain: "\<not> plain_schema sc \<Longrightarrow> plain_length_loop sc l = -1"
proof (induction sc arbitrary: l)
  case (Cons ch sc)
  then show ?case by (cases "letter_length ch") (simp_all split: if_splits)
qed simp

lemma gen_plain_loop_wbuf:
  "plain_schema sc \<Longrightarrow> length out + length (schema_bytes pkt proto dev z s sc) \<le> cap \<Longrightarrow>
   cap < 2 ^ 63 \<Longrightarrow>
   gen_plain_loop pkt proto dev z s sc (wbuf out cap) =
     wbuf (out @ schema_bytes pkt proto dev z s sc) cap"
proof (induction sc arbitrary: out)
  case Nil
  then show ?case by simp
next
  case (Cons ch sc)
  show ?case
  proof (cases "ch = CHR ''_''")
    case True
    with Cons show ?thesis by simp
  next
    case False
    with Cons.prems obtain n where n: "letter_length ch = Some n"
      by (cases "letter_length ch") auto
    let ?l = "letter_bytes pkt proto dev z s ch"
    have "put_letter pkt proto dev z s ch (wbuf out cap) = wbuf (out @ ?l) cap"
      using Cons.prems False letter_bytes_length [OF n, of pkt proto dev z s]
      by (intro put_letter_wbuf [OF n]) simp_all
    with Cons False n show ?thesis by simp
  qed
qed

lemma gen_plain_command_bytes:
  assumes "schema s = Some sc" and "plain_schema sc"
    and "length (schema_bytes (pkt_type s) proto dev z some sc) < 2 ^ 63"
  shows "gen_plain_command s proto dev z some = Some (schema_bytes (pkt_type s) proto dev z some sc)"
proof -
  let ?bs = "schema_bytes (pkt_type s) proto dev z some sc"
  have len: "plain_length_loop sc 0 = int (length ?bs)"
    using plain_length_loop_plain [OF assms(2), of 0] by simp
  have "gen_plain_loop (pkt_type s) proto dev z some sc (wbuf [] (length ?bs)) =
      wbuf ?bs (length ?bs)"
    using gen_plain_loop_wbuf [OF assms(2), of "[]"] assms(3) by simp
  with len assms(1) show ?thesis
    by (simp add: gen_plain_command_def MBuf_size_wbuf wbuf_to_vector)
qed

end
