(* ===== verification/Errors.thy ===== *)
theory Errors
  imports Prelude
begin

text \<open>
  The error codes of \<open>client/xibridge_client.h\<close> and the table of explanations with its lookup
  \<open>Xibridge_client::xbc_get_err_expl\<close> (\<open>client/xibridge_client.cpp\<close>).
\<close>

definition ERR_NO_PROTOCOL :: u32 where "ERR_NO_PROTOCOL = 1"
definition ERR_NO_CONNECTION :: u32 where "ERR_NO_CONNECTION = 2"
definition ERR_SEND_TIMEOUT :: u32 where "ERR_SEND_TIMEOUT = 3"
definition ERR_NO_BINDY :: u32 where "ERR_NO_BINDY = 4"
definition ERR_SEND_DATA :: u32 where "ERR_SEND_DATA = 5"
definition ERR_RECV_TIMEOUT :: u32 where "ERR_RECV_TIMEOUT = 7"
definition ERR_ANOTHER_PROTOCOL :: u32 where "ERR_ANOTHER_PROTOCOL = 8"
definition ERR_NULLPTR_PARAM :: u32 where "ERR_NULLPTR_PARAM = 9"
definition ERR_SET_CONNECTION :: u32 where "ERR_SET_CONNECTION = 10"
definition ERR_DEVICE_OPEN :: u32 where "ERR_DEVICE_OPEN = 0xffbc"
definition ERR_DEVICE_LOST :: u32 where "ERR_DEVICE_LOST = 0xfffb"
definition ERR_DEVICE_ERR :: u32 where "ERR_DEVICE_ERR = 0xfffa"
definition ERR_DEVICE_ERR_VAL :: u32 where "ERR_DEVICE_ERR_VAL = 0xfff9"
definition ERR_PCKT_FMT :: u32 where "ERR_PCKT_FMT = 12"
definition ERR_PCKT_INV :: u32 where "ERR_PCKT_INV = 13"

lemmas err_defs =
  ERR_NO_PROTOCOL_def ERR_NO_CONNECTION_def ERR_SEND_TIMEOUT_def ERR_NO_BINDY_def
  ERR_SEND_DATA_def ERR_RECV_TIMEOUT_def ERR_ANOTHER_PROTOCOL_def ERR_NULLPTR_PARAM_def
  ERR_SET_CONNECTION_def ERR_DEVICE_OPEN_def ERR_DEVICE_LOST_def ERR_DEVICE_ERR_def
  ERR_DEVICE_ERR_VAL_def ERR_PCKT_FMT_def ERR_PCKT_INV_def

text \<open>\<open>_err_strings\<close>, closed by the entry with code 0.\<close>

definition err_strings :: "(u32 \<times> string) list" where
  "err_strings =
    [(ERR_NO_PROTOCOL, ''Protocol is either undefined or current operation is not available.''),
     (ERR_NO_CONNECTION, ''Connection is not created or broken.''),
     (ERR_SEND_TIMEOUT, ''Send data timeout.''),
     (ERR_NO_BINDY, ''Network component (xibridge-bindy) has not been initialized properly.''),
     (ERR_SEND_DATA, ''Send data error.''),
     (ERR_NULLPTR_PARAM, ''Null pointer output parameter.''),
     (ERR_SET_CONNECTION, ''Network connection setting (bindy) error.''),
     (ERR_RECV_TIMEOUT, ''Receive data timeout.''),
     (ERR_ANOTHER_PROTOCOL, ''Another protocol is to be tested [internal flag].''),
     (ERR_DEVICE_LOST, ''Server tells that the device connected is lost.''),
     (ERR_DEVICE_OPEN, ''Server tells that the device cannot be opened.''),
     (ERR_DEVICE_ERR, ''Server tells that the device does not understand the command.''),
     (ERR_DEVICE_ERR_VAL, ''Server tells that the device does not understand some command parameter(s).''),
     (ERR_PCKT_FMT, ''Invalid data format.''),
     (ERR_PCKT_INV, ''Invalid data packet.''),
     (0, [])]"

text \<open>The loop stops at the closing entry; \<open>nullptr\<close> is \<open>None\<close>.\<close>

fun err_expl_loop :: "(u32 \<times> string) list \<Rightarrow> u32 \<Rightarrow> string option" where
  "err_expl_loop [] err_no = None"
| "err_expl_loop ((code, text) # es) err_no =
     (if code = 0 then None
      else if code = err_no then Some text
      else err_expl_loop es err_no)"

definition xbc_get_err_expl :: "u32 \<Rightarrow> string option" where
  "xbc_get_err_expl err_no = err_expl_loop err_strings err_no"

text \<open>The error codes the library can return.\<close>

definition known_errors :: "u32 set" where
  "known_errors = set (filter (\<lambda>c. c \<noteq> 0) (map fst err_strings))"

lemma err_expl_loop_map_of:
  "0 \<notin> fst ` set es \<Longrightarrow> err_expl_loop (es @ [(0, t)]) c = map_of es c"
  by (induction es) auto

lemma err_strings_butlast: "err_strings = butlast err_strings @ [(0, [])]"
  by (simp add: err_strings_def)

lemma butlast_err_strings_keys: "set (map fst (butlast err_strings)) = known_errors"
  by (auto simp: err_strings_def known_errors_def err_defs)

lemma zero_not_known: "0 \<notin> known_errors"
  by (simp add: known_errors_def)

lemma xbc_get_err_expl_map_of: "xbc_get_err_expl c = map_of (butlast err_strings) c"
proof -
  have "0 \<notin> fst ` set (butlast err_strings)"
    using butlast_err_strings_keys zero_not_known by simp
  then have "err_expl_loop (butlast err_strings @ [(0, [])]) c = map_of (butlast err_strings) c"
    by (rule err_expl_loop_map_of)
  then show ?thesis by (simp add: xbc_get_err_expl_def flip: err_strings_butlast)
qed

text \<open>
  An error code has an explanation exactly when it is one of the library's error codes; code 0
  (success) and every other number have none.
\<close>

theorem err_expl_defined: "xbc_get_err_expl c \<noteq> None \<longleftrightarrow> c \<in> known_errors"
proof -
  have "xbc_get_err_expl c \<noteq> None \<longleftrightarrow> c \<in> fst ` set (butlast err_strings)"
    by (simp add: xbc_get_err_expl_map_of map_of_eq_None_iff)
  then show ?thesis using butlast_err_strings_keys by simp
qed

end
