(* ===== verification/AProtocol.thy ===== *)
theory AProtocol
  imports Cmd_Schema Errors
begin

text \<open>
  What the three protocol classes share (\<open>AProtocol\<close> of \<open>common/protocols.h\<close> and
  \<open>common/protocols.cpp\<close>): the object state, the two static readers of a packet's head, and the
  packet layouts in which the properties are stated.
\<close>

text \<open>
  The object: side, the result of the last response, and the error cell behind \<open>_perror\<close>.
  \<open>get_spec_data\<close> returns its verdict with the new object, the buffer and the two output vectors.
\<close>

record aproto =
  is_server :: bool
  res_err :: u32
  perror :: u32

type_synonym spec_out = "bool \<times> aproto \<times> mbuf \<times> bvector \<times> bvector"

definition get_result_error :: "aproto \<Rightarrow> u32" where
  "get_result_error p = res_err p"

definition get_version_of_cmd :: "bvector \<Rightarrow> u32" where
  "get_version_of_cmd cmd = (if length cmd > 3 then ucast (cmd ! 3) else 0)"

definition get_pckt_of_cmd :: "bvector \<Rightarrow> u32" where
  "get_pckt_of_cmd cmd =
     (let (b, x) = get32 (MBuf_data cmd True) (Hex32 0 False);
          (b, p) = get32 b (Hex32 0 False)
      in value32 p)"

section \<open>Packet heads\<close>

text \<open>The 24-byte head of versions 1 and 2 and the 32-byte head of version 3.\<close>

definition head12 :: "u32 \<Rightarrow> u32 \<Rightarrow> u32 \<Rightarrow> bvector" where
  "head12 ver pckt serial = be32 ver @ be32 pckt @ be32 0 @ be32 serial @ be32 0 @ be32 0"

definition head3 :: "u32 \<Rightarrow> u32 \<Rightarrow> devid \<Rightarrow> bvector" where
  "head3 pckt tmout d = be32 3 @ be32 pckt @ be32 tmout @ be_devid d @ be32 0 @ be32 0"

lemma length_head [simp, codec_simps]:
  "length (head12 ver pckt serial) = 24" "length (head3 pckt tmout d) = 32"
  by (simp_all add: head12_def head3_def)

lemma nat_int_add_len [simp]: "nat (64 + int n) = 64 + n"
  by simp

text \<open>The low byte of the version is the fourth byte of a packet.\<close>

lemma get_version_of_cmd_be [codec_simps]:
  "get_version_of_cmd (be32 v @ bs) = v AND 0xFF"
proof -
  have "v AND 0xFF = take_bit 8 v" by (simp add: take_bit_eq_mask mask_eq_exp_minus_1)
  moreover have "(ucast (ucast v :: u8) :: u32) = take_bit 8 v"
    by (rule bit_word_eqI) (auto simp: bit_simps)
  ultimately show ?thesis by (simp add: get_version_of_cmd_def be32_def)
qed

lemma get_pckt_of_cmd_be [codec_simps]:
  "length bs < 2 ^ 31 - 2048 \<Longrightarrow> get_pckt_of_cmd (be32 v @ be32 p @ bs) = p"
  by (simp add: get_pckt_of_cmd_def MBuf_data_rbuf get32_be)

end
