(* ===== verification/Protocol1.thy ===== *)
theory Protocol1
  imports AProtocol
begin

text \<open>
  Protocol version 1 (class \<open>Protocol1\<close>, the ximc server's protocol): the packet types, the
  schemas, the client's requests and the parsing of both directions.
\<close>

section \<open>Packet types and schemas\<close>

definition pkt1_raw :: u32 where [simp]: "pkt1_raw = 0x0"
definition pkt1_open_req :: u32 where [simp]: "pkt1_open_req = 0x1"
definition pkt1_open_resp :: u32 where [simp]: "pkt1_open_resp = 0xFF"
definition pkt1_close_req :: u32 where [simp]: "pkt1_close_req = 2"
definition pkt1_close_resp :: u32 where [simp]: "pkt1_close_resp = 0xFE"
definition pkt1_enum_req :: u32 where [simp]: "pkt1_enum_req = 0x3"
definition pkt1_enum_resp :: u32 where [simp]: "pkt1_enum_resp = 0xFD"
definition pkt1_error_ntf :: u32 where [simp]: "pkt1_error_ntf = 0x4"

definition Protocol1_version :: u32 where
  "Protocol1_version = 1"

definition Protocol1_cmd_schemas :: "cmd_schema list" where
  "Protocol1_cmd_schemas =
    [\<lparr>pkt_type = pkt1_raw, schema = Some ''v_p_0_d_0_0_x''\<rparr>,
     \<lparr>pkt_type = pkt1_open_req, schema = Some ''v_p_0_d_0_0''\<rparr>,
     \<lparr>pkt_type = pkt1_open_resp, schema = Some ''v_p_0_d_0_0_b''\<rparr>,
     \<lparr>pkt_type = pkt1_close_req, schema = Some ''v_p_0_d_0_0''\<rparr>,
     \<lparr>pkt_type = pkt1_close_resp, schema = Some ''v_p_0_d_0_0_b''\<rparr>,
     \<lparr>pkt_type = pkt1_enum_req, schema = Some ''v_p_0_0_0_0_0''\<rparr>,
     \<lparr>pkt_type = pkt1_enum_resp, schema = Some ''v_p_0_u_x''\<rparr>,
     \<lparr>pkt_type = pkt1_error_ntf, schema = Some ''v_p_0_d_0_0''\<rparr>,
     \<lparr>pkt_type = pkt1_raw, schema = None\<rparr>]"

section \<open>Requests\<close>

text \<open>The private \<open>create_client_request\<close>; \<open>data\<close> may be \<open>nullptr\<close>.\<close>

definition Protocol1_create_client_request :: "u32 \<Rightarrow> u32 \<Rightarrow> u32 \<Rightarrow> bvector option \<Rightarrow> bvector" where
  "Protocol1_create_client_request pckt serial tmout data =
     (let m = MBuf_size (64 + (case data of None \<Rightarrow> 0 | Some d \<Rightarrow> c_int (int (length d)))) False;
          m = put32s m [Protocol1_version, pckt, 0, serial, 0, 0];
          m = (if pckt = pkt1_raw then (case data of None \<Rightarrow> m | Some d \<Rightarrow> fst (memwrite m d))
               else if pckt = pkt1_enum_req then put32 m (Hex32 0 False)
               else m)
      in to_vector m False)"

definition Protocol1_create_open_request :: "devid \<Rightarrow> u32 \<Rightarrow> bvector" where
  "Protocol1_create_open_request devid tmout =
     Protocol1_create_client_request pkt1_open_req (dev_id devid) 0 None"

definition Protocol1_create_close_request :: "devid \<Rightarrow> u32 \<Rightarrow> bvector" where
  "Protocol1_create_close_request devid tmout =
     Protocol1_create_client_request pkt1_close_req (dev_id devid) 0 None"

definition Protocol1_create_enum_request :: "u32 \<Rightarrow> bvector" where
  "Protocol1_create_enum_request tmout =
     Protocol1_create_client_request pkt1_enum_req (dev_id (devid_of_id 0)) 0 None"

definition Protocol1_create_cmd_request :: "devid \<Rightarrow> u32 \<Rightarrow> bvector option \<Rightarrow> u32 \<Rightarrow> bvector" where
  "Protocol1_create_cmd_request devid tmout data resp_length =
     Protocol1_create_client_request pkt1_raw (dev_id devid) 0 data"

section \<open>Parsing\<close>

text \<open>
  The enumeration loop: a little-endian device number, then a seek over the rest of the 180-byte
  record. \<open>devnum\<close> is declared outside the loop and keeps its value when a read fails.
\<close>

fun Protocol1_enum_loop :: "nat \<Rightarrow> mbuf \<Rightarrow> hex32 \<Rightarrow> bvector \<Rightarrow> mbuf \<times> bvector" where
  "Protocol1_enum_loop 0 m devnum data = (m, data)"
| "Protocol1_enum_loop (Suc i) m devnum data =
     (let (m, devnum) = get32 m devnum;
          data = add_dev_id_bvector_net_order data (devid_of_id (value32 devnum));
          m = mseek m (180 - 4)
      in Protocol1_enum_loop i m devnum data)"

definition Protocol1_get_spec_data ::
    "aproto \<Rightarrow> mbuf \<Rightarrow> bvector \<Rightarrow> bvector \<Rightarrow> u32 \<Rightarrow> spec_out" where
  "Protocol1_get_spec_data p m res_data data pckt =
     (let p = p\<lparr>res_err := 0\<rparr> in
      if is_server p then
        if pckt = pkt1_raw then
          let m = mseek m (8 + 4); len = restOfSize m (-1) in
          if wasBroken m \<or> len = size_max
          then (False, p\<lparr>perror := ERR_PCKT_FMT\<rparr>, m, res_data, data)
          else (True, p, m, res_data, take len (cur_data m))
        else if pckt = pkt1_open_req then (True, p, m, res_data, data)
        else if pckt = pkt1_close_req then (True, p, m, res_data, data)
        else if pckt = pkt1_enum_req then (True, p, m, res_data, data)
        else (False, p\<lparr>perror := ERR_PCKT_INV\<rparr>, m, res_data, data)
      else
        if pckt = pkt1_error_ntf then (False, p\<lparr>perror := ERR_DEVICE_LOST\<rparr>, m, res_data, data)
        else if pckt = pkt1_raw then
          let m = mseek m 8; len = restOfSize m (-1) in
          if wasBroken m \<or> len = size_max
          then (False, p\<lparr>perror := ERR_PCKT_FMT\<rparr>, m, res_data, data)
          else (True, p, m, res_data, to_vector m True)
        else if pckt = pkt1_open_resp \<or> pckt = pkt1_close_resp then
          let m = mseek m 8; len = restOfSize m (-1) in
          if len \<noteq> 4 then (False, p\<lparr>perror := ERR_PCKT_FMT\<rparr>, m, res_data, data)
          else let (m, r) = get32 m (Hex32 0 False)
               in (True, p\<lparr>res_err := value32 r\<rparr>, m, res_data, data)
        else if pckt = pkt1_enum_resp then
          let m = mseek m (-4);
              (m, count) = get32 m (Hex32 0 False);
              p = p\<lparr>res_err := value32 count\<rparr>;
              (m, data) = Protocol1_enum_loop (nat (sint (value32 count))) m (Hex32 0 True) data;
              p = (if wasBroken m then p\<lparr>perror := ERR_PCKT_FMT\<rparr> else p)
          in (\<not> wasBroken m, p, m, res_data, data)
        else (False, p\<lparr>perror := ERR_PCKT_INV\<rparr>, m, res_data, data))"

definition Protocol1_translate_response :: "aproto \<Rightarrow> u32 \<Rightarrow> bvector \<Rightarrow> bool" where
  "Protocol1_translate_response p pckt res_data \<longleftrightarrow> res_err p = 1"

section \<open>Lemmas\<close>

lemma Protocol1_request_bytes [packet_defs]:
  "Protocol1_create_open_request d t = head12 1 1 (dev_id d)"
  "Protocol1_create_close_request d t = head12 1 2 (dev_id d)"
  "Protocol1_create_enum_request t = head12 1 3 0 @ be32 0"
  by (simp_all add: Protocol1_create_open_request_def Protocol1_create_close_request_def
      Protocol1_create_enum_request_def Protocol1_create_client_request_def Protocol1_version_def
      head12_def buf_simps)

lemma Protocol1_cmd_request_bytes [packet_defs]:
  "short data \<Longrightarrow> Protocol1_create_cmd_request d t (Some data) n = head12 1 0 (dev_id d) @ data"
  "Protocol1_create_cmd_request d t None n = head12 1 0 (dev_id d)"
  by (simp_all add: Protocol1_create_cmd_request_def Protocol1_create_client_request_def
      Protocol1_version_def head12_def buf_simps)

end
