(* ===== verification/Protocol2.thy ===== *)
theory Protocol2
  imports AProtocol
begin

text \<open>
  Protocol version 2 (class \<open>Protocol2\<close>, the urpc server's protocol): packet types, schemas, the
  client's requests, the server's responses and the parsing of both directions. A result \<open>None\<close>
  stands for a step with no defined behaviour: a null pointer dereferenced, or bytes read past the
  end of an allocation.
\<close>

section \<open>Packet types and schemas\<close>

definition pkt2_cmd_req :: u32 where [simp]: "pkt2_cmd_req = 0x3"
definition pkt2_cmd_resp :: u32 where [simp]: "pkt2_cmd_resp = 0xFD"
definition pkt2_open_req :: u32 where [simp]: "pkt2_open_req = 0x1"
definition pkt2_open_resp :: u32 where [simp]: "pkt2_open_resp = 0xFF"
definition pkt2_close_req :: u32 where [simp]: "pkt2_close_req = 2"
definition pkt2_close_resp :: u32 where [simp]: "pkt2_close_resp = 0xFE"

definition Protocol2_version :: u32 where
  "Protocol2_version = 2"

definition URPC_CID_SIZE :: nat where
  "URPC_CID_SIZE = 4"

definition Protocol2_cmd_schemas :: "cmd_schema list" where
  "Protocol2_cmd_schemas =
    [\<lparr>pkt_type = pkt2_cmd_req, schema = Some ''v_p_0_d_0_0_x''\<rparr>,
     \<lparr>pkt_type = pkt2_cmd_resp, schema = Some ''v_p_0_d_0_0_x''\<rparr>,
     \<lparr>pkt_type = pkt2_open_req, schema = Some ''v_p_0_d_0_0''\<rparr>,
     \<lparr>pkt_type = pkt2_open_resp, schema = Some ''v_p_0_d_0_0_b''\<rparr>,
     \<lparr>pkt_type = pkt2_close_req, schema = Some ''v_p_0_d_0_0''\<rparr>,
     \<lparr>pkt_type = pkt2_close_resp, schema = Some ''v_p_0_d_0_0_b''\<rparr>,
     \<lparr>pkt_type = pkt2_cmd_req, schema = None\<rparr>]"

section \<open>Requests and responses\<close>

definition Protocol2_create_client_request :: "u32 \<Rightarrow> u32 \<Rightarrow> u32 \<Rightarrow> bvector option \<Rightarrow> bvector" where
  "Protocol2_create_client_request pckt serial tmout data =
     (let m = MBuf_size (64 + (case data of None \<Rightarrow> 0 | Some d \<Rightarrow> c_int (int (length d)))) False;
          m = put32s m [Protocol2_version, pckt, 0, serial, 0, 0];
          m = (if pckt = pkt2_cmd_req then (case data of None \<Rightarrow> m | Some d \<Rightarrow> fst (memwrite m d))
               else m)
      in to_vector m False)"

definition Protocol2_create_open_request :: "devid \<Rightarrow> u32 \<Rightarrow> bvector" where
  "Protocol2_create_open_request devid tmout =
     Protocol2_create_client_request pkt2_open_req (dev_id devid) 0 None"

definition Protocol2_create_close_request :: "devid \<Rightarrow> u32 \<Rightarrow> bvector" where
  "Protocol2_create_close_request devid tmout =
     Protocol2_create_client_request pkt2_close_req (dev_id devid) 0 None"

text \<open>
  \<open>data\<close> is dereferenced before it is compared with \<open>nullptr\<close>. The response length goes between
  the command identifier and the rest, less the four bytes of the answer code.
\<close>

definition Protocol2_create_cmd_request ::
    "devid \<Rightarrow> u32 \<Rightarrow> bvector option \<Rightarrow> u32 \<Rightarrow> bvector option" where
  "Protocol2_create_cmd_request devid tmout data resp_length =
     (case data of
        None \<Rightarrow> None
      | Some d \<Rightarrow>
          let data_and_length =
                (if length d \<ge> URPC_CID_SIZE
                 then add_uint32_2_bvector (take URPC_CID_SIZE d) (resp_length - 4)
                        @ drop URPC_CID_SIZE d
                 else [])
          in Some (Protocol2_create_client_request pkt2_cmd_req (dev_id devid) 0
                     (Some data_and_length)))"

definition Protocol2_create_server_response ::
    "u32 \<Rightarrow> u32 \<Rightarrow> devid \<Rightarrow> bvector option \<Rightarrow> bvector" where
  "Protocol2_create_server_response pckt val devid payload =
     (let m = MBuf_size (64 + (case payload of None \<Rightarrow> 0 | Some d \<Rightarrow> c_int (int (length d)))) False;
          m = put32s m [Protocol2_version, pckt, 0, dev_id devid, 0, 0, val];
          m = (if pckt = pkt2_cmd_resp then (case payload of None \<Rightarrow> m | Some d \<Rightarrow> fst (memwrite m d))
               else m)
      in to_vector m False)"

definition Protocol2_create_cmd_response :: "u32 \<Rightarrow> devid \<Rightarrow> bvector \<Rightarrow> bvector" where
  "Protocol2_create_cmd_response val devid data =
     Protocol2_create_server_response pkt2_cmd_resp val devid (Some data)"

definition Protocol2_create_open_response :: "devid \<Rightarrow> u32 \<Rightarrow> bvector" where
  "Protocol2_create_open_response devid bool_val =
     Protocol2_create_server_response pkt2_open_resp bool_val devid None"

definition Protocol2_create_close_response :: "devid \<Rightarrow> u32 \<Rightarrow> bvector" where
  "Protocol2_create_close_response devid bool_val =
     Protocol2_create_server_response pkt2_close_resp bool_val devid None"

section \<open>Parsing\<close>

text \<open>
  The server's command branch copies four bytes to \<open>cid\<close> before anything has checked that there
  are four left: with fewer it reads past the buffer (\<open>None\<close>).
\<close>

definition Protocol2_get_spec_data ::
    "aproto \<Rightarrow> mbuf \<Rightarrow> bvector \<Rightarrow> bvector \<Rightarrow> u32 \<Rightarrow> spec_out option" where
  "Protocol2_get_spec_data p m cid data pckt =
     (let p = p\<lparr>res_err := 0\<rparr> in
      if is_server p then
        if pckt = pkt2_cmd_req then
          let m = mseek m 8; len = restOfSize m (-1) in
          if wasBroken m \<or> len = size_max
          then Some (False, p\<lparr>perror := ERR_PCKT_FMT\<rparr>, m, cid, data)
          else if len < URPC_CID_SIZE then None
          else
            let cid = take URPC_CID_SIZE (cur_data m);
                m = mseek m (int URPC_CID_SIZE);
                (m, r) = get32 m (Hex32 0 False);
                len = restOfSize m (-1);
                data = (if len > 0 then take len (cur_data m) else data)
            in Some (\<not> wasBroken m, p\<lparr>res_err := value32 r\<rparr>, m, cid, data)
        else if pckt = pkt2_open_req then Some (True, p, m, cid, data)
        else if pckt = pkt2_close_req then Some (True, p, m, cid, data)
        else Some (False, p\<lparr>perror := ERR_PCKT_INV\<rparr>, m, cid, data)
      else
        if pckt = pkt2_cmd_resp then
          let m = mseek m 8; len = restOfSize m (-1) in
          if wasBroken m \<or> len = size_max
          then Some (False, p\<lparr>perror := ERR_PCKT_FMT\<rparr>, m, cid, data)
          else Some (True, p, m, cid, to_vector m True)
        else if pckt = pkt2_open_resp \<or> pckt = pkt2_close_resp then
          let m = mseek m 8; len = restOfSize m (-1) in
          if len \<noteq> 4 then Some (False, p\<lparr>perror := ERR_PCKT_FMT\<rparr>, m, cid, data)
          else let (m, r) = get32 m (Hex32 0 False)
               in Some (True, p\<lparr>res_err := value32 r\<rparr>, m, cid, data)
        else Some (False, p\<lparr>perror := ERR_PCKT_INV\<rparr>, m, cid, data))"

text \<open>
  \<open>get_data_from_request\<close>: verdict, object, \<open>cid\<close>, request data, device and response length. On
  the early return the output parameters keep what has been assigned so far.
\<close>

record p2_request =
  p2_ok :: bool
  p2_proto :: aproto
  p2_cid :: bvector
  p2_data :: bvector
  p2_dev :: devid
  p2_resp_len :: u32

definition Protocol2_get_data_from_request ::
    "aproto \<Rightarrow> mbuf \<Rightarrow> bvector \<Rightarrow> p2_request option" where
  "Protocol2_get_data_from_request p cmd cid =
     (let p = p\<lparr>res_err := 0\<rparr>;
          (cmd, skip_prt) = get32 cmd (Hex32 0 False);
          (cmd, pckt) = get32 cmd (Hex32 0 False);
          (cmd, skip_tout) = get32 cmd (Hex32 0 False);
          (cmd, serial) = get32 cmd (Hex32 0 False);
          dev = devid_of_id (value32 serial)
      in case Protocol2_get_spec_data p cmd cid [] (value32 pckt) of
           None \<Rightarrow> None
         | Some (ok, p, cmd, cid, req_data) \<Rightarrow>
             Some (if \<not> ok then \<lparr>p2_ok = False, p2_proto = p, p2_cid = cid, p2_data = req_data,
                                 p2_dev = dev, p2_resp_len = 0\<rparr>
                   else if wasBroken cmd then
                     \<lparr>p2_ok = False, p2_proto = p\<lparr>perror := ERR_PCKT_FMT\<rparr>, p2_cid = cid,
                      p2_data = req_data, p2_dev = dev, p2_resp_len = res_err p\<rparr>
                   else \<lparr>p2_ok = True, p2_proto = p, p2_cid = cid, p2_data = req_data,
                         p2_dev = dev, p2_resp_len = res_err p\<rparr>))"

definition Protocol2_translate_response :: "aproto \<Rightarrow> u32 \<Rightarrow> bvector \<Rightarrow> bool" where
  "Protocol2_translate_response p pckt res_data \<longleftrightarrow> res_err p = 1"

section \<open>Lemmas\<close>

lemma Protocol2_request_bytes [packet_defs]:
  "Protocol2_create_open_request d t = head12 2 1 (dev_id d)"
  "Protocol2_create_close_request d t = head12 2 2 (dev_id d)"
  by (simp_all add: Protocol2_create_open_request_def Protocol2_create_close_request_def
      Protocol2_create_client_request_def Protocol2_version_def head12_def buf_simps)

lemma Protocol2_cmd_request_bytes [packet_defs]:
  "short cid \<Longrightarrow> length cid = 4 \<Longrightarrow> short data \<Longrightarrow>
   Protocol2_create_cmd_request d t (Some (cid @ data)) n =
     Some (head12 2 3 (dev_id d) @ cid @ be32 (n - 4) @ data)"
  by (simp add: Protocol2_create_cmd_request_def Protocol2_create_client_request_def
      Protocol2_version_def head12_def buf_simps codec_simps URPC_CID_SIZE_def)

lemma Protocol2_cmd_request_short:
  "length data < 4 \<Longrightarrow> Protocol2_create_cmd_request d t (Some data) n = Some (head12 2 3 (dev_id d))"
  by (simp add: Protocol2_create_cmd_request_def Protocol2_create_client_request_def
      Protocol2_version_def head12_def buf_simps URPC_CID_SIZE_def)

lemma Protocol2_response_bytes [packet_defs]:
  "short data \<Longrightarrow> Protocol2_create_cmd_response v d data = head12 2 0xFD (dev_id d) @ be32 v @ data"
  "Protocol2_create_open_response d v = head12 2 0xFF (dev_id d) @ be32 v"
  "Protocol2_create_close_response d v = head12 2 0xFE (dev_id d) @ be32 v"
  by (simp_all add: Protocol2_create_cmd_response_def Protocol2_create_open_response_def
      Protocol2_create_close_response_def Protocol2_create_server_response_def
      Protocol2_version_def head12_def buf_simps)

end
