(* ===== verification/Protocol3.thy ===== *)
theory Protocol3
  imports AProtocol
begin

text \<open>
  Protocol version 3 (class \<open>Protocol3\<close>, the xibridge server's protocol): packet types, schemas,
  the client's requests, the server's responses and the parsing of both directions. Devices are
  named by the 12-byte identifier.
\<close>

section \<open>Packet types and schemas\<close>

definition pkt3_ver_req :: u32 where [simp]: "pkt3_ver_req = 0x5"
definition pkt3_ver_resp :: u32 where [simp]: "pkt3_ver_resp = 0xFB"
definition pkt3_cmd_req :: u32 where [simp]: "pkt3_cmd_req = 0x3"
definition pkt3_cmd_resp :: u32 where [simp]: "pkt3_cmd_resp = 0xFD"
definition pkt3_open_req :: u32 where [simp]: "pkt3_open_req = 0x1"
definition pkt3_open_resp :: u32 where [simp]: "pkt3_open_resp = 0xFF"
definition pkt3_close_req :: u32 where [simp]: "pkt3_close_req = 2"
definition pkt3_close_resp :: u32 where [simp]: "pkt3_close_resp = 0xFE"
definition pkt3_enum_req :: u32 where [simp]: "pkt3_enum_req = 0x4"
definition pkt3_enum_resp :: u32 where [simp]: "pkt3_enum_resp = 0xFC"
definition pkt3_error_resp :: u32 where [simp]: "pkt3_error_resp = 0xFA"

definition Protocol3_version :: u32 where
  "Protocol3_version = 3"

definition Protocol3_cmd_schemas :: "cmd_schema list" where
  "Protocol3_cmd_schemas =
    [\<lparr>pkt_type = pkt3_ver_req, schema = Some ''v_p_0_0_0_0_0_0''\<rparr>,
     \<lparr>pkt_type = pkt3_ver_resp, schema = Some ''v_p_0_0_0_0_0_0_u''\<rparr>,
     \<lparr>pkt_type = pkt3_cmd_req, schema = Some ''v_p_0_I_0_0_l_u''\<rparr>,
     \<lparr>pkt_type = pkt3_cmd_resp, schema = Some ''v_p_0_I_0_0_l''\<rparr>,
     \<lparr>pkt_type = pkt3_open_req, schema = Some ''v_p_0_I_0_0''\<rparr>,
     \<lparr>pkt_type = pkt3_open_resp, schema = Some ''v_p_0_I_0_0_b''\<rparr>,
     \<lparr>pkt_type = pkt3_close_req, schema = Some ''v_p_0_I_0_0''\<rparr>,
     \<lparr>pkt_type = pkt3_close_resp, schema = Some ''v_p_0_I_0_0_b''\<rparr>,
     \<lparr>pkt_type = pkt3_enum_req, schema = Some ''v_p_0_0_0_0_0_0''\<rparr>,
     \<lparr>pkt_type = pkt3_enum_resp, schema = Some ''v_p_0_0_0_0_0_0_x''\<rparr>,
     \<lparr>pkt_type = pkt3_error_resp, schema = Some ''v_p_0_I_0_0_u''\<rparr>,
     \<lparr>pkt_type = pkt3_error_resp, schema = None\<rparr>]"

section \<open>Requests and responses\<close>

definition Protocol3_create_client_request :: "u32 \<Rightarrow> devid \<Rightarrow> u32 \<Rightarrow> bvector option \<Rightarrow> bvector" where
  "Protocol3_create_client_request pckt devid tmout data =
     (let m = MBuf_size (64 + (case data of None \<Rightarrow> 0 | Some d \<Rightarrow> c_int (int (length d)))) False;
          m = put32s m [Protocol3_version, pckt, tmout];
          idev = HexIDev3 (Some devid) False;
          m = (if pckt = pkt3_close_req \<or> pckt = pkt3_open_req \<or> pckt = pkt3_cmd_req then
                 let m = put32s (put_idev3 m idev) [0, 0] in
                 if pckt = pkt3_cmd_req
                 then (case data of None \<Rightarrow> m | Some d \<Rightarrow> fst (memwrite m d))
                 else m
               else put32s m [0, 0, 0, 0, 0])
      in to_vector m False)"

definition Protocol3_create_open_request :: "devid \<Rightarrow> u32 \<Rightarrow> bvector" where
  "Protocol3_create_open_request devid tmout =
     Protocol3_create_client_request pkt3_open_req devid 0 None"

definition Protocol3_create_close_request :: "devid \<Rightarrow> u32 \<Rightarrow> bvector" where
  "Protocol3_create_close_request devid tmout =
     Protocol3_create_client_request pkt3_close_req devid 0 None"

definition Protocol3_create_version_request :: "u32 \<Rightarrow> bvector" where
  "Protocol3_create_version_request tmout =
     Protocol3_create_client_request pkt3_ver_req (devid_of_id 0) 0 None"

definition Protocol3_create_enum_request :: "u32 \<Rightarrow> bvector" where
  "Protocol3_create_enum_request tmout =
     Protocol3_create_client_request pkt3_enum_req (devid_of_id 0) 0 None"

definition Protocol3_create_cmd_request :: "devid \<Rightarrow> u32 \<Rightarrow> bvector option \<Rightarrow> u32 \<Rightarrow> bvector" where
  "Protocol3_create_cmd_request devid tmout data resp_length =
     (let data_and_length =
            add_uint32_2_bvector [] (case data of None \<Rightarrow> 0 | Some d \<Rightarrow> word_of_nat (length d));
          data_and_length = data_and_length @ (case data of None \<Rightarrow> [] | Some d \<Rightarrow> d);
          data_and_length = add_uint32_2_bvector data_and_length resp_length
      in Protocol3_create_client_request pkt3_cmd_req devid 0 (Some data_and_length))"

text \<open>\<open>sizeof (DevId)\<close>: the packed identifier.\<close>

definition sizeof_DevId :: nat where
  "sizeof_DevId = 12"

definition Protocol3_create_server_response ::
    "u32 \<Rightarrow> u32 \<Rightarrow> devid option \<Rightarrow> bvector option \<Rightarrow> bvector" where
  "Protocol3_create_server_response pckt val pdevid payload =
     (let m = MBuf_size (64 + (case payload of None \<Rightarrow> 0 | Some d \<Rightarrow> c_int (int (length d)))) False;
          m = put32s m [Protocol3_version, pckt, 0];
          m = put32s (put_idev3 m (HexIDev3 pdevid False)) [0, 0];
          m = (if pckt = pkt3_close_resp \<or> pckt = pkt3_open_resp then put32 m (Hex32 val False)
               else if pckt = pkt3_cmd_resp then
                 let m = put32 m (Hex32 (case payload of None \<Rightarrow> 0 | Some d \<Rightarrow> word_of_nat (length d)) False)
                 in (case payload of None \<Rightarrow> m | Some d \<Rightarrow> fst (memwrite m d))
               else if pckt = pkt3_enum_resp then
                 let m = put32 m (Hex32 (case payload of None \<Rightarrow> 0
                                           | Some d \<Rightarrow> word_of_nat (length d div sizeof_DevId)) False);
                     m = (case payload of None \<Rightarrow> m | Some d \<Rightarrow> fst (memwrite m d))
                 in put32 m (Hex32 0 False)
               else if pckt = pkt3_ver_resp then put32 m (Hex32 Protocol3_version False)
               else if pckt = pkt3_error_resp then put32 m (Hex32 val False)
               else m)
      in to_vector m False)"

definition Protocol3_create_cmd_response :: "devid \<Rightarrow> bvector \<Rightarrow> bvector" where
  "Protocol3_create_cmd_response devid data =
     Protocol3_create_server_response pkt3_cmd_resp 0 (Some devid) (Some data)"

definition Protocol3_create_open_response :: "devid \<Rightarrow> u32 \<Rightarrow> bvector" where
  "Protocol3_create_open_response devid bool_val =
     Protocol3_create_server_response pkt3_open_resp bool_val (Some devid) None"

definition Protocol3_create_close_response :: "devid \<Rightarrow> u32 \<Rightarrow> bvector" where
  "Protocol3_create_close_response devid bool_val =
     Protocol3_create_server_response pkt3_close_resp bool_val (Some devid) None"

definition Protocol3_create_version_response :: bvector where
  "Protocol3_create_version_response = Protocol3_create_server_response pkt3_ver_resp 0 None None"

definition Protocol3_create_error_response :: "u32 \<Rightarrow> bvector" where
  "Protocol3_create_error_response val =
     Protocol3_create_server_response pkt3_error_resp val None None"

definition Protocol3_create_enum_response :: "devid list \<Rightarrow> bvector" where
  "Protocol3_create_enum_response vdevs =
     (if length vdevs = 0 then Protocol3_create_server_response pkt3_enum_resp 0 None None
      else
        let enumbuf = MBuf_size (c_int (int (length vdevs * sizeof_DevId))) False;
            enumbuf = foldl (\<lambda>m v. put_idev3 m (HexIDev3 (Some v) False)) enumbuf vdevs;
            enumvect = to_vector enumbuf False
        in Protocol3_create_server_response pkt3_enum_resp 0 None (Some enumvect))"

section \<open>Parsing\<close>

text \<open>The identifier object \<open>dev\<close> is declared outside the loop.\<close>

fun Protocol3_enum_loop :: "nat \<Rightarrow> mbuf \<Rightarrow> hexidev3 \<Rightarrow> bvector \<Rightarrow> mbuf \<times> bvector" where
  "Protocol3_enum_loop 0 m dev data = (m, data)"
| "Protocol3_enum_loop (Suc i) m dev data =
     (let (m, dev) = get_idev3 m dev;
          data = add_dev_id_bvector_net_order data (toDevId dev)
      in Protocol3_enum_loop i m dev data)"

definition Protocol3_get_spec_data ::
    "aproto \<Rightarrow> mbuf \<Rightarrow> bvector \<Rightarrow> bvector \<Rightarrow> u32 \<Rightarrow> spec_out" where
  "Protocol3_get_spec_data p m res_data data pckt =
     (let p = p\<lparr>res_err := 0\<rparr> in
      if is_server p then
        if pckt = pkt3_cmd_req then
          let m = mseek m 8;
              (m, sz) = get32 m (Hex32 0 False);
              len = restOfSize m (-1) in
          if wasBroken m \<or> len \<noteq> unat (value32 sz) + 4
          then (False, p\<lparr>perror := ERR_PCKT_FMT\<rparr>, m, res_data, data)
          else
            let data = take (unat (value32 sz)) (cur_data m);
                m = mseek m (sint (value32 sz))
            in (True, p, m, res_data, data)
        else if pckt = pkt3_open_req \<or> pckt = pkt3_close_req \<or> pckt = pkt3_enum_req
             \<or> pckt = pkt3_ver_req then (True, p, m, res_data, data)
        else (False, p\<lparr>perror := ERR_PCKT_INV\<rparr>, m, res_data, data)
      else
        if pckt = pkt3_cmd_resp then
          let m = mseek m 8;
              (m, sz) = get32 m (Hex32 0 False);
              len = restOfSize m (-1) in
          if wasBroken m \<or> len \<noteq> unat (value32 sz)
          then (False, p\<lparr>perror := ERR_PCKT_FMT\<rparr>, m, res_data, data)
          else (True, p, m, res_data, to_vector m True)
        else if pckt = pkt3_open_resp \<or> pckt = pkt3_close_resp \<or> pckt = pkt3_ver_resp
             \<or> pckt = pkt3_error_resp then
          let m = mseek m 8; len = restOfSize m (-1) in
          if len \<noteq> 4 then (False, p\<lparr>perror := ERR_PCKT_FMT\<rparr>, m, res_data, data)
          else
            let (m, r) = get32 m (Hex32 0 False);
                p = p\<lparr>res_err := value32 r\<rparr>;
                p = (if pckt = pkt3_error_resp then p\<lparr>perror := value32 r\<rparr> else p)
            in (True, p, m, res_data, data)
        else if pckt = pkt3_enum_resp then
          let m = mseek m 8;
              (m, sz) = get32 m (Hex32 0 False);
              p = p\<lparr>res_err := value32 sz\<rparr>;
              (m, data) = Protocol3_enum_loop (nat (sint (value32 sz))) m (HexIDev3 None False) data;
              p = (if wasBroken m then p\<lparr>perror := ERR_PCKT_FMT\<rparr> else p)
          in (\<not> wasBroken m, p, m, res_data, data)
        else (False, p\<lparr>perror := ERR_PCKT_FMT\<rparr>, m, res_data, data))"

record p3_request =
  p3_ok :: bool
  p3_proto :: aproto
  p3_data :: bvector
  p3_dev :: devid
  p3_resp_len :: u32

definition Protocol3_get_data_from_request :: "aproto \<Rightarrow> mbuf \<Rightarrow> p3_request" where
  "Protocol3_get_data_from_request p cmd =
     (let p = p\<lparr>res_err := 0\<rparr>;
          (cmd, skip_prt) = get32 cmd (Hex32 0 False);
          (cmd, pckt) = get32 cmd (Hex32 0 False);
          (cmd, skip_tout) = get32 cmd (Hex32 0 False);
          (cmd, hdev) = get_idev3 cmd (HexIDev3 None False);
          dev = toDevId hdev;
          (ok, p, cmd, z, req_data) = Protocol3_get_spec_data p cmd [] [] (value32 pckt)
      in if \<not> ok then \<lparr>p3_ok = False, p3_proto = p, p3_data = req_data, p3_dev = dev, p3_resp_len = 0\<rparr>
         else
           let (cmd, skip_prt) = get32 cmd skip_prt in
           if wasBroken cmd then
             \<lparr>p3_ok = False, p3_proto = p\<lparr>perror := ERR_PCKT_FMT\<rparr>, p3_data = req_data,
              p3_dev = dev, p3_resp_len = value32 skip_prt\<rparr>
           else \<lparr>p3_ok = True, p3_proto = p, p3_data = req_data, p3_dev = dev,
                 p3_resp_len = value32 skip_prt\<rparr>)"

definition Protocol3_translate_response :: "aproto \<Rightarrow> u32 \<Rightarrow> bvector \<Rightarrow> aproto \<times> bool" where
  "Protocol3_translate_response p pckt res_data =
     (if pckt = pkt3_error_resp then (p\<lparr>perror := ERR_DEVICE_LOST\<rparr>, False)
      else (p, res_err p = 1))"

section \<open>Lemmas\<close>

lemma be_devid_zero:
  "be32 0 @ be32 0 @ be32 0 = be_devid (devid_of_id 0)"
  "be32 0 @ be32 0 @ be_devid (devid_of_id 0) = be_devid (devid_of_id 0) @ be32 0 @ be32 0"
  by (simp_all add: be_devid_def be32_def be16_def)

lemma Protocol3_request_bytes [packet_defs]:
  "Protocol3_create_open_request d t = head3 1 0 d"
  "Protocol3_create_close_request d t = head3 2 0 d"
  "Protocol3_create_version_request t = head3 5 0 (devid_of_id 0)"
  "Protocol3_create_enum_request t = head3 4 0 (devid_of_id 0)"
  using be_devid_zero
  by (simp_all add: Protocol3_create_open_request_def Protocol3_create_close_request_def
      Protocol3_create_version_request_def Protocol3_create_enum_request_def
      Protocol3_create_client_request_def Protocol3_version_def head3_def buf_simps)

lemma Protocol3_cmd_request_bytes [packet_defs]:
  "short data \<Longrightarrow>
   Protocol3_create_cmd_request d t (Some data) n =
     head3 3 0 d @ be32 (word_of_nat (length data)) @ data @ be32 n"
  by (simp add: Protocol3_create_cmd_request_def Protocol3_create_client_request_def
      Protocol3_version_def head3_def buf_simps codec_simps)

lemma Protocol3_response_bytes [packet_defs]:
  "short data \<Longrightarrow> Protocol3_create_cmd_response d data =
     head3 0xFD 0 d @ be32 (word_of_nat (length data)) @ data"
  "Protocol3_create_open_response d v = head3 0xFF 0 d @ be32 v"
  "Protocol3_create_close_response d v = head3 0xFE 0 d @ be32 v"
  "Protocol3_create_version_response = head3 0xFB 0 (devid_of_id 0) @ be32 3"
  "Protocol3_create_error_response v = head3 0xFA 0 (devid_of_id 0) @ be32 v"
  by (simp_all add: Protocol3_create_cmd_response_def Protocol3_create_open_response_def
      Protocol3_create_close_response_def Protocol3_create_version_response_def
      Protocol3_create_error_response_def Protocol3_create_server_response_def
      Protocol3_version_def head3_def buf_simps)

lemma put_idev3s_wbuf:
  "length out + 12 * length ds \<le> cap \<Longrightarrow> cap < 2 ^ 64 \<Longrightarrow>
   foldl (\<lambda>m v. put_idev3 m (idev3 v)) (wbuf out cap) ds = wbuf (out @ concat (map be_devid ds)) cap"
  by (induction ds arbitrary: out) (simp_all add: put_idev3_wbuf)

lemma Protocol3_enum_response_bytes [packet_defs]:
  assumes "length ds < 2 ^ 26"
  shows "Protocol3_create_enum_response ds =
    head3 0xFC 0 (devid_of_id 0) @ be32 (word_of_nat (length ds)) @ concat (map be_devid ds) @ be32 0"
  using assms
  by (cases "ds = []")
    (simp_all add: Protocol3_create_enum_response_def Protocol3_create_server_response_def
      Protocol3_version_def head3_def buf_simps put_idev3s_wbuf sizeof_DevId_def)

end
