(* ===== verification/Protocols.thy ===== *)
theory Protocols
  imports Protocol1 Protocol2 Protocol3
begin

text \<open>
  The virtual interface of \<open>AProtocol\<close> over its three classes, the virtual constructor
  \<open>create_appropriate_protocol\<close>, and the client's parser \<open>get_data_from_bindy_callback\<close>. The
  lemmas are the round trips between what one side builds and the other side parses, and exact
  descriptions of which packets a parser accepts.
\<close>

section \<open>Virtual functions\<close>

datatype proto_class = Proto1 | Proto2 | Proto3

definition create_appropriate_protocol :: "u32 \<Rightarrow> u32 \<Rightarrow> u32 \<Rightarrow> (proto_class \<times> aproto) option" where
  "create_appropriate_protocol version_number err uninit =
     (let p = \<lparr>is_server = False, res_err = uninit, perror = err\<rparr> in
      if version_number = 1 then Some (Proto1, p)
      else if version_number = 2 then Some (Proto2, p)
      else if version_number = 3 then Some (Proto3, p)
      else None)"

fun is_device_id_extended :: "proto_class \<Rightarrow> bool" where
  "is_device_id_extended Proto1 = False"
| "is_device_id_extended Proto2 = False"
| "is_device_id_extended Proto3 = True"

fun proto_version :: "proto_class \<Rightarrow> u32" where
  "proto_version Proto1 = Protocol1_version"
| "proto_version Proto2 = Protocol2_version"
| "proto_version Proto3 = Protocol3_version"

fun get_cmd_schema :: "proto_class \<Rightarrow> cmd_schema list" where
  "get_cmd_schema Proto1 = Protocol1_cmd_schemas"
| "get_cmd_schema Proto2 = Protocol2_cmd_schemas"
| "get_cmd_schema Proto3 = Protocol3_cmd_schemas"

fun create_open_request :: "proto_class \<Rightarrow> devid \<Rightarrow> u32 \<Rightarrow> bvector" where
  "create_open_request Proto1 d t = Protocol1_create_open_request d t"
| "create_open_request Proto2 d t = Protocol2_create_open_request d t"
| "create_open_request Proto3 d t = Protocol3_create_open_request d t"

fun create_close_request :: "proto_class \<Rightarrow> devid \<Rightarrow> u32 \<Rightarrow> bvector" where
  "create_close_request Proto1 d t = Protocol1_create_close_request d t"
| "create_close_request Proto2 d t = Protocol2_create_close_request d t"
| "create_close_request Proto3 d t = Protocol3_create_close_request d t"

text \<open>Classes that do not override a request inherit the empty vector.\<close>

fun create_version_request :: "proto_class \<Rightarrow> u32 \<Rightarrow> bvector" where
  "create_version_request Proto1 t = []"
| "create_version_request Proto2 t = []"
| "create_version_request Proto3 t = Protocol3_create_version_request t"

fun create_enum_request :: "proto_class \<Rightarrow> u32 \<Rightarrow> bvector" where
  "create_enum_request Proto1 t = Protocol1_create_enum_request t"
| "create_enum_request Proto2 t = []"
| "create_enum_request Proto3 t = Protocol3_create_enum_request t"

fun create_cmd_request :: "proto_class \<Rightarrow> devid \<Rightarrow> u32 \<Rightarrow> bvector option \<Rightarrow> u32 \<Rightarrow> bvector option" where
  "create_cmd_request Proto1 d t data n = Some (Protocol1_create_cmd_request d t data n)"
| "create_cmd_request Proto2 d t data n = Protocol2_create_cmd_request d t data n"
| "create_cmd_request Proto3 d t data n = Some (Protocol3_create_cmd_request d t data n)"

fun get_spec_data ::
    "proto_class \<Rightarrow> aproto \<Rightarrow> mbuf \<Rightarrow> bvector \<Rightarrow> bvector \<Rightarrow> u32 \<Rightarrow> spec_out option" where
  "get_spec_data Proto1 p m res_data data pckt = Some (Protocol1_get_spec_data p m res_data data pckt)"
| "get_spec_data Proto2 p m res_data data pckt = Protocol2_get_spec_data p m res_data data pckt"
| "get_spec_data Proto3 p m res_data data pckt = Some (Protocol3_get_spec_data p m res_data data pckt)"

fun translate_response :: "proto_class \<Rightarrow> aproto \<Rightarrow> u32 \<Rightarrow> bvector \<Rightarrow> aproto \<times> bool" where
  "translate_response Proto1 p pckt res_data = (p, Protocol1_translate_response p pckt res_data)"
| "translate_response Proto2 p pckt res_data = (p, Protocol2_translate_response p pckt res_data)"
| "translate_response Proto3 p pckt res_data = Protocol3_translate_response p pckt res_data"

section \<open>The client's parser\<close>

record client_data =
  cd_ok :: bool
  cd_proto :: aproto
  cd_res :: bvector
  cd_data :: bvector
  cd_pckt :: u32

text \<open>The packet type is written on success only: \<open>pckt_type\<close> is what the caller's variable held.\<close>

definition get_data_from_bindy_callback ::
    "proto_class \<Rightarrow> aproto \<Rightarrow> mbuf \<Rightarrow> u32 \<Rightarrow> client_data option" where
  "get_data_from_bindy_callback c p cmd pckt_type =
     (let p = p\<lparr>res_err := 0\<rparr>;
          (cmd, skip_prt) = get32 cmd (Hex32 0 False);
          (cmd, pckt) = get32 cmd (Hex32 0 False);
          (cmd, skip_tout) = get32 cmd (Hex32 0 False);
          cmd = (if is_device_id_extended c = False then fst (get32 cmd (Hex32 0 False))
                 else fst (get_idev3 cmd (HexIDev3 None False)))
      in if wasBroken cmd then
           Some \<lparr>cd_ok = False, cd_proto = p\<lparr>perror := ERR_PCKT_FMT\<rparr>, cd_res = [], cd_data = [],
                 cd_pckt = pckt_type\<rparr>
         else case get_spec_data c p cmd [] [] (value32 pckt) of
                None \<Rightarrow> None
              | Some (ok, p, cmd, res_data, data) \<Rightarrow>
                  Some \<lparr>cd_ok = ok, cd_proto = p, cd_res = res_data, cd_data = data,
                        cd_pckt = (if ok then value32 pckt else pckt_type)\<rparr>)"

section \<open>Parsing a head\<close>

text \<open>The parsers on a packet with a complete head; \<open>body\<close> is what follows the identifier.\<close>

lemma client_head12:
  assumes "length body < 2 ^ 31 - 4096" and "c = Proto1 \<or> c = Proto2"
  shows "get_data_from_bindy_callback c p
      (rbuf 0 [] (be32 v @ be32 k @ be32 t @ be32 s @ body)) u =
    (case get_spec_data c (p\<lparr>res_err := 0\<rparr>)
            (rbuf 0 (be32 v @ be32 k @ be32 t @ be32 s) body) [] [] k of
       None \<Rightarrow> None
     | Some (ok, p, cmd, res_data, data) \<Rightarrow>
         Some \<lparr>cd_ok = ok, cd_proto = p, cd_res = res_data, cd_data = data,
               cd_pckt = (if ok then k else u)\<rparr>)"
  using assms
  by (auto simp: get_data_from_bindy_callback_def buf_simps split: option.splits prod.splits)

lemma client_head3:
  assumes "length body < 2 ^ 31 - 4096"
  shows "get_data_from_bindy_callback Proto3 p
      (rbuf 0 [] (be32 v @ be32 k @ be32 t @ be_devid d @ body)) u =
    (case Protocol3_get_spec_data (p\<lparr>res_err := 0\<rparr>)
            (rbuf 0 (be32 v @ be32 k @ be32 t @ be_devid d) body) [] [] k of
       (ok, p, cmd, res_data, data) \<Rightarrow>
         Some \<lparr>cd_ok = ok, cd_proto = p, cd_res = res_data, cd_data = data,
               cd_pckt = (if ok then k else u)\<rparr>)"
  using assms by (simp add: get_data_from_bindy_callback_def buf_simps split: prod.splits)

text \<open>What the client holds after a packet has been accepted.\<close>

abbreviation accepted :: "aproto \<Rightarrow> u32 \<Rightarrow> bvector \<Rightarrow> u32 \<Rightarrow> client_data option" where
  "accepted p r data k \<equiv>
     Some \<lparr>cd_ok = True, cd_proto = p\<lparr>res_err := r\<rparr>, cd_res = [], cd_data = data, cd_pckt = k\<rparr>"

lemma client_result12:
  assumes "\<not> is_server p" and "k = 0xFF \<or> k = 0xFE" and "c = Proto1 \<or> c = Proto2"
  shows "get_data_from_bindy_callback c p (MBuf_data (head12 v k s @ be32 r) True) u = accepted p r [] k"
  using assms
  by (auto simp: head12_def client_head12 Protocol2_get_spec_data_def Protocol1_get_spec_data_def
      buf_simps)

lemma client_data12:
  assumes "\<not> is_server p" and "short data"
  shows "get_data_from_bindy_callback Proto2 p (MBuf_data (head12 v 0xFD s @ data) True) u
      = accepted p 0 data 0xFD"
    and "get_data_from_bindy_callback Proto1 p (MBuf_data (head12 v 0 s @ data) True) u
      = accepted p 0 data 0"
  using assms
  by (auto simp: head12_def client_head12 Protocol2_get_spec_data_def Protocol1_get_spec_data_def
      buf_simps size_max_def)

lemma client_result3:
  assumes "\<not> is_server p" and "k = 0xFF \<or> k = 0xFE \<or> k = 0xFB"
  shows "get_data_from_bindy_callback Proto3 p (MBuf_data (head3 k t d @ be32 r) True) u = accepted p r [] k"
  using assms
  by (auto simp: head3_def client_head3 Protocol3_get_spec_data_def buf_simps)

lemma client_error3:
  assumes "\<not> is_server p"
  shows "get_data_from_bindy_callback Proto3 p (MBuf_data (head3 0xFA t d @ be32 r) True) u
      = accepted (p\<lparr>perror := r\<rparr>) r [] 0xFA"
  using assms by (simp add: head3_def client_head3 Protocol3_get_spec_data_def buf_simps)

lemma client_data3:
  assumes "\<not> is_server p" and "short data"
  shows "get_data_from_bindy_callback Proto3 p
      (MBuf_data (head3 0xFD t d @ be32 (word_of_nat (length data)) @ data) True) u
      = accepted p 0 data 0xFD"
  using assms
  by (simp add: head3_def client_head3 Protocol3_get_spec_data_def buf_simps unat_of_nat)

end
