(* ===== verification/C_Text.thy ===== *)
theory C_Text
  imports Prelude
begin

text \<open>
  The functions of the C library that the sources use on text: \<open>printf\<close>'s \<open>%0nX\<close> and \<open>%i\<close>, \<open>sscanf\<close>'s
  \<open>%nx\<close>, \<open>%d\<close> and \<open>%u\<close>, \<open>strstr\<close>, \<open>strchr\<close> and \<open>strrchr\<close>. A C string is the list of its characters
  before the terminating zero. The lemmas: what \<open>printf\<close> writes, \<open>sscanf\<close> reads back.
\<close>

section \<open>Searching\<close>

text \<open>The text before the first occurrence and the text from it on.\<close>

fun strstr :: "string \<Rightarrow> string \<Rightarrow> (string \<times> string) option" where
  "strstr [] pat = (if pat = [] then Some ([], []) else None)"
| "strstr (c # s) pat =
     (if take (length pat) (c # s) = pat then Some ([], c # s)
      else map_option (\<lambda>(a, b). (c # a, b)) (strstr s pat))"

text \<open>The text before and after the first (last) occurrence of a character.\<close>

fun strchr :: "string \<Rightarrow> char \<Rightarrow> (string \<times> string) option" where
  "strchr [] ch = None"
| "strchr (c # s) ch =
     (if c = ch then Some ([], s) else map_option (\<lambda>(a, b). (c # a, b)) (strchr s ch))"

definition strrchr :: "string \<Rightarrow> char \<Rightarrow> (string \<times> string) option" where
  "strrchr s ch = map_option (\<lambda>(a, b). (rev b, rev a)) (strchr (rev s) ch)"

lemma strchr_append:
  "ch \<notin> set a \<Longrightarrow> strchr (a @ ch # b) ch = Some (a, b)"
  by (induction a) auto

lemma strstr_append:
  assumes "pat \<noteq> []" and "hd pat \<notin> set a"
  shows "strstr (a @ pat @ b) pat = Some (a, pat @ b)"
  using assms(2)
proof (induction a)
  case Nil
  obtain c r where r: "pat @ b = c # r" using assms(1) by (cases "pat @ b") auto
  then have "take (length pat) (c # r) = pat" by (metis append_eq_conv_conj)
  with r show ?case by simp
next
  case (Cons c a)
  then have "take (length pat) (c # a @ pat @ b) \<noteq> pat" using assms(1) by (cases pat) auto
  with Cons show ?case by simp
qed

section \<open>Numbers\<close>

definition hex_digits :: string where
  "hex_digits = ''0123456789ABCDEF''"

text \<open>The last \<open>n\<close> hexadecimal digits of a number.\<close>

fun hexX :: "nat \<Rightarrow> nat \<Rightarrow> string" where
  "hexX 0 v = []"
| "hexX (Suc n) v = hexX n (v div 16) @ [hex_digits ! (v mod 16)]"

fun hex_len :: "nat \<Rightarrow> nat" where
  "hex_len v = (if v < 16 then 1 else Suc (hex_len (v div 16)))"

declare hex_len.simps [simp del]

text \<open>\<open>%0nX\<close>: at least \<open>n\<close> digits.\<close>

definition printf_0X :: "nat \<Rightarrow> u32 \<Rightarrow> string" where
  "printf_0X n v = hexX (max n (hex_len (unat v))) (unat v)"

definition c_isspace :: "char \<Rightarrow> bool" where
  "c_isspace c \<longleftrightarrow> c \<in> {CHR '' '', CHR 0x09, CHR 0x0A, CHR 0x0B, CHR 0x0C, CHR 0x0D}"

definition digit_val :: "char \<Rightarrow> nat option" where
  "digit_val c =
     (let n = of_char c in
      if 48 \<le> n \<and> n \<le> (57 :: nat) then Some (n - 48)
      else if 65 \<le> n \<and> n \<le> 70 then Some (n - 55)
      else if 97 \<le> n \<and> n \<le> 102 then Some (n - 87)
      else None)"

definition is_digit :: "nat \<Rightarrow> char \<Rightarrow> bool" where
  "is_digit base c \<longleftrightarrow> (case digit_val c of None \<Rightarrow> False | Some d \<Rightarrow> d < base)"

definition digits_val :: "nat \<Rightarrow> string \<Rightarrow> nat" where
  "digits_val base s = foldl (\<lambda>v c. base * v + the (digit_val c)) 0 s"

text \<open>An optional sign, within the field width.\<close>

definition scan_sign :: "nat \<Rightarrow> string \<Rightarrow> bool \<times> string \<times> nat" where
  "scan_sign w s =
     (case s of
        [] \<Rightarrow> (False, [], w)
      | c # cs \<Rightarrow> if 0 < w \<and> (c = CHR ''-'' \<or> c = CHR ''+'') then (c = CHR ''-'', cs, w - 1)
                  else (False, s, w))"

text \<open>\<open>%wx\<close>: blanks, a sign, \<open>0x\<close>, digits; \<open>None\<close> when there is no digit.\<close>

definition scan_x :: "nat \<Rightarrow> string \<Rightarrow> (u32 \<times> string) option" where
  "scan_x width s =
     (let (neg, s, w) = scan_sign width (dropWhile c_isspace s);
          (s, w) = (if take 2 (take w s) \<in> {''0x'', ''0X''} then (drop 2 s, w - 2) else (s, w));
          ds = takeWhile (is_digit 16) (take w s)
      in if ds = [] then None
         else let v = word_of_nat (digits_val 16 ds)
              in Some (if neg then - v else v, drop (length ds) s))"

text \<open>\<open>%d\<close>; a number outside \<open>int\<close> has no defined result and is reported as \<open>None\<close>, too.\<close>

definition scan_d :: "string \<Rightarrow> (int \<times> string) option" where
  "scan_d s =
     (let s = dropWhile c_isspace s; (neg, s, w) = scan_sign (length s) s;
          ds = takeWhile (is_digit 10) s;
          v = (if neg then - int (digits_val 10 ds) else int (digits_val 10 ds))
      in if ds = [] \<or> v < - (2 ^ 31) \<or> 2 ^ 31 \<le> v then None else Some (v, drop (length ds) s))"

section \<open>Reading back what was printed\<close>

lemma length_hexX [simp]: "length (hexX n v) = n"
  by (induction n arbitrary: v) simp_all

lemma hex_len_le: "v < 16 ^ Suc n \<Longrightarrow> hex_len v \<le> Suc n"
proof (induction n arbitrary: v)
  case 0
  then show ?case by (simp add: hex_len.simps [of v])
next
  case (Suc n)
  then have "v div 16 < 16 ^ Suc n" by (simp add: div_less_iff_less_mult mult.commute)
  with Suc show ?case by (simp add: hex_len.simps [of v])
qed

lemma printf_0X_hexX:
  assumes "unat v < 16 ^ n" and "0 < n"
  shows "printf_0X n v = hexX n (unat v)"
  using assms hex_len_le [of "unat v" "n - 1"] by (simp add: printf_0X_def max_def)

lemma hex_digit_facts:
  assumes "d < 16"
  shows "digit_val (hex_digits ! d) = Some d" "\<not> c_isspace (hex_digits ! d)"
    "hex_digits ! d \<notin> {CHR ''x'', CHR ''X'', CHR ''-'', CHR ''+'', CHR ''/''}"
proof -
  have "d \<in> set [0..<16]" using assms by simp
  also have "[0..<16] = [0, 1, 2, 3, 4, 5, 6, 7, 8, 9, 10, 11, 12, 13, 14, 15]" by (simp add: upt_rec)
  finally have "d \<in> {0, 1, 2, 3, 4, 5, 6, 7, 8, 9, 10, 11, 12, 13, 14, 15}" by simp
  then show "digit_val (hex_digits ! d) = Some d" "\<not> c_isspace (hex_digits ! d)"
    "hex_digits ! d \<notin> {CHR ''x'', CHR ''X'', CHR ''-'', CHR ''+'', CHR ''/''}"
    by (auto simp: hex_digits_def digit_val_def c_isspace_def)
qed

lemma set_hexX: "c \<in> set (hexX n v) \<Longrightarrow> \<exists>d < 16. c = hex_digits ! d"
  by (induction n arbitrary: v) (auto intro: exI [of _ "v mod 16" for v])

lemma digits_val_append: "digits_val b (s @ [c]) = b * digits_val b s + the (digit_val c)"
  by (simp add: digits_val_def)

lemma digits_val_hexX: "digits_val 16 (hexX n v) = v mod 16 ^ n"
proof (induction n arbitrary: v)
  case 0
  then show ?case by (simp add: digits_val_def)
next
  case (Suc n)
  have "16 * (v div 16 mod 16 ^ n) + v mod 16 = v mod (16 * 16 ^ n)"
    by (simp add: mod_mult2_eq)
  with Suc show ?case by (simp add: digits_val_append hex_digit_facts)
qed

lemma takeWhile_hexX: "takeWhile (is_digit 16) (hexX n v) = hexX n v"
  by (auto simp: takeWhile_eq_all_conv is_digit_def hex_digit_facts dest!: set_hexX)

text \<open>A field of \<open>n\<close> printed digits is read back by \<open>%nx\<close>, whatever follows it.\<close>

lemma scan_x_hexX:
  assumes "0 < n"
  shows "scan_x n (hexX n v @ rest) = Some (word_of_nat (v mod 16 ^ n), rest)"
proof -
  obtain c cs where h: "hexX n v = c # cs" using assms by (cases "hexX n v") (auto dest: arg_cong [where f = length])
  then obtain d where "d < 16" "c = hex_digits ! d" using set_hexX [of c n v] by auto
  then have c: "\<not> c_isspace c" "c \<noteq> CHR ''-''" "c \<noteq> CHR ''+''" using hex_digit_facts by auto
  have sign: "scan_sign n (dropWhile c_isspace (hexX n v @ rest)) = (False, hexX n v @ rest, n)"
    using c by (simp add: h scan_sign_def)
  have take: "take n (hexX n v @ rest) = hexX n v" by simp
  have "CHR ''x'' \<notin> set (hexX n v)" "CHR ''X'' \<notin> set (hexX n v)"
    by (auto dest!: set_hexX simp: hex_digit_facts(3) dest: hex_digit_facts(3))
  then have pre: "take 2 (hexX n v) \<notin> {''0x'', ''0X''}"
    by (metis in_set_takeD insertE list.set_intros singletonD)
  have "hexX n v \<noteq> []" using h by simp
  then show ?thesis
    unfolding scan_x_def Let_def sign prod.case take if_not_P [OF pre] takeWhile_hexX
    by (simp add: digits_val_hexX)
qed

section \<open>Decimal numbers\<close>

text \<open>\<open>%i\<close> (\<open>%d\<close>) of an \<open>int\<close>, and \<open>%u\<close> into an \<open>unsigned int\<close>
  (\<open>Some None\<close>: there is no number; \<open>None\<close>: it is out of range, which has no defined result).\<close>

fun dec_digits :: "nat \<Rightarrow> string" where
  "dec_digits n = (if n < 10 then [hex_digits ! n] else dec_digits (n div 10) @ [hex_digits ! (n mod 10)])"

declare dec_digits.simps [simp del]

definition printf_d :: "int \<Rightarrow> string" where
  "printf_d v = (if v < 0 then CHR ''-'' # dec_digits (nat (- v)) else dec_digits (nat v))"

definition scan_u :: "string \<Rightarrow> (u32 \<times> string) option option" where
  "scan_u s =
     (let s = dropWhile c_isspace s; (neg, s, w) = scan_sign (length s) s;
          ds = takeWhile (is_digit 10) s;
          v = digits_val 10 ds
      in if ds = [] then Some None
         else if 2 ^ 32 \<le> v then None
         else Some (Some (if neg then - word_of_nat v else word_of_nat v, drop (length ds) s)))"

lemma is_digit_10: "is_digit 10 c \<longleftrightarrow> 48 \<le> (of_char c :: nat) \<and> of_char c \<le> (57 :: nat)"
  by (auto simp: is_digit_def digit_val_def Let_def)

lemma dec_digit:
  assumes "d < 10"
  shows "is_digit 10 (hex_digits ! d)" "digit_val (hex_digits ! d) = Some d"
  using assms hex_digit_facts(1) [of d] by (simp_all add: is_digit_def)

lemma length_dec: "0 < k \<Longrightarrow> n < 10 ^ k \<Longrightarrow> length (dec_digits n) \<le> k"
proof (induction n arbitrary: k rule: dec_digits.induct)
  case (1 n)
  show ?case
  proof (cases "n < 10")
    case True
    with 1 show ?thesis by (simp add: dec_digits.simps [of n])
  next
    case False
    with 1(3) obtain j where k: "k = Suc j" "0 < j" by (cases k; cases "k - 1") auto
    with 1(3) have "n div 10 < 10 ^ j" by (simp add: div_less_iff_less_mult mult.commute)
    with 1(1) [of j] False k show ?thesis by (simp add: dec_digits.simps [of n])
  qed
qed

lemma length_dec_ge: "10 ^ k \<le> n \<Longrightarrow> k < length (dec_digits n)"
proof (induction n arbitrary: k rule: dec_digits.induct)
  case (1 n)
  show ?case
  proof (cases k)
    case 0
    then show ?thesis by (simp add: dec_digits.simps [of n])
  next
    case (Suc j)
    with 1(2) have "10 ^ j \<le> n div 10" by (simp add: less_eq_div_iff_mult_less_eq mult.commute)
    moreover have "\<not> n < 10"
    proof
      assume "n < 10"
      with \<open>10 ^ j \<le> n div 10\<close> show False by simp
    qed
    ultimately show ?thesis using 1(1) [of j] Suc by (simp add: dec_digits.simps [of n])
  qed
qed

lemma set_dec_digits: "c \<in> set (dec_digits n) \<Longrightarrow> is_digit 10 c"
proof (induction n rule: dec_digits.induct)
  case (1 n)
  then show ?case using dec_digit(1) [of n] dec_digit(1) [of "n mod 10"]
    by (cases "n < 10") (auto simp: dec_digits.simps [of n])
qed

lemma dec_digits_not_Nil [simp]: "dec_digits n \<noteq> []"
  by (simp add: dec_digits.simps [of n])

lemma digits_val_append2: "digits_val b (s @ t) = digits_val b s * b ^ length t + digits_val b t"
proof (induction t rule: rev_induct)
  case Nil
  then show ?case by (simp add: digits_val_def)
next
  case (snoc c t)
  have "digits_val b (s @ t @ [c]) = b * digits_val b (s @ t) + the (digit_val c)"
    using digits_val_append [of b "s @ t" c] by simp
  with snoc show ?case by (simp add: digits_val_append algebra_simps)
qed

lemma digits_val_dec [simp]: "digits_val 10 (dec_digits n) = n"
proof (induction n rule: dec_digits.induct)
  case (1 n)
  have one: "digits_val 10 [hex_digits ! d] = d" if "d < 10" for d
    using dec_digit(2) [OF that] by (simp add: digits_val_def)
  show ?case
  proof (cases "n < 10")
    case True
    then show ?thesis by (simp add: dec_digits.simps [of n] one)
  next
    case False
    with 1 show ?thesis by (simp add: dec_digits.simps [of n] digits_val_append2 one)
  qed
qed

lemma decimal_chars:
  assumes "is_digit 10 c"
  shows "\<not> c_isspace c" "c \<notin> {CHR ''-'', CHR ''+'', CHR ''.'', CHR '':'', CHR ''/'', CHR ''#'', CHR ''('', CHR '')'', CHR 0x00}"
  using assms by (auto simp: is_digit_def digit_val_def c_isspace_def)

text \<open>Digits up to something else, at the start of what a scan sees.\<close>

lemma digits_first:
  assumes "\<forall>c \<in> set ds. is_digit 10 c" and "ds \<noteq> []" and "rest = [] \<or> \<not> is_digit 10 (hd rest)"
  shows "scan_sign (length (ds @ rest)) (dropWhile c_isspace (ds @ rest)) = (False, ds @ rest, length (ds @ rest))"
    and "dropWhile c_isspace (ds @ rest) = ds @ rest" and "takeWhile (is_digit 10) (ds @ rest) = ds"
proof -
  obtain c cs where h: "ds = c # cs" using assms(2) by (cases ds) auto
  then have c: "is_digit 10 c" using assms(1) by simp
  show drop: "dropWhile c_isspace (ds @ rest) = ds @ rest" using decimal_chars(1) [OF c] by (simp add: h)
  show "scan_sign (length (ds @ rest)) (dropWhile c_isspace (ds @ rest)) = (False, ds @ rest, length (ds @ rest))"
    using decimal_chars [OF c] unfolding drop by (simp add: h scan_sign_def)
  have "takeWhile (is_digit 10) rest = []" using assms(3) by (cases rest) auto
  then show "takeWhile (is_digit 10) (ds @ rest) = ds" using assms(1) by (simp add: takeWhile_append2)
qed

lemma scan_d_digits:
  assumes "\<forall>c \<in> set ds. is_digit 10 c" and "ds \<noteq> []" and "rest = [] \<or> \<not> is_digit 10 (hd rest)"
    and "digits_val 10 ds < 2 ^ 31"
  shows "scan_d (ds @ rest) = Some (int (digits_val 10 ds), rest)"
  using assms(2,4) digits_first [OF assms(1-3)] by (auto simp: scan_d_def Let_def)

lemma scan_u_digits:
  assumes "\<forall>c \<in> set ds. is_digit 10 c" and "ds \<noteq> []" and "rest = [] \<or> \<not> is_digit 10 (hd rest)"
  shows "scan_u (ds @ rest) =
    (if digits_val 10 ds < 2 ^ 32 then Some (Some (word_of_nat (digits_val 10 ds), rest)) else None)"
  using assms(2) digits_first [OF assms] by (auto simp: scan_u_def Let_def)

lemma scan_d_dec:
  assumes "n < 2 ^ 31" and "rest = [] \<or> \<not> is_digit 10 (hd rest)"
  shows "scan_d (dec_digits n @ rest) = Some (int n, rest)"
  using scan_d_digits [of "dec_digits n" rest] assms set_dec_digits by auto

lemma strrchr_append:
  "ch \<notin> set b \<Longrightarrow> strrchr (a @ ch # b) ch = Some (a, b)"
  using strchr_append [of ch "rev b" "rev a"] by (simp add: strrchr_def)

lemma strchr_none: "ch \<notin> set a \<Longrightarrow> strchr a ch = None"
  by (induction a) auto

lemma strrchr_none: "ch \<notin> set a \<Longrightarrow> strrchr a ch = None"
  by (simp add: strrchr_def strchr_none)

end
