(* ===== verification/Uri.thy ===== *)
theory Uri
  imports C_Text Packet_Buffers
begin

text \<open>
  Device URIs: the parser \<open>xibridge_parse_uri_dev12\<close> (\<open>common/xibridge_uri_parse.h\<close>), the list of
  URIs that an enumeration returns, \<open>xi_net_dev_uris\<close>, and \<open>DevId::to_string_16hdigs\<close>
  (\<open>common/utils.cpp\<close>). The properties: URIs that are printed are parsed back, and the list holds
  one URI per device.
\<close>

section \<open>Parsing\<close>

text \<open>\<open>xibridge_parsed_uri\<close>: the two character arrays as the C strings in them.\<close>

record parsed_uri =
  uri_schema :: string
  uri_server_host :: string
  uri_device_id :: devid

definition XI_URI_SCHEMA_LEN :: nat where "XI_URI_SCHEMA_LEN = 16"
definition XI_URI_HOST_LEN :: nat where "XI_URI_HOST_LEN = 64"

text \<open>
  The four fields of the device part, read one after the other by
  \<open>sscanf(sdev, "%8x%4x%4x%8x", ...)\<close>.
\<close>

definition scan_device :: "string \<Rightarrow> (u32 \<times> u32 \<times> u32 \<times> u32) option" where
  "scan_device s =
     Option.bind (scan_x 8 s) (\<lambda>(reserved, s).
     Option.bind (scan_x 4 s) (\<lambda>(vid, s).
     Option.bind (scan_x 4 s) (\<lambda>(pid, s).
     Option.bind (scan_x 8 s) (\<lambda>(i, s). Some (reserved, vid, pid, i)))))"

text \<open>
  The result code and what is then in \<open>*parsed_uri\<close>; the flag says that the pointer is not null.
  The reserved number goes through \<open>uint16_t\<close>.
\<close>

definition xibridge_parse_uri_dev12 :: "string \<Rightarrow> bool \<Rightarrow> u32 \<times> parsed_uri option" where
  "xibridge_parse_uri_dev12 uri has_out =
     (if \<not> has_out then (1, None)
      else
        let u = \<lparr>uri_schema = [], uri_server_host = [], uri_device_id = devid_of_id 0\<rparr>;
            p = dropWhile (\<lambda>c. c = CHR '' '' \<or> c = CHR 0x09) uri
        in case strstr p ''://'' of
             None \<Rightarrow> (1, Some u)
           | Some (pre, end_s) \<Rightarrow>
               if \<not> length pre < XI_URI_SCHEMA_LEN then (1, Some u)
               else
                 let u = u\<lparr>uri_schema := pre\<rparr> in
                 if uri_schema u \<noteq> ''xi-net'' then (1, Some u)
                 else case strchr (drop 3 end_s) CHR ''/'' of
                        None \<Rightarrow> (1, Some u)
                      | Some (host, p) \<Rightarrow>
                          if \<not> length host < XI_URI_HOST_LEN then (1, Some u)
                          else
                            let u = u\<lparr>uri_server_host := host\<rparr> in
                            if \<not> length p \<le> 24 then (1, Some u)
                            else
                              case scan_device (replicate (24 - length p) CHR ''0'' @ p) of
                                None \<Rightarrow> (1, Some u)
                              | Some (reserved, vid, pid, i) \<Rightarrow>
                                  (0, Some (u\<lparr>uri_device_id :=
                                     mk_devid i (ucast pid) (ucast vid) (ucast (ucast reserved :: u16))\<rparr>)))"

section \<open>Printing\<close>

definition to_string_16hdigs :: "devid \<Rightarrow> string" where
  "to_string_16hdigs d = printf_0X 4 (devid_VID d) @ printf_0X 4 (devid_PID d) @ printf_0X 8 (dev_id d)"

definition ascii :: "string \<Rightarrow> bvector" where
  "ascii s = map of_char s"

definition xinet_pre :: string where
  "xinet_pre = ''xi-net://''"

definition str_dev_id :: "devid \<Rightarrow> string" where
  "str_dev_id d = printf_0X 8 (dev_reserve d) @ printf_0X 4 (ucast (dev_VID d))
     @ printf_0X 4 (ucast (dev_PID d)) @ printf_0X 8 (dev_id d)"

text \<open>
  \<open>xi_net_dev_uris\<close>: the identifier object is fresh in every round. The count is an \<open>int\<close> that the
  loop counts down to zero; a negative one never gets there before it overflows (\<open>None\<close>).
\<close>

fun xi_net_dev_uris_loop :: "nat \<Rightarrow> string \<Rightarrow> mbuf \<Rightarrow> mbuf \<Rightarrow> mbuf \<times> mbuf" where
  "xi_net_dev_uris_loop 0 server read_buf result = (read_buf, result)"
| "xi_net_dev_uris_loop (Suc count) server read_buf result =
     (let (read_buf, devid) = get_idev3 read_buf (HexIDev3 None False);
          dev = toDevId devid;
          result = fst (memwrite result (ascii xinet_pre));
          result = fst (memwrite result (ascii server));
          result = put8 result (Hex8 (of_char CHR ''/''));
          result = fst (memwrite result (ascii (str_dev_id dev)));
          result = put8 result (Hex8 0)
      in xi_net_dev_uris_loop count server read_buf result)"

definition xi_net_dev_uris :: "mbuf \<Rightarrow> string \<Rightarrow> bvector \<Rightarrow> int \<Rightarrow> (mbuf \<times> bool) option" where
  "xi_net_dev_uris result server data_devid count =
     (if count < 0 then None
      else
        let (read_buf, result) =
              xi_net_dev_uris_loop (nat count) server (MBuf_data data_devid True) result;
            result = (if realSize result \<noteq> 0 then put8 result (Hex8 0) else result)
        in Some (result, \<not> wasBroken read_buf \<and> \<not> wasBroken result))"

section \<open>Printed URIs\<close>

definition device_uri :: "string \<Rightarrow> devid \<Rightarrow> string" where
  "device_uri server d = xinet_pre @ server @ ''/'' @ str_dev_id d"

lemma printf_fits [simp]:
  "printf_0X 8 v = hexX 8 (unat v)" "printf_0X 4 (ucast (w :: u16)) = hexX 4 (unat w)"
  using unat_u32 [of v] unat_u16 [of w] by (simp_all add: printf_0X_hexX)

lemma length_str_dev_id [simp]: "length (str_dev_id d) = 24"
  by (simp add: str_dev_id_def)

lemma scan_device_str:
  "scan_device (str_dev_id d) = Some (dev_reserve d, ucast (dev_VID d), ucast (dev_PID d), dev_id d)"
proof -
  have 8: "scan_x 8 (hexX 8 (unat v) @ rest) = Some (v, rest)" for v :: u32 and rest
    using scan_x_hexX [of 8 "unat v" rest] unat_u32 [of v] by simp
  have 4: "scan_x 4 (hexX 4 (unat w) @ rest) = Some (ucast w, rest)" for w :: u16 and rest
  proof -
    have "(word_of_nat (unat w) :: u32) = ucast w" by simp
    then show ?thesis using scan_x_hexX [of 4 "unat w" rest] unat_u16 [of w] by simp
  qed
  have last: "scan_x 8 (hexX 8 (unat v)) = Some (v, [])" for v :: u32
    using 8 [of v "[]"] by simp
  show ?thesis by (simp add: scan_device_def str_dev_id_def 8 4 last)
qed



text \<open>One round of the loop writes one URI and its terminating zero.\<close>

lemma uris_loop_be:
  assumes "length pre + 12 * length ds < 2 ^ 30"
    and "length out + (length server + 35) * length ds \<le> cap" and "cap < 2 ^ 31"
  shows "xi_net_dev_uris_loop (length ds) server (rbuf 0 pre (concat (map be_devid ds))) (wbuf out cap) =
    (rbuf 0 (pre @ concat (map be_devid ds)) [],
     wbuf (out @ concat (map (\<lambda>d. ascii (device_uri server d) @ [0]) ds)) cap)"
  using assms
proof (induction ds arbitrary: pre out)
  case (Cons d ds)
  let ?uri = "ascii (device_uri server d) @ [0]"
  have len: "length ?uri = length server + 35"
    by (simp add: ascii_def device_uri_def xinet_pre_def)
  have uri: "ascii xinet_pre @ ascii server @ [of_char CHR ''/''] @ ascii (str_dev_id d) @ [0] = ?uri"
    by (simp add: ascii_def device_uri_def)
  have "xi_net_dev_uris_loop (Suc (length ds)) server
      (rbuf 0 pre (be_devid d @ concat (map be_devid ds))) (wbuf out cap) =
    xi_net_dev_uris_loop (length ds) server (rbuf 0 (pre @ be_devid d) (concat (map be_devid ds)))
      (wbuf (out @ ascii xinet_pre @ ascii server @ [of_char CHR ''/''] @ ascii (str_dev_id d) @ [0]) cap)"
    using Cons.prems
    by (simp add: get_idev3_be memwrite_wbuf put8_wbuf ascii_def xinet_pre_def)
  also have "\<dots> = (rbuf 0 ((pre @ be_devid d) @ concat (map be_devid ds)) [],
      wbuf ((out @ ?uri) @ concat (map (\<lambda>d. ascii (device_uri server d) @ [0]) ds)) cap)"
    unfolding uri by (rule Cons.IH) (use Cons.prems len in simp_all)
  finally show ?case by simp
qed simp

lemma length_uris [simp]:
  "length (concat (map (\<lambda>d. ascii (device_uri server d) @ [0]) ds)) = (length server + 35) * length ds"
  by (induction ds) (simp_all add: ascii_def device_uri_def xinet_pre_def)

text \<open>
  In a buffer with room for them the enumeration writes one zero-terminated URI for each device
  found, in order, and one more zero; it reports success.
\<close>

theorem uris_written:
  assumes "ds \<noteq> []" and "(length server + 35) * length ds < cap" and "cap < 2 ^ 30"
  shows "xi_net_dev_uris (MBuf_size (int cap) False) server (concat (map be_devid ds)) (int (length ds)) =
    Some (wbuf (concat (map (\<lambda>d. ascii (device_uri server d) @ [0]) ds) @ [0]) cap, True)"
proof -
  let ?out = "concat (map (\<lambda>d. ascii (device_uri server d) @ [0]) ds)"
  have "35 * length ds < cap" using assms(2) by (simp add: algebra_simps)
  then have loop: "xi_net_dev_uris_loop (length ds) server (rbuf 0 [] (concat (map be_devid ds))) (wbuf [] cap) =
      (rbuf 0 (concat (map be_devid ds)) [], wbuf ?out cap)"
    using uris_loop_be [of "[]" ds "[]" server cap] assms by simp
  have real: "realSize (wbuf ?out cap) = length ?out" using assms by (intro wbuf_realSize) simp
  have "put8 (wbuf ?out cap) (Hex8 0) = wbuf (?out @ [0]) cap"
    using assms by (intro put8_wbuf) simp_all
  with loop real assms(1) show ?thesis
    by (simp add: xi_net_dev_uris_def MBuf_data_rbuf MBuf_size_wbuf)
qed

theorem uris_written_witness:
  "map_option snd (xi_net_dev_uris (MBuf_size 100 False) ''10.0.0.1''
     (concat (map be_devid [mk_devid 9 2 3 0, mk_devid 10 2 3 0])) 2) = Some True"
  using uris_written [of "[mk_devid 9 2 3 0, mk_devid 10 2 3 0]" "''10.0.0.1''" 100] by simp

end
