(* ===== verification/Bindy_Helper.thy ===== *)
theory Bindy_Helper
  imports Protocols Uri "HOL-Library.Monad_Syntax"
begin

text \<open>
  The client library's objects and their link to the network: the data of \<open>Xibridge_client\<close>
  (\<open>client/xibridge_client.h\<close>) and \<open>Bindy_helper\<close> (\<open>client/bindy_helper.cpp\<close>). Clients live on a
  heap, because the helper's map holds pointers to them and the receiving thread writes through
  these. Bindy is the parameter \<open>net_env\<close> over a state of the network. \<open>None\<close> is a use of a
  deleted client.
\<close>

section \<open>State\<close>

type_synonym ptr = nat

record client =
  server_protocol_version :: u32
  conn_id :: conn_id_t
  client_dev_id :: devid
  is_really_recv :: bool
  recv_message :: bvector
  last_error :: u32
  host :: string
  adapter :: string

text \<open>
  \<open>initialize_network\<close> with the constructor, \<open>connect\<close> and \<open>disconnect\<close>, \<open>send_data\<close>; an exception
  is \<open>None\<close> or \<open>False\<close>. The callbacks of the receiving thread: those that run after a packet has been
  sent and before the sender starts to wait, and those that run until its wait ends.
\<close>

record 'w net_env =
  net_init :: "'w \<Rightarrow> bool \<times> 'w"
  net_connect :: "string \<Rightarrow> string \<Rightarrow> 'w \<Rightarrow> conn_id_t option \<times> 'w"
  net_disconnect :: "conn_id_t \<Rightarrow> 'w \<Rightarrow> bool \<times> 'w"
  net_send :: "conn_id_t \<Rightarrow> bvector \<Rightarrow> 'w \<Rightarrow> bool \<times> 'w"
  net_early :: "'w \<Rightarrow> (conn_id_t \<times> bvector) list \<times> 'w"
  net_wait :: "'w \<Rightarrow> (conn_id_t \<times> bvector) list \<times> 'w"

text \<open>
  The library: \<open>_server_base_protocol_version\<close>, whether \<open>_pbindy\<close> is set, \<open>_map\<close>, and the heap of
  clients with the next free address.
\<close>

record 'w lib =
  base_version :: u32
  bindy :: bool
  bmap :: "conn_id_t \<rightharpoonup> ptr"
  heap :: "ptr \<rightharpoonup> client"
  next_ptr :: ptr
  net :: 'w

definition cl_invalid :: conn_id_t where
  "cl_invalid = 0"

definition upd :: "ptr \<Rightarrow> (client \<Rightarrow> client) \<Rightarrow> 'w lib \<Rightarrow> 'w lib option" where
  "upd p f L = (case heap L p of None \<Rightarrow> None | Some c \<Rightarrow> Some (L\<lparr>heap := (heap L)(p \<mapsto> f c)\<rparr>))"

definition set_error :: "ptr \<Rightarrow> u32 \<Rightarrow> 'w lib \<Rightarrow> 'w lib option" where
  "set_error p e = upd p (\<lambda>c. c\<lparr>last_error := e\<rparr>)"

section \<open>The helper\<close>

definition instance_bindy :: "'w net_env \<Rightarrow> 'w lib \<Rightarrow> bool \<times> 'w lib" where
  "instance_bindy env L =
     (if bindy L then (True, L)
      else let (ok, w) = net_init env (net L) in (ok, L\<lparr>bindy := ok, net := w\<rparr>))"

definition bh_connect :: "'w net_env \<Rightarrow> ptr \<Rightarrow> 'w lib \<Rightarrow> (conn_id_t \<times> 'w lib) option" where
  "bh_connect env p L = do {
     let (ok, L) = instance_bindy env L;
     if \<not> ok then do {
       L \<leftarrow> set_error p ERR_NO_BINDY L;
       Some (cl_invalid, L)
     } else do {
       c \<leftarrow> heap L p;
       let (r, w) = net_connect env (host c) (adapter c) (net L);
       let L = L\<lparr>net := w\<rparr>;
       case r of
         None \<Rightarrow> do { L \<leftarrow> set_error p ERR_SET_CONNECTION L; Some (cl_invalid, L) }
       | Some conn \<Rightarrow>
           Some (conn, if conn \<noteq> cl_invalid \<and> bmap L conn = None
                       then L\<lparr>bmap := (bmap L)(conn \<mapsto> p)\<rparr> else L)
     }
   }"

definition bh_disconnect :: "'w net_env \<Rightarrow> conn_id_t \<Rightarrow> 'w lib \<Rightarrow> 'w lib" where
  "bh_disconnect env conn L =
     (let (ok, L) = instance_bindy env L in
      if \<not> ok \<or> conn = cl_invalid then L
      else
        let (done, w) = net_disconnect env conn (net L); L = L\<lparr>net := w\<rparr>
        in if done then L\<lparr>bmap := (bmap L)(conn := None)\<rparr> else L)"

definition bh_is_connected :: "conn_id_t \<Rightarrow> 'w lib \<Rightarrow> bool" where
  "bh_is_connected conn L \<longleftrightarrow> bmap L conn \<noteq> None"

definition send_bindy_data :: "'w net_env \<Rightarrow> conn_id_t \<Rightarrow> bvector \<Rightarrow> 'w lib \<Rightarrow> bool \<times> 'w lib" where
  "send_bindy_data env conn data L =
     (if \<not> bh_is_connected conn L then (False, L)
      else let (ok, w) = net_send env conn data (net L) in (ok, L\<lparr>net := w\<rparr>))"

text \<open>The receiving thread stores a packet in the client of its connection, over what was there.\<close>

definition callback_data_bindy :: "conn_id_t \<Rightarrow> bvector \<Rightarrow> 'w lib \<Rightarrow> 'w lib option" where
  "callback_data_bindy conn data L =
     (case bmap L conn of
        None \<Rightarrow> Some L
      | Some p \<Rightarrow> upd p (\<lambda>c. c\<lparr>recv_message := data, is_really_recv := True\<rparr>) L)"

fun deliver :: "(conn_id_t \<times> bvector) list \<Rightarrow> 'w lib \<Rightarrow> 'w lib option" where
  "deliver [] L = Some L"
| "deliver ((conn, data) # es) L = do { L \<leftarrow> callback_data_bindy conn data L; deliver es L }"

definition on_bindy_disconnect :: "conn_id_t \<Rightarrow> 'w lib \<Rightarrow> 'w lib option" where
  "on_bindy_disconnect conn L =
     (case bmap L conn of
        None \<Rightarrow> Some L
      | Some p \<Rightarrow> do {
          L \<leftarrow> upd p (\<lambda>c. c\<lparr>conn_id := cl_invalid\<rparr>) L;
          Some (L\<lparr>bmap := (bmap L)(conn := None)\<rparr>)
        })"

definition shutdown_bindy :: "'w lib \<Rightarrow> 'w lib" where
  "shutdown_bindy L = (if \<not> bindy L then L else L\<lparr>bindy := False\<rparr>)"

end
