(* ===== verification/Client.thy ===== *)
theory Client
  imports Bindy_Helper
begin

text \<open>
  The client (\<open>client/xibridge_client.cpp\<close>): connection and device, requests, enumeration and the
  version request, and the static functions of the interface. A method runs on the client at an
  address of the heap; \<open>_last_error\<close> is the cell the protocol object writes its errors to. \<open>u\<close> is
  what uninitialised variables hold, \<open>None\<close> a step without defined behaviour.
\<close>

section \<open>Versions\<close>

record version =
  major :: u8
  minor :: u8
  bagfix :: u8

definition DEFAULT_PROTO_VERSION :: u8 where
  "DEFAULT_PROTO_VERSION = 3"

definition xbc_get_last_protocol_version :: version where
  "xbc_get_last_protocol_version = \<lparr>major = DEFAULT_PROTO_VERSION, minor = 0, bagfix = 0\<rparr>"

definition is_protocol_supported_version :: "version \<Rightarrow> bool" where
  "is_protocol_supported_version ver \<longleftrightarrow>
     major ver > 0 \<and> major ver \<le> DEFAULT_PROTO_VERSION \<and> minor ver = 0 \<and> bagfix ver = 0"

definition xbc_set_base_protocol_version :: "version \<Rightarrow> 'w lib \<Rightarrow> u32 \<times> 'w lib" where
  "xbc_set_base_protocol_version ver L =
     (if \<not> is_protocol_supported_version ver then (ERR_NO_PROTOCOL, L)
      else (0, L\<lparr>base_version := ucast (major ver)\<rparr>))"

text \<open>
  The library before its first use: the base version is 3, and the static object \<open>xbc_init\<close> sets
  it to 1 when the program starts.
\<close>

definition init_lib :: "'w \<Rightarrow> 'w lib" where
  "init_lib w =
     (let L = \<lparr>base_version = 3, bindy = False, bmap = Map.empty, heap = Map.empty, next_ptr = 0, net = w\<rparr>
      in snd (xbc_set_base_protocol_version \<lparr>major = 1, minor = 0, bagfix = 0\<rparr> L))"

text \<open>A connection as \<open>xibridge_conn_t\<close>.\<close>

record conn_t =
  ct_conn_id :: u32
  ct_proto_ver :: version

text \<open>\<open>_get_client_as_free\<close>\<close>

definition get_client_as_free :: "conn_id_t \<Rightarrow> 'w lib \<Rightarrow> ptr option" where
  "get_client_as_free conn L = bmap L conn"

definition xbc_get_connection_protocol_version :: "conn_t option \<Rightarrow> 'w lib \<Rightarrow> version option" where
  "xbc_get_connection_protocol_version pconn L =
     (case pconn of
        None \<Rightarrow> Some \<lparr>major = 0, minor = 0, bagfix = 0\<rparr>
      | Some conn \<Rightarrow>
          (case get_client_as_free (ct_conn_id conn) L of
             None \<Rightarrow> Some \<lparr>major = ucast (base_version L), minor = 0, bagfix = 0\<rparr>
           | Some p \<Rightarrow> map_option (\<lambda>c. \<lparr>major = ucast (server_protocol_version c), minor = 0, bagfix = 0\<rparr>)
                         (heap L p)))"

section \<open>Construction\<close>

text \<open>
  The constructor on a fresh address. With no adapter the URI names the device, and a URI that does
  not parse leaves the identifier unset. Otherwise both texts are copied without a check of their
  length: longer ones overrun the arrays of 65 characters or leave them without an end.
\<close>

definition new_client :: "u32 \<Rightarrow> devid \<Rightarrow> string \<Rightarrow> string option \<Rightarrow> 'w lib \<Rightarrow> (ptr \<times> 'w lib) option" where
  "new_client u junk uri adapt L =
     (let c = \<lparr>server_protocol_version = base_version L, conn_id = cl_invalid, client_dev_id = junk,
               is_really_recv = u \<noteq> 0, recv_message = [], last_error = 0, host = [], adapter = []\<rparr>;
          put = (\<lambda>c. Some (next_ptr L, L\<lparr>heap := (heap L)(next_ptr L \<mapsto> c), next_ptr := next_ptr L + 1\<rparr>))
      in case adapt of
           None \<Rightarrow>
             (case xibridge_parse_uri_dev12 uri True of
                (code, parsed) \<Rightarrow>
                  if code = 0
                  then put (c\<lparr>host := uri_server_host (the parsed), client_dev_id := uri_device_id (the parsed)\<rparr>)
                  else put c)
         | Some a \<Rightarrow>
             if length uri > XI_URI_HOST_LEN \<or> length a > XI_URI_HOST_LEN then None
             else put (c\<lparr>host := uri, adapter := a\<rparr>))"

definition delete_client :: "ptr \<Rightarrow> 'w lib \<Rightarrow> 'w lib" where
  "delete_client p L = L\<lparr>heap := (heap L)(p := None)\<rparr>"

definition clr_errors :: "ptr \<Rightarrow> 'w lib \<Rightarrow> 'w lib option" where
  "clr_errors p = set_error p 0"

definition get_last_error :: "ptr \<Rightarrow> 'w lib \<Rightarrow> u32 option" where
  "get_last_error p L = map_option last_error (heap L p)"

definition to_xibridge_conn_t :: "client \<Rightarrow> conn_t" where
  "to_xibridge_conn_t c =
     \<lparr>ct_conn_id = conn_id c,
      ct_proto_ver = \<lparr>major = ucast (server_protocol_version c), minor = 0, bagfix = 0\<rparr>\<rparr>"

section \<open>Sending and receiving\<close>

definition send_and_receive :: "'w net_env \<Rightarrow> ptr \<Rightarrow> bvector \<Rightarrow> 'w lib \<Rightarrow> (bool \<times> 'w lib) option" where
  "send_and_receive env p req L = do {
     c \<leftarrow> heap L p;
     let (is_ok, L) = send_bindy_data env (conn_id c) req L;
     if \<not> is_ok then do {
       L \<leftarrow> set_error p ERR_SEND_DATA L;
       Some (False, L)
     } else do {
       let (early, w) = net_early env (net L);
       L \<leftarrow> deliver early (L\<lparr>net := w\<rparr>);
       L \<leftarrow> upd p (\<lambda>c. c\<lparr>is_really_recv := False\<rparr>) L;
       let (arrived, w) = net_wait env (net L);
       L \<leftarrow> deliver arrived (L\<lparr>net := w\<rparr>);
       c \<leftarrow> heap L p;
       if is_really_recv c then Some (True, L)
       else do {
         L \<leftarrow> set_error p ERR_RECV_TIMEOUT L;
         Some (False, L)
       }
     }
   }"

definition is_connected :: "ptr \<Rightarrow> 'w lib \<Rightarrow> bool option" where
  "is_connected p L =
     map_option (\<lambda>c. conn_id c \<noteq> cl_invalid \<and> bh_is_connected (conn_id c) L) (heap L p)"

definition open_connection :: "'w net_env \<Rightarrow> ptr \<Rightarrow> 'w lib \<Rightarrow> (bool \<times> 'w lib) option" where
  "open_connection env p L = do {
     L \<leftarrow> clr_errors p L;
     (conn, L) \<leftarrow> bh_connect env p L;
     L \<leftarrow> upd p (\<lambda>c. c\<lparr>conn_id := conn\<rparr>) L;
     if conn = cl_invalid then do { L \<leftarrow> set_error p ERR_NO_CONNECTION L; Some (False, L) }
     else Some (True, L)
   }"

definition disconnect :: "'w net_env \<Rightarrow> ptr \<Rightarrow> 'w lib \<Rightarrow> 'w lib option" where
  "disconnect env p L = do {
     c \<leftarrow> heap L p;
     upd p (\<lambda>c. c\<lparr>conn_id := cl_invalid\<rparr>) (bh_disconnect env (conn_id c) L)
   }"

definition decrement_server_protocol_version :: "ptr \<Rightarrow> 'w lib \<Rightarrow> 'w lib option" where
  "decrement_server_protocol_version p =
     upd p (\<lambda>c. c\<lparr>server_protocol_version :=
       (if server_protocol_version c > 1 then server_protocol_version c - 1
        else ucast (major xbc_get_last_protocol_version))\<rparr>)"

text \<open>
  A protocol object for the client's version: errors it reports land in \<open>_last_error\<close>. The packet
  received is parsed as it is.
\<close>

definition make_protocol :: "u32 \<Rightarrow> client \<Rightarrow> (proto_class \<times> aproto) option" where
  "make_protocol u c = create_appropriate_protocol (server_protocol_version c) (last_error c) u"

definition parse_received ::
    "u32 \<Rightarrow> ptr \<Rightarrow> proto_class \<times> aproto \<Rightarrow> 'w lib \<Rightarrow> (client_data \<times> 'w lib) option" where
  "parse_received u p pr L = do {
     c \<leftarrow> heap L p;
     r \<leftarrow> get_data_from_bindy_callback (fst pr) ((snd pr)\<lparr>perror := last_error c\<rparr>)
            (MBuf_data (recv_message c) True) u;
     L \<leftarrow> set_error p (perror (cd_proto r)) L;
     Some (r, L)
   }"

text \<open>
  The version of the packet received against the client's: \<open>True\<close> when they differ, with the
  client switched to the packet's.
\<close>

definition other_version :: "ptr \<Rightarrow> 'w lib \<Rightarrow> (bool \<times> 'w lib) option" where
  "other_version p L = do {
     c \<leftarrow> heap L p;
     let answer_version = get_version_of_cmd (recv_message c);
     if answer_version \<noteq> server_protocol_version c then do {
       L \<leftarrow> upd p (\<lambda>c. c\<lparr>server_protocol_version := answer_version, last_error := ERR_ANOTHER_PROTOCOL\<rparr>) L;
       Some (True, L)
     } else Some (False, L)
   }"

definition fail_with :: "ptr \<Rightarrow> u32 \<Rightarrow> 'r \<Rightarrow> 'w lib \<Rightarrow> ('r \<times> 'w lib) option" where
  "fail_with p e r L = do { L \<leftarrow> set_error p e L; Some (r, L) }"

section \<open>Operations on a device\<close>

definition open_device :: "'w net_env \<Rightarrow> u32 \<Rightarrow> ptr \<Rightarrow> 'w lib \<Rightarrow> (bool \<times> 'w lib) option" where
  "open_device env u p L = do {
     L \<leftarrow> clr_errors p L;
     c \<leftarrow> heap L p;
     case make_protocol u c of
       None \<Rightarrow> fail_with p ERR_NO_PROTOCOL False L
     | Some pr \<Rightarrow> do {
         let req = create_open_request (fst pr) (client_dev_id c) 3000;
         if length req = 0 then fail_with p ERR_NO_PROTOCOL False L
         else do {
           (got, L) \<leftarrow> send_and_receive env p req L;
           if \<not> got then Some (False, L)
           else do {
             (differs, L) \<leftarrow> other_version p L;
             if differs then Some (False, L)
             else do {
               (r, L) \<leftarrow> parse_received u p pr L;
               if \<not> cd_ok r then Some (False, L)
               else do {
                 let (pr', res) = translate_response (fst pr) (cd_proto r) (cd_pckt r) (cd_res r);
                 L \<leftarrow> set_error p (perror pr') L;
                 if \<not> res then fail_with p ERR_DEVICE_OPEN False L
                 else Some (True, L)
               }
             }
           }
         }
       }
   }"

definition send_data_and_receive ::
    "'w net_env \<Rightarrow> u32 \<Rightarrow> ptr \<Rightarrow> bvector \<Rightarrow> u32 \<Rightarrow> 'w lib \<Rightarrow> (bvector \<times> 'w lib) option" where
  "send_data_and_receive env u p data resp_length L = do {
     L \<leftarrow> clr_errors p L;
     connected \<leftarrow> is_connected p L;
     if \<not> connected then fail_with p ERR_NO_CONNECTION [] L
     else do {
       c \<leftarrow> heap L p;
       case make_protocol u c of
         None \<Rightarrow> fail_with p ERR_NO_PROTOCOL [] L
       | Some pr \<Rightarrow> do {
           req \<leftarrow> create_cmd_request (fst pr) (client_dev_id c) 3000 (Some data) resp_length;
           if length req = 0 then fail_with p ERR_NO_PROTOCOL [] L
           else do {
             (got, L) \<leftarrow> send_and_receive env p req L;
             if \<not> got then Some ([], L)
             else do {
               (r, L) \<leftarrow> parse_received u p pr L;
               if \<not> cd_ok r then Some ([], L) else Some (cd_data r, L)
             }
           }
         }
     }
   }"

text \<open>The close: the packet type is \<open>u\<close> when the answer does not parse; the verdict is overwritten.\<close>

definition close_connection_device :: "'w net_env \<Rightarrow> u32 \<Rightarrow> ptr \<Rightarrow> 'w lib \<Rightarrow> (bool \<times> 'w lib) option" where
  "close_connection_device env u p L = do {
     L \<leftarrow> clr_errors p L;
     connected \<leftarrow> is_connected p L;
     if \<not> connected then fail_with p ERR_NO_CONNECTION False L
     else do {
       c \<leftarrow> heap L p;
       case make_protocol u c of
         None \<Rightarrow> fail_with p ERR_NO_PROTOCOL False L
       | Some pr \<Rightarrow> do {
           let req = create_close_request (fst pr) (client_dev_id c) 3000;
           if length req = 0 then fail_with p ERR_NO_PROTOCOL False L
           else do {
             (got, L) \<leftarrow> send_and_receive env p req L;
             (ret, L) \<leftarrow> (if got then do {
                 (r, L) \<leftarrow> parse_received u p pr L;
                 let (pr', res) = translate_response (fst pr) (cd_proto r) (cd_pckt r) (cd_res r);
                 L \<leftarrow> set_error p (perror pr') L;
                 Some (res, L)
               } else Some (False, L));
             L \<leftarrow> disconnect env p L;
             Some (ret, L)
           }
         }
     }
   }"

definition exec_version_request ::
    "'w net_env \<Rightarrow> u32 \<Rightarrow> ptr \<Rightarrow> bool \<Rightarrow> 'w lib \<Rightarrow> (version option \<times> 'w lib) option" where
  "exec_version_request env u p has_out L = do {
     L \<leftarrow> clr_errors p L;
     if \<not> has_out then fail_with p ERR_NULLPTR_PARAM None L
     else do {
       L \<leftarrow> upd p (\<lambda>c. c\<lparr>server_protocol_version := ucast (major xbc_get_last_protocol_version)\<rparr>) L;
       c \<leftarrow> heap L p;
       case make_protocol u c of
         None \<Rightarrow> fail_with p ERR_NO_PROTOCOL None L
       | Some pr \<Rightarrow> do {
           let req = create_version_request (fst pr) 3000;
           if length req = 0 then fail_with p ERR_NO_PROTOCOL None L
           else do {
             (got, L) \<leftarrow> send_and_receive env p req L;
             if \<not> got then Some (None, L)
             else do {
               (r, L) \<leftarrow> parse_received u p pr L;
               if \<not> cd_ok r then fail_with p ERR_NO_PROTOCOL None L
               else Some (Some \<lparr>major = ucast (res_err (cd_proto r)), minor = 0, bagfix = 0\<rparr>, L)
             }
           }
         }
     }
   }"

text \<open>
  The enumeration: what is at \<open>*result\<close> (\<open>None\<close> is null) and the count. The buffer for the URIs has
  its size computed as an \<open>int\<close>; a negative one cannot be allocated.
\<close>

definition exec_enumerate ::
    "'w net_env \<Rightarrow> u32 \<Rightarrow> ptr \<Rightarrow> bool \<Rightarrow> 'w lib \<Rightarrow> ((bool \<times> bvector option \<times> u32) \<times> 'w lib) option" where
  "exec_enumerate env u p has_out L = do {
     L \<leftarrow> clr_errors p L;
     if \<not> has_out then fail_with p ERR_NULLPTR_PARAM (False, None, 0) L
     else do {
       c \<leftarrow> heap L p;
       case make_protocol u c of
         None \<Rightarrow> fail_with p ERR_NO_PROTOCOL (False, None, 0) L
       | Some pr \<Rightarrow> do {
           let req = create_enum_request (fst pr) 3000;
           if length req = 0 then fail_with p ERR_NO_PROTOCOL (False, None, 0) L
           else do {
             (got, L) \<leftarrow> send_and_receive env p req L;
             if \<not> got then Some ((False, None, 0), L)
             else do {
               (differs, L) \<leftarrow> other_version p L;
               if differs then Some ((False, None, 0), L)
               else do {
                 (r, L) \<leftarrow> parse_received u p pr L;
                 if \<not> cd_ok r then Some ((False, None, 0), L)
                 else do {
                   let num_devs = sint (res_err (cd_proto r));
                   if num_devs = 0 then Some ((True, None, 0), L)
                   else do {
                     let bytes = c_int (int (length (host c) + 12 * 2 + 16) * num_devs);
                     if bytes < 0 then None
                     else do {
                       (res, ok) \<leftarrow> xi_net_dev_uris (MBuf_size bytes False) (host c) (cd_data r) num_devs;
                       Some ((True, Some (take (realSize res) (origin_data res)), word_of_int num_devs), L)
                     }
                   }
                 }
               }
             }
           }
         }
     }
   }"

section \<open>The static interface\<close>

text \<open>Response bytes: at most \<open>resp_len\<close>, when there is a buffer.\<close>

definition xbc_request_response ::
    "'w net_env \<Rightarrow> u32 \<Rightarrow> conn_t option \<Rightarrow> bvector \<Rightarrow> bool \<Rightarrow> u32 \<Rightarrow> 'w lib \<Rightarrow> ((u32 \<times> bvector) \<times> 'w lib) option" where
  "xbc_request_response env u pconn req has_resp resp_len L =
     (case pconn of
        None \<Rightarrow> Some ((ERR_NULLPTR_PARAM, []), L)
      | Some conn \<Rightarrow>
          (case get_client_as_free (ct_conn_id conn) L of
             None \<Rightarrow> Some ((ERR_NO_CONNECTION, []), L)
           | Some p \<Rightarrow> do {
               (response, L) \<leftarrow> send_data_and_receive env u p (to_vector (MBuf_data req True) False) resp_len L;
               e \<leftarrow> get_last_error p L;
               Some ((e, if has_resp \<and> resp_len \<noteq> 0 then take (unat resp_len) response else []), L)
             }))"

definition xbc_close_connection_device ::
    "'w net_env \<Rightarrow> u32 \<Rightarrow> conn_t option \<Rightarrow> 'w lib \<Rightarrow> (u32 \<times> 'w lib) option" where
  "xbc_close_connection_device env u pconn L =
     (case pconn of
        None \<Rightarrow> Some (ERR_NULLPTR_PARAM, L)
      | Some conn \<Rightarrow>
          (case get_client_as_free (ct_conn_id conn) L of
             None \<Rightarrow> Some (0, L)
           | Some p \<Rightarrow> do {
               (ret, L) \<leftarrow> close_connection_device env u p L;
               Some (0, delete_client p L)
             }))"

text \<open>Reading what has arrived as it is: code, bytes, and the client keeps the rest.\<close>

definition xbc_read_connection_buffer ::
    "conn_t option \<Rightarrow> u32 \<Rightarrow> 'w lib \<Rightarrow> ((u32 \<times> bvector) \<times> 'w lib) option" where
  "xbc_read_connection_buffer pconn sz L =
     (case pconn of
        None \<Rightarrow> Some ((ERR_NULLPTR_PARAM, []), L)
      | Some conn \<Rightarrow>
          (case get_client_as_free (ct_conn_id conn) L of
             None \<Rightarrow> Some ((ERR_NO_CONNECTION, []), L)
           | Some p \<Rightarrow> do {
               L \<leftarrow> clr_errors p L;
               c \<leftarrow> heap L p;
               let real_size = (word_of_nat (length (recv_message c)) :: u32);
               let (sz, clear) = (if real_size \<le> sz then (real_size, True) else (sz, False));
               let bs = take (unat sz) (recv_message c);
               L \<leftarrow> upd p (\<lambda>c. c\<lparr>recv_message := (if clear then [] else drop (unat sz) (recv_message c))\<rparr>) L;
               e \<leftarrow> get_last_error p L;
               Some ((e, bs), L)
             }))"

definition xbc_write_connection ::
    "'w net_env \<Rightarrow> conn_t option \<Rightarrow> bvector \<Rightarrow> 'w lib \<Rightarrow> (u32 \<times> 'w lib) option" where
  "xbc_write_connection env pconn buf L =
     (case pconn of
        None \<Rightarrow> Some (ERR_NULLPTR_PARAM, L)
      | Some conn \<Rightarrow>
          (case get_client_as_free (ct_conn_id conn) L of
             None \<Rightarrow> Some (ERR_NO_CONNECTION, L)
           | Some p \<Rightarrow> do {
               L \<leftarrow> clr_errors p L;
               let L = snd (send_bindy_data env (ct_conn_id conn) buf L);
               e \<leftarrow> get_last_error p L;
               Some (e, L)
             }))"

end
