(* ===== verification/Xibridge_Api.thy ===== *)
theory Xibridge_Api
  imports Client
begin

text \<open>
  The library's interface, \<open>client/xibridge.cpp\<close>: opening a device connection and enumerating with
  the search for a protocol version that the server answers, and the calls that pass on to the
  client.
\<close>

section \<open>Opening\<close>

text \<open>
  One round and the loop over the rounds. A round ends the search with a code, ends everything
  because there is no connection (the client is deleted), or asks for another round.
\<close>

datatype 'r round = No_conn u32 | Stop u32 'r | Again u32 'r

definition no_connection :: "ptr \<Rightarrow> 'w lib \<Rightarrow> ('r round \<times> 'w lib) option" where
  "no_connection p L = do { e \<leftarrow> get_last_error p L; Some (No_conn e, delete_client p L) }"

definition open_round :: "'w net_env \<Rightarrow> u32 \<Rightarrow> ptr \<Rightarrow> 'w lib \<Rightarrow> (unit round \<times> 'w lib) option" where
  "open_round env u p L = do {
     (ok, L) \<leftarrow> open_connection env p L;
     if \<not> ok then no_connection p L
     else do {
       L \<leftarrow> clr_errors p L;
       (z, L) \<leftarrow> open_device env u p L;
       res_err \<leftarrow> get_last_error p L;
       if res_err = ERR_ANOTHER_PROTOCOL then do {
         L \<leftarrow> clr_errors p L;
         L \<leftarrow> disconnect env p L;
         (ok, L) \<leftarrow> open_connection env p L;
         if \<not> ok then no_connection p L
         else do {
           (z, L) \<leftarrow> open_device env u p L;
           res_err \<leftarrow> get_last_error p L;
           Some (Stop res_err (), L)
         }
       }
       else if res_err = ERR_RECV_TIMEOUT then do {
         L \<leftarrow> decrement_server_protocol_version p L;
         L \<leftarrow> disconnect env p L;
         Some (Again res_err (), L)
       }
       else Some (Stop res_err (), L)
     }
   }"

text \<open>\<open>while (ncount--)\<close> around rounds; the result so far comes out when the count is used up.\<close>

fun rounds :: "nat \<Rightarrow> ('w lib \<Rightarrow> ('r round \<times> 'w lib) option) \<Rightarrow> u32 \<times> 'r \<Rightarrow> 'w lib \<Rightarrow> ('r round \<times> 'w lib) option" where
  "rounds 0 one (e, r) L = Some (Stop e r, L)"
| "rounds (Suc ncount) one (e, r) L = do {
     (x, L) \<leftarrow> one L;
     case x of
       Again e r \<Rightarrow> rounds ncount one (e, r) L
     | _ \<Rightarrow> Some (x, L)
   }"

text \<open>The code and \<open>*pconn\<close>; \<open>junk\<close> is the identifier in an object that nobody set.\<close>

definition xibridge_open_device_connection ::
    "'w net_env \<Rightarrow> u32 \<Rightarrow> devid \<Rightarrow> string \<Rightarrow> bool \<Rightarrow> 'w lib \<Rightarrow> ((u32 \<times> conn_t option) \<times> 'w lib) option" where
  "xibridge_open_device_connection env u junk xi_net_uri has_out L =
     (if \<not> has_out then Some ((ERR_NULLPTR_PARAM, None), L)
      else do {
        (p, L) \<leftarrow> new_client u junk xi_net_uri None L;
        (x, L) \<leftarrow> rounds (unat (major xbc_get_last_protocol_version)) (open_round env u p) (u, ()) L;
        case x of
          No_conn e \<Rightarrow> Some ((e, None), L)
        | Again e r \<Rightarrow> None
        | Stop e r \<Rightarrow>
            if e \<noteq> 0 then do {
              L \<leftarrow> disconnect env p L;
              Some ((e, None), delete_client p L)
            } else do {
              c \<leftarrow> heap L p;
              Some ((e, Some (to_xibridge_conn_t c)), L)
            }
      })"

section \<open>Enumerating\<close>

definition enum_round ::
    "'w net_env \<Rightarrow> u32 \<Rightarrow> ptr \<Rightarrow> 'w lib \<Rightarrow> ((bvector option \<times> u32) round \<times> 'w lib) option" where
  "enum_round env u p L = do {
     L \<leftarrow> clr_errors p L;
     (ok, L) \<leftarrow> open_connection env p L;
     if \<not> ok then no_connection p L
     else do {
       ((z, res, count), L) \<leftarrow> exec_enumerate env u p True L;
       res_err \<leftarrow> get_last_error p L;
       if res_err = ERR_ANOTHER_PROTOCOL then do {
         L \<leftarrow> clr_errors p L;
         L \<leftarrow> disconnect env p L;
         (ok, L) \<leftarrow> open_connection env p L;
         if \<not> ok then no_connection p L
         else do {
           ((z, res, count), L) \<leftarrow> exec_enumerate env u p True L;
           res_err \<leftarrow> get_last_error p L;
           Some (Stop res_err (res, count), L)
         }
       }
       else if res_err = ERR_RECV_TIMEOUT \<or> res_err = ERR_NO_PROTOCOL then do {
         L \<leftarrow> decrement_server_protocol_version p L;
         L \<leftarrow> disconnect env p L;
         Some (Again res_err (res, count), L)
       }
       else Some (Stop res_err (res, count), L)
     }
   }"

definition xibridge_enumerate_adapter_devices ::
    "'w net_env \<Rightarrow> u32 \<Rightarrow> devid \<Rightarrow> string \<Rightarrow> string option \<Rightarrow> bool \<Rightarrow> 'w lib \<Rightarrow>
     ((u32 \<times> bvector option \<times> u32) \<times> 'w lib) option" where
  "xibridge_enumerate_adapter_devices env u junk addr adapt has_out L =
     (if \<not> has_out then Some ((ERR_NULLPTR_PARAM, None, 0), L)
      else do {
        (p, L) \<leftarrow> new_client u junk addr (Some (case adapt of None \<Rightarrow> [] | Some a \<Rightarrow> a)) L;
        (x, L) \<leftarrow> rounds (unat (major xbc_get_last_protocol_version)) (enum_round env u p) (u, (None, 0)) L;
        case x of
          No_conn e \<Rightarrow> Some ((e, None, 0), L)
        | Again e r \<Rightarrow> None
        | Stop e (res, count) \<Rightarrow> do {
            L \<leftarrow> disconnect env p L;
            Some ((e, res, count), delete_client p L)
          }
      })"

section \<open>The other calls\<close>

definition xibridge_get_server_last_protocol_version ::
    "'w net_env \<Rightarrow> u32 \<Rightarrow> devid \<Rightarrow> string \<Rightarrow> bool \<Rightarrow> 'w lib \<Rightarrow> ((u32 \<times> version option) \<times> 'w lib) option" where
  "xibridge_get_server_last_protocol_version env u junk addr has_out L =
     (if \<not> has_out then Some ((ERR_NULLPTR_PARAM, None), L)
      else do {
        (p, L) \<leftarrow> new_client u junk addr (Some []) L;
        (ok, L) \<leftarrow> open_connection env p L;
        if \<not> ok then do {
          e \<leftarrow> get_last_error p L;
          Some ((e, None), delete_client p L)
        } else do {
          (v, L) \<leftarrow> exec_version_request env u p True L;
          e \<leftarrow> get_last_error p L;
          L \<leftarrow> disconnect env p L;
          Some ((e, v), delete_client p L)
        }
      })"

definition xibridge_close_device_connection ::
    "'w net_env \<Rightarrow> u32 \<Rightarrow> conn_t option \<Rightarrow> 'w lib \<Rightarrow> (u32 \<times> 'w lib) option" where
  "xibridge_close_device_connection env u pconn L = xbc_close_connection_device env u pconn L"

definition xibridge_device_request_response ::
    "'w net_env \<Rightarrow> u32 \<Rightarrow> conn_t option \<Rightarrow> bvector \<Rightarrow> bool \<Rightarrow> u32 \<Rightarrow> 'w lib \<Rightarrow> ((u32 \<times> bvector) \<times> 'w lib) option" where
  "xibridge_device_request_response env u pconn req has_resp resp_len L =
     xbc_request_response env u pconn req has_resp resp_len L"

definition xibridge_set_base_protocol_version :: "version \<Rightarrow> 'w lib \<Rightarrow> u32 \<times> 'w lib" where
  "xibridge_set_base_protocol_version ver L = xbc_set_base_protocol_version ver L"

definition xibridge_get_connection_protocol_version :: "conn_t option \<Rightarrow> 'w lib \<Rightarrow> version option" where
  "xibridge_get_connection_protocol_version pconn L = xbc_get_connection_protocol_version pconn L"

definition xibridge_get_err_expl :: "u32 \<Rightarrow> string option" where
  "xibridge_get_err_expl err_no = xbc_get_err_expl err_no"

end
