(* ===== verification/Xib_Com.thy ===== *)
theory Xib_Com
  imports Prelude
begin

text \<open>
  What \<open>server/xib-serial/xib_com.h\<close> declares for both sides of it, the table of devices above and
  the serial layer below: handles of open ports and the result codes.
\<close>

type_synonym handle = nat

definition xib_result_ok :: int where "xib_result_ok = 0"
definition xib_result_error :: int where "xib_result_error = -1"
definition xib_result_value_error :: int where "xib_result_value_error = -3"
definition xib_result_nodevice :: int where "xib_result_nodevice = -4"
definition xib_result_timeout :: int where "xib_result_timeout = -5"

lemmas xib_result_defs =
  xib_result_ok_def xib_result_error_def xib_result_value_error_def xib_result_nodevice_def
  xib_result_timeout_def

end
