(* ===== verification/Ordered_Map.thy ===== *)
theory Ordered_Map
  imports DevId
begin

text \<open>
  The \<open>std::map\<close> keyed by \<open>DevId\<close> that the server's classes are built on: \<open>find\<close>, \<open>operator[]\<close>,
  \<open>erase\<close> and iteration, over the comparison \<open>operator <\<close> of the keys. Two keys are the same when
  neither is less than the other. The contract the server relies on is the locale \<open>key_map\<close>, with
  the model as its interpretation. (On keys that the comparison does not order \<open>std::map\<close> itself
  promises nothing; the theory \<open>Buffer_Properties\<close> says which keys those are.)
\<close>

section \<open>Operations\<close>

type_synonym 'v dev_map = "(devid \<times> 'v) list"

fun map_find :: "devid \<Rightarrow> 'v dev_map \<Rightarrow> 'v option" where
  "map_find k [] = None"
| "map_find k ((k', v) # m) = (if devid_equiv k k' then Some v else map_find k m)"

text \<open>Storing under a key: the old key stays if there is an equivalent one.\<close>

fun map_replace :: "devid \<Rightarrow> 'v \<Rightarrow> 'v dev_map \<Rightarrow> 'v dev_map" where
  "map_replace k v [] = []"
| "map_replace k v ((k', v') # m) = (if devid_equiv k k' then (k', v) # m else (k', v') # map_replace k v m)"

fun map_insert :: "devid \<Rightarrow> 'v \<Rightarrow> 'v dev_map \<Rightarrow> 'v dev_map" where
  "map_insert k v [] = [(k, v)]"
| "map_insert k v ((k', v') # m) =
     (if devid_less k k' then (k, v) # (k', v') # m else (k', v') # map_insert k v m)"

definition map_store :: "devid \<Rightarrow> 'v \<Rightarrow> 'v dev_map \<Rightarrow> 'v dev_map" where
  "map_store k v m = (case map_find k m of None \<Rightarrow> map_insert k v m | Some w \<Rightarrow> map_replace k v m)"

text \<open>\<open>m[k]\<close> as an lvalue: an absent key is inserted with the default value.\<close>

definition map_index :: "'v \<Rightarrow> devid \<Rightarrow> 'v dev_map \<Rightarrow> 'v dev_map" where
  "map_index dflt k m = (case map_find k m of None \<Rightarrow> map_insert k dflt m | Some w \<Rightarrow> m)"

definition map_erase :: "devid \<Rightarrow> 'v dev_map \<Rightarrow> 'v dev_map" where
  "map_erase k m = filter (\<lambda>(k', v). \<not> devid_equiv k k') m"

section \<open>The contract\<close>

locale key_map =
  fixes find :: "'k \<Rightarrow> 'm \<Rightarrow> 'v option"
    and store :: "'k \<Rightarrow> 'v \<Rightarrow> 'm \<Rightarrow> 'm"
    and index :: "'v \<Rightarrow> 'k \<Rightarrow> 'm \<Rightarrow> 'm"
    and erase :: "'k \<Rightarrow> 'm \<Rightarrow> 'm"
    and same :: "'k \<Rightarrow> 'k \<Rightarrow> bool"
  assumes same_refl: "same k k"
    and same_sym: "same k k' \<Longrightarrow> same k' k"
    and same_trans: "same k k' \<Longrightarrow> same k' k'' \<Longrightarrow> same k k''"
    and find_same: "same k k' \<Longrightarrow> find k m = find k' m"
    and find_store: "find k (store k' v m) = (if same k k' then Some v else find k m)"
    and find_erase: "find k (erase k' m) = (if same k k' then None else find k m)"
    and index_store: "index d k m = (if find k m = None then store k d m else m)"
begin

lemma find_index:
  "find k (index d k' m) = (if same k k' \<and> find k m = None then Some d else find k m)"
  using find_same [of k k' m] by (auto simp: index_store find_store)

lemma store_own: "find k (store k v m) = Some v"
  by (simp add: find_store same_refl)

lemma index_there: "find k (index d k m) \<noteq> None"
  by (simp add: find_index same_refl)

lemma erase_own: "find k (erase k m) = None"
  by (simp add: find_erase same_refl)

text \<open>Inserting an absent key, storing a value and taking it out again leaves every lookup as it was.\<close>

lemma store_erase:
  assumes "find k m = None"
  shows "find k' (erase k (store k v m)) = find k' m"
  using assms find_same [of k' k m] by (simp add: find_erase find_store)

end

lemma map_find_same: "devid_equiv k k' \<Longrightarrow> map_find k m = map_find k' m"
  by (induction m) (auto simp: devid_equiv_alt)

lemma map_find_insert:
  "map_find k' m = None \<Longrightarrow> map_find k (map_insert k' v m) = (if devid_equiv k k' then Some v else map_find k m)"
proof (induction m)
  case (Cons e m)
  obtain a b where e: "e = (a, b)" by (cases e)
  from Cons.prems e have "\<not> devid_equiv k' a" "map_find k' m = None" by (auto split: if_splits)
  then have "devid_equiv k k' \<Longrightarrow> \<not> devid_equiv k a" by (auto simp: devid_equiv_alt)
  with Cons.IH \<open>map_find k' m = None\<close> e show ?case by auto
qed simp

lemma map_find_replace:
  "map_find k' m = Some w \<Longrightarrow> map_find k (map_replace k' v m) = (if devid_equiv k k' then Some v else map_find k m)"
  by (induction m) (auto simp: devid_equiv_alt split: if_splits)

lemma map_find_erase: "map_find k (map_erase k' m) = (if devid_equiv k k' then None else map_find k m)"
  unfolding map_erase_def by (induction m) (auto simp: devid_equiv_alt)

interpretation dm: key_map map_find map_store map_index map_erase devid_equiv
proof unfold_locales
  fix k k' k'' :: devid and m :: "'b dev_map" and v d :: 'b
  show "devid_equiv k k" by simp
  show "devid_equiv k k' \<Longrightarrow> devid_equiv k' k" by (simp add: devid_equiv_sym)
  show "devid_equiv k k' \<Longrightarrow> devid_equiv k' k'' \<Longrightarrow> devid_equiv k k''" by (rule devid_equiv_trans)
  show "devid_equiv k k' \<Longrightarrow> map_find k m = map_find k' m" by (rule map_find_same)
  show "map_find k (map_store k' v m) = (if devid_equiv k k' then Some v else map_find k m)"
    by (auto simp: map_store_def map_find_insert map_find_replace split: option.splits)
  show "map_find k (map_erase k' m) = (if devid_equiv k k' then None else map_find k m)"
    by (rule map_find_erase)
  show "map_index d k m = (if map_find k m = None then map_store k d m else m)"
    by (auto simp: map_index_def map_store_def split: option.splits)
qed

end
