(* ===== verification/RW_Lock.thy ===== *)
theory RW_Lock
  imports Prelude
begin

text \<open>
  The write-preference lock \<open>ReadWriteLock\<close> of \<open>server/rw_lock.h\<close>. Its methods run under one
  mutex, so each runs as one step up to the wait on a condition variable; a wait splits a method
  into an entry, a sleep and a retry. The lock's counters are \<open>uint32_t\<close>; the sleeping and the
  notified threads, which the condition variables keep, are part of the threads' positions.
  The lemmas: the counters count the threads, readers and writers exclude each other, and no
  wake-up is lost.
\<close>

section \<open>The lock's methods\<close>

record rwlock =
  nread :: u32
  nread_waiters :: u32
  nwrite :: u32
  nwrite_waiters :: u32

definition ReadWriteLock :: rwlock where
  "ReadWriteLock = \<lparr>nread = 0, nread_waiters = 0, nwrite = 0, nwrite_waiters = 0\<rparr>"

text \<open>The two conditions that the code tests before and in its loops.\<close>

definition reader_blocked :: "rwlock \<Rightarrow> bool" where
  "reader_blocked l \<longleftrightarrow> nwrite l \<noteq> 0 \<or> nwrite_waiters l \<noteq> 0"

definition writer_blocked :: "rwlock \<Rightarrow> bool" where
  "writer_blocked l \<longleftrightarrow> nread l \<noteq> 0 \<or> nwrite l \<noteq> 0"

text \<open>
  \<open>read_lock\<close> and \<open>write_lock\<close> from their entry to the first wait, and from a wake-up to the
  next wait; the flag says whether the lock has been taken.
\<close>

definition read_lock_enter :: "rwlock \<Rightarrow> rwlock \<times> bool" where
  "read_lock_enter l =
     (if reader_blocked l then (l\<lparr>nread_waiters := nread_waiters l + 1\<rparr>, False)
      else (l\<lparr>nread := nread l + 1\<rparr>, True))"

definition read_lock_retry :: "rwlock \<Rightarrow> rwlock \<times> bool" where
  "read_lock_retry l =
     (if reader_blocked l then (l, False)
      else (l\<lparr>nread_waiters := nread_waiters l - 1, nread := nread l + 1\<rparr>, True))"

definition write_lock_enter :: "rwlock \<Rightarrow> rwlock \<times> bool" where
  "write_lock_enter l =
     (if writer_blocked l then (l\<lparr>nwrite_waiters := nwrite_waiters l + 1\<rparr>, False)
      else (l\<lparr>nwrite := nwrite l + 1\<rparr>, True))"

definition write_lock_retry :: "rwlock \<Rightarrow> rwlock \<times> bool" where
  "write_lock_retry l =
     (if writer_blocked l then (l, False)
      else (l\<lparr>nwrite_waiters := nwrite_waiters l - 1, nwrite := nwrite l + 1\<rparr>, True))"

text \<open>The unlocks and whom they notify.\<close>

datatype notify = Nobody | OneWriter | AllReaders

definition read_unlock :: "rwlock \<Rightarrow> rwlock \<times> notify" where
  "read_unlock l =
     (let l = l\<lparr>nread := nread l - 1\<rparr>
      in (l, if nwrite_waiters l \<noteq> 0 then OneWriter else Nobody))"

definition write_unlock :: "rwlock \<Rightarrow> rwlock \<times> notify" where
  "write_unlock l =
     (let l = l\<lparr>nwrite := nwrite l - 1\<rparr>
      in (l, if nwrite_waiters l \<noteq> 0 then OneWriter
             else if nread_waiters l \<noteq> 0 then AllReaders else Nobody))"

definition is_write_lock_requested :: "rwlock \<Rightarrow> bool" where
  "is_write_lock_requested l \<longleftrightarrow> nwrite l \<noteq> 0 \<or> nwrite_waiters l \<noteq> 0"

section \<open>Threads\<close>

text \<open>Where a thread is: outside, asleep in a wait, notified but not yet run, or holding the lock.\<close>

datatype pc = Idle | RSleep | RWoken | Reading | WSleep | WWoken | Writing

type_synonym rw_state = "rwlock \<times> pc list"

text \<open>
  What a notification does to the positions: one sleeping writer, chosen freely, is woken if there
  is any; or all sleeping readers are.
\<close>

inductive notified :: "notify \<Rightarrow> pc list \<Rightarrow> pc list \<Rightarrow> bool" where
  nobody: "notified Nobody ps ps"
| no_writer: "WSleep \<notin> set ps \<Longrightarrow> notified OneWriter ps ps"
| one_writer: "j < length ps \<Longrightarrow> ps ! j = WSleep \<Longrightarrow> notified OneWriter ps (ps[j := WWoken])"
| all_readers: "notified AllReaders ps (map (\<lambda>p. if p = RSleep then RWoken else p) ps)"

text \<open>One thread \<open>i\<close> moves. A sleeping thread may also wake up by itself.\<close>

inductive rw_step :: "rw_state \<Rightarrow> rw_state \<Rightarrow> bool" where
  rlock: "i < length ps \<Longrightarrow> ps ! i = Idle \<Longrightarrow> read_lock_enter l = (l', got) \<Longrightarrow>
    rw_step (l, ps) (l', ps[i := if got then Reading else RSleep])"
| rwake: "i < length ps \<Longrightarrow> ps ! i = RSleep \<Longrightarrow> rw_step (l, ps) (l, ps[i := RWoken])"
| rretry: "i < length ps \<Longrightarrow> ps ! i = RWoken \<Longrightarrow> read_lock_retry l = (l', got) \<Longrightarrow>
    rw_step (l, ps) (l', ps[i := if got then Reading else RSleep])"
| runlock: "i < length ps \<Longrightarrow> ps ! i = Reading \<Longrightarrow> read_unlock l = (l', n) \<Longrightarrow>
    notified n (ps[i := Idle]) ps' \<Longrightarrow> rw_step (l, ps) (l', ps')"
| wlock: "i < length ps \<Longrightarrow> ps ! i = Idle \<Longrightarrow> write_lock_enter l = (l', got) \<Longrightarrow>
    rw_step (l, ps) (l', ps[i := if got then Writing else WSleep])"
| wwake: "i < length ps \<Longrightarrow> ps ! i = WSleep \<Longrightarrow> rw_step (l, ps) (l, ps[i := WWoken])"
| wretry: "i < length ps \<Longrightarrow> ps ! i = WWoken \<Longrightarrow> write_lock_retry l = (l', got) \<Longrightarrow>
    rw_step (l, ps) (l', ps[i := if got then Writing else WSleep])"
| wunlock: "i < length ps \<Longrightarrow> ps ! i = Writing \<Longrightarrow> write_unlock l = (l', n) \<Longrightarrow>
    notified n (ps[i := Idle]) ps' \<Longrightarrow> rw_step (l, ps) (l', ps')"

inductive_cases notified_E: "notified n ps ps'"
inductive_cases rw_step_E: "rw_step (l, ps) s'"

text \<open>Reachable from \<open>n\<close> idle threads.\<close>

inductive rw_reach :: "nat \<Rightarrow> rw_state \<Rightarrow> bool" for n where
  start: "rw_reach n (ReadWriteLock, replicate n Idle)"
| step: "rw_reach n s \<Longrightarrow> rw_step s s' \<Longrightarrow> rw_reach n s'"

section \<open>The invariant\<close>

text \<open>Counting positions.\<close>

lemma count_update:
  "i < length ps \<Longrightarrow>
   count_list (ps[i := q]) p + (if ps ! i = p then 1 else 0) = count_list ps p + (if q = p then 1 else 0)"
proof (induction ps arbitrary: i)
  case (Cons x ps)
  show ?case using Cons.IH [of "i - 1"] Cons.prems by (cases i) auto
qed simp

text \<open>A thread leaves position \<open>old\<close> for position \<open>q\<close>.\<close>

lemma count_move:
  assumes "i < length ps" and "ps ! i = old" and "q \<noteq> old"
  shows "count_list (ps[i := q]) q = Suc (count_list ps q)"
    and "count_list ps old = Suc (count_list (ps[i := q]) old)"
    and "p \<noteq> q \<Longrightarrow> p \<noteq> old \<Longrightarrow> count_list (ps[i := q]) p = count_list ps p"
  using assms count_update [of i ps q q] count_update [of i ps q old] count_update [of i ps q p]
  by auto

lemma count_pos: "i < length ps \<Longrightarrow> 0 < count_list ps (ps ! i)"
  by (metis count_list_0_iff gr0I nth_mem)

lemma count_le2: "p \<noteq> q \<Longrightarrow> count_list ps p + count_list ps q \<le> length ps"
  by (induction ps) auto

lemma count_woken:
  "count_list (map (\<lambda>p. if p = RSleep then RWoken else p) ps) q =
     (if q = RSleep then 0 else if q = RWoken then count_list ps RSleep + count_list ps RWoken
      else count_list ps q)"
  by (induction ps) auto

lemma of_nat_u32_eq_0: "n < 2 ^ 32 \<Longrightarrow> (of_nat n :: u32) = 0 \<longleftrightarrow> n = 0"
  by (auto simp: word_of_nat_eq_0_iff dest: dvd_imp_le)

text \<open>
  The invariant over the numbers of threads: reading, asleep and woken readers, writing, asleep and
  woken writers. The counters count, holders exclude each other, a reader sleeps only while a
  writer holds or waits, and a writer sleeps only while someone holds or a writer is on its way.
\<close>

definition counts_inv :: "rwlock \<Rightarrow> nat \<Rightarrow> nat \<Rightarrow> nat \<Rightarrow> nat \<Rightarrow> nat \<Rightarrow> nat \<Rightarrow> bool" where
  "counts_inv l r rs rk w ws wk \<longleftrightarrow>
     nread l = of_nat r \<and> nread_waiters l = of_nat (rs + rk) \<and>
     nwrite l = of_nat w \<and> nwrite_waiters l = of_nat (ws + wk) \<and>
     w \<le> 1 \<and> (w = 0 \<or> r = 0) \<and>
     (rs = 0 \<or> 0 < w + ws + wk) \<and> (ws = 0 \<or> 0 < r + w + wk)"

definition rw_inv :: "rw_state \<Rightarrow> bool" where
  "rw_inv s \<longleftrightarrow> (case s of (l, ps) \<Rightarrow> length ps < 2 ^ 32 \<and>
     counts_inv l (count_list ps Reading) (count_list ps RSleep) (count_list ps RWoken)
       (count_list ps Writing) (count_list ps WSleep) (count_list ps WWoken))"

lemma blocked_counts:
  assumes "rw_inv (l, ps)"
  shows "reader_blocked l \<longleftrightarrow> 0 < count_list ps Writing + count_list ps WSleep + count_list ps WWoken"
    and "writer_blocked l \<longleftrightarrow> 0 < count_list ps Reading + count_list ps Writing"
    and "nwrite_waiters l = 0 \<longleftrightarrow> count_list ps WSleep + count_list ps WWoken = 0"
    and "nread_waiters l = 0 \<longleftrightarrow> count_list ps RSleep + count_list ps RWoken = 0"
proof -
  have "count_list ps p < 2 ^ 32" and "p \<noteq> q \<Longrightarrow> count_list ps p + count_list ps q < 2 ^ 32" for p q
    using assms count_le_length [of ps p] count_le2 [of p q ps] by (auto simp: rw_inv_def)
  note zero = this [THEN of_nat_u32_eq_0]
  show "reader_blocked l \<longleftrightarrow> 0 < count_list ps Writing + count_list ps WSleep + count_list ps WWoken"
    and "writer_blocked l \<longleftrightarrow> 0 < count_list ps Reading + count_list ps Writing"
    and "nwrite_waiters l = 0 \<longleftrightarrow> count_list ps WSleep + count_list ps WWoken = 0"
    and "nread_waiters l = 0 \<longleftrightarrow> count_list ps RSleep + count_list ps RWoken = 0"
    using assms zero(1) zero(2) [of WSleep WWoken] zero(2) [of RSleep RWoken]
    by (auto simp: rw_inv_def counts_inv_def reader_blocked_def writer_blocked_def simp del: of_nat_add)
qed

lemma notified_length: "notified n ps ps' \<Longrightarrow> length ps' = length ps"
  by (auto elim: notified_E)

lemma rw_inv_start: "n < 2 ^ 32 \<Longrightarrow> rw_inv (ReadWriteLock, replicate n Idle)"
proof -
  have "p \<noteq> Idle \<Longrightarrow> count_list (replicate n Idle) p = 0" for p
    by (simp add: count_list_0_iff)
  then show "n < 2 ^ 32 \<Longrightarrow> ?thesis" by (simp add: rw_inv_def counts_inv_def ReadWriteLock_def)
qed

subsection \<open>The methods on the counts\<close>

lemma counts_read_enter:
  "counts_inv l r rs rk w ws wk \<Longrightarrow> w + ws + wk = 0 \<Longrightarrow>
   counts_inv (l\<lparr>nread := nread l + 1\<rparr>) (Suc r) rs rk w ws wk"
  "counts_inv l r rs rk w ws wk \<Longrightarrow> 0 < w + ws + wk \<Longrightarrow>
   counts_inv (l\<lparr>nread_waiters := nread_waiters l + 1\<rparr>) r (Suc rs) rk w ws wk"
  by (auto simp: counts_inv_def)

lemma counts_write_enter:
  "counts_inv l r rs rk w ws wk \<Longrightarrow> r + w = 0 \<Longrightarrow>
   counts_inv (l\<lparr>nwrite := nwrite l + 1\<rparr>) r rs rk (Suc w) ws wk"
  "counts_inv l r rs rk w ws wk \<Longrightarrow> 0 < r + w \<Longrightarrow>
   counts_inv (l\<lparr>nwrite_waiters := nwrite_waiters l + 1\<rparr>) r rs rk w (Suc ws) wk"
  by (auto simp: counts_inv_def)

lemma counts_read_retry:
  "counts_inv l r rs (Suc rk) w ws wk \<Longrightarrow> w + ws + wk = 0 \<Longrightarrow>
   counts_inv (l\<lparr>nread_waiters := nread_waiters l - 1, nread := nread l + 1\<rparr>) (Suc r) rs rk w ws wk"
  "counts_inv l r rs (Suc rk) w ws wk \<Longrightarrow> 0 < w + ws + wk \<Longrightarrow> counts_inv l r (Suc rs) rk w ws wk"
  by (auto simp: counts_inv_def)

lemma counts_write_retry:
  "counts_inv l r rs rk w ws (Suc wk) \<Longrightarrow> r + w = 0 \<Longrightarrow>
   counts_inv (l\<lparr>nwrite_waiters := nwrite_waiters l - 1, nwrite := nwrite l + 1\<rparr>) r rs rk (Suc w) ws wk"
  "counts_inv l r rs rk w ws (Suc wk) \<Longrightarrow> 0 < r + w \<Longrightarrow> counts_inv l r rs rk w (Suc ws) wk"
  by (auto simp: counts_inv_def)

lemma counts_wake:
  "counts_inv l r (Suc rs) rk w ws wk \<Longrightarrow> counts_inv l r rs (Suc rk) w ws wk"
  "counts_inv l r rs rk w (Suc ws) wk \<Longrightarrow> counts_inv l r rs rk w ws (Suc wk)"
  by (auto simp: counts_inv_def)

lemma counts_read_unlock:
  "counts_inv l (Suc r) rs rk w 0 wk \<Longrightarrow> counts_inv (l\<lparr>nread := nread l - 1\<rparr>) r rs rk w 0 wk"
  "counts_inv l (Suc r) rs rk w (Suc ws) wk \<Longrightarrow>
   counts_inv (l\<lparr>nread := nread l - 1\<rparr>) r rs rk w ws (Suc wk)"
  by (auto simp: counts_inv_def)

lemma counts_write_unlock:
  "counts_inv l r rs rk (Suc w) 0 (Suc wk) \<Longrightarrow>
   counts_inv (l\<lparr>nwrite := nwrite l - 1\<rparr>) r rs rk w 0 (Suc wk)"
  "counts_inv l r rs rk (Suc w) (Suc ws) wk \<Longrightarrow>
   counts_inv (l\<lparr>nwrite := nwrite l - 1\<rparr>) r rs rk w ws (Suc wk)"
  "counts_inv l r rs rk (Suc w) 0 0 \<Longrightarrow>
   counts_inv (l\<lparr>nwrite := nwrite l - 1\<rparr>) r 0 (rs + rk) w 0 0"
  by (auto simp: counts_inv_def)

subsection \<open>Every step keeps the invariant\<close>

lemma rw_inv_rlock:
  assumes "rw_inv (l, ps)" and i: "i < length ps" "ps ! i = Idle" and "read_lock_enter l = (l', got)"
  shows "rw_inv (l', ps[i := if got then Reading else RSleep])"
  using assms(1,4) blocked_counts(1) [OF assms(1)] count_move [OF i, of Reading] count_move [OF i, of RSleep]
  by (cases "reader_blocked l") (auto simp: rw_inv_def read_lock_enter_def counts_read_enter)

lemma rw_inv_wlock:
  assumes "rw_inv (l, ps)" and i: "i < length ps" "ps ! i = Idle" and "write_lock_enter l = (l', got)"
  shows "rw_inv (l', ps[i := if got then Writing else WSleep])"
  using assms(1,4) blocked_counts(2) [OF assms(1)] count_move [OF i, of Writing] count_move [OF i, of WSleep]
  by (cases "writer_blocked l") (auto simp: rw_inv_def write_lock_enter_def counts_write_enter)

lemma rw_inv_rretry:
  assumes "rw_inv (l, ps)" and i: "i < length ps" "ps ! i = RWoken" and "read_lock_retry l = (l', got)"
  shows "rw_inv (l', ps[i := if got then Reading else RSleep])"
  using assms(1,4) blocked_counts(1) [OF assms(1)] count_move [OF i, of Reading] count_move [OF i, of RSleep]
  by (cases "reader_blocked l") (auto simp: rw_inv_def read_lock_retry_def counts_read_retry)

lemma rw_inv_wretry:
  assumes "rw_inv (l, ps)" and i: "i < length ps" "ps ! i = WWoken" and "write_lock_retry l = (l', got)"
  shows "rw_inv (l', ps[i := if got then Writing else WSleep])"
  using assms(1,4) blocked_counts(2) [OF assms(1)] count_move [OF i, of Writing] count_move [OF i, of WSleep]
  by (cases "writer_blocked l") (auto simp: rw_inv_def write_lock_retry_def counts_write_retry)

lemma rw_inv_wake:
  assumes "rw_inv (l, ps)" and i: "i < length ps"
  shows "ps ! i = RSleep \<Longrightarrow> rw_inv (l, ps[i := RWoken])" and "ps ! i = WSleep \<Longrightarrow> rw_inv (l, ps[i := WWoken])"
  using assms(1) count_move [OF i, of RSleep RWoken] count_move [OF i, of WSleep WWoken]
  by (simp_all add: rw_inv_def counts_wake)

lemma not_in_count: "p \<notin> set ps \<Longrightarrow> count_list ps p = 0"
  by (simp add: count_list_0_iff)

lemma rw_inv_runlock:
  assumes inv: "rw_inv (l, ps)" and i: "i < length ps" "ps ! i = Reading"
    and "read_unlock l = (l', n)" and n: "notified n (ps[i := Idle]) ps'"
  shows "rw_inv (l', ps')"
proof -
  let ?ps = "ps[i := Idle]"
  note out = count_move [OF i, of Idle, simplified]
  have l': "l' = l\<lparr>nread := nread l - 1\<rparr>" and n': "n = (if nwrite_waiters l \<noteq> 0 then OneWriter else Nobody)"
    using assms(4) by (auto simp: read_unlock_def Let_def)
  from n show ?thesis
  proof (cases rule: notified.cases)
    case nobody
    then have "count_list ps WSleep = 0" using n' blocked_counts(3) [OF inv] by (auto split: if_splits)
    then show ?thesis using inv out nobody by (auto simp: rw_inv_def l' counts_read_unlock)
  next
    case no_writer
    have "count_list ps WSleep = 0"
      using not_in_count [OF \<open>WSleep \<notin> set ?ps\<close>] out(3) [of WSleep] by simp
    then show ?thesis using inv out no_writer by (auto simp: rw_inv_def l' counts_read_unlock)
  next
    case (one_writer j)
    then have j: "j < length ?ps" "?ps ! j = WSleep" by simp_all
    show ?thesis
      using inv out count_move [OF j, of WWoken] one_writer by (auto simp: rw_inv_def l' counts_read_unlock)
  qed (use n' in \<open>simp split: if_splits\<close>)
qed

lemma rw_inv_wunlock:
  assumes inv: "rw_inv (l, ps)" and i: "i < length ps" "ps ! i = Writing"
    and "write_unlock l = (l', n)" and n: "notified n (ps[i := Idle]) ps'"
  shows "rw_inv (l', ps')"
proof -
  let ?ps = "ps[i := Idle]"
  note out = count_move [OF i, of Idle, simplified]
  have l': "l' = l\<lparr>nwrite := nwrite l - 1\<rparr>"
    and n': "n = (if nwrite_waiters l \<noteq> 0 then OneWriter else if nread_waiters l \<noteq> 0 then AllReaders else Nobody)"
    using assms(4) by (auto simp: write_unlock_def Let_def)
  note waiters = blocked_counts(3,4) [OF inv]
  from n show ?thesis
  proof (cases rule: notified.cases)
    case nobody
    then have "count_list ps RSleep = 0" "count_list ps RWoken = 0" "count_list ps WSleep = 0" "count_list ps WWoken = 0"
      using n' waiters by (auto split: if_splits)
    then show ?thesis
      using inv out nobody counts_write_unlock(3) [of l _ 0 0] by (auto simp: rw_inv_def l')
  next
    case no_writer
    have ws: "count_list ps WSleep = 0"
      using not_in_count [OF \<open>WSleep \<notin> set ?ps\<close>] out(3) [of WSleep] by simp
    moreover have "count_list ps WWoken \<noteq> 0"
      using ws no_writer n' waiters(1) by (auto split: if_splits)
    then obtain wk where "count_list ps WWoken = Suc wk" by (cases "count_list ps WWoken") simp_all
    ultimately show ?thesis using inv out no_writer by (auto simp: rw_inv_def l' counts_write_unlock)
  next
    case (one_writer j)
    then have j: "j < length ?ps" "?ps ! j = WSleep" by simp_all
    show ?thesis
      using inv out count_move [OF j, of WWoken] one_writer by (auto simp: rw_inv_def l' counts_write_unlock)
  next
    case all_readers
    then have "count_list ps WSleep = 0" "count_list ps WWoken = 0" using n' waiters by (auto split: if_splits)
    then show ?thesis
      using inv out all_readers by (auto simp: rw_inv_def l' counts_write_unlock count_woken)
  qed
qed

lemma rw_inv_step: "rw_step s s' \<Longrightarrow> rw_inv s \<Longrightarrow> rw_inv s'"
  by (induction rule: rw_step.induct)
    (blast intro: rw_inv_rlock rw_inv_wlock rw_inv_rretry rw_inv_wretry rw_inv_runlock rw_inv_wunlock
      rw_inv_wake)+

lemma rw_reach_inv: "rw_reach n s \<Longrightarrow> n < 2 ^ 32 \<Longrightarrow> rw_inv s"
  by (induction rule: rw_reach.induct) (auto intro: rw_inv_start rw_inv_step)

section \<open>Properties\<close>

text \<open>
  C5: in every state that any interleaving of fewer than 2^32 threads reaches, at most one thread
  writes, and while it does none reads.
\<close>

theorem rw_mutual_exclusion:
  assumes "rw_reach n (l, ps)" and "n < 2 ^ 32"
    and "i < length ps" "ps ! i = Writing" and "j < length ps" "ps ! j \<in> {Reading, Writing}"
  shows "i = j"
proof (rule ccontr)
  assume "i \<noteq> j"
  have inv: "count_list ps Writing \<le> 1" "count_list ps Writing = 0 \<or> count_list ps Reading = 0"
    using rw_reach_inv [OF assms(1,2)] by (auto simp: rw_inv_def counts_inv_def)
  have "0 < count_list ps Writing" using count_pos [OF assms(3)] assms(4) by simp
  moreover have "ps ! j = Reading \<Longrightarrow> 0 < count_list ps Reading" using count_pos [OF assms(5)] by simp
  ultimately have j: "ps ! j = Writing" using inv assms(6) by auto
  have "count_list ps Writing = Suc (count_list (ps[i := Idle]) Writing)"
    using count_move(2) [of i ps Writing Idle] assms(3,4) by simp
  moreover have "0 < count_list (ps[i := Idle]) Writing"
    using count_pos [of j "ps[i := Idle]"] \<open>i \<noteq> j\<close> j assms(5) by simp
  ultimately show False using inv(1) by simp
qed

text \<open>
  C10: no wake-up is lost: in a reachable state where nobody holds the lock and some thread waits
  for it, there is a thread that has been woken and whose retry takes the lock.
\<close>

theorem rw_no_lost_wakeup:
  assumes "rw_reach n (l, ps)" and "n < 2 ^ 32" and "Reading \<notin> set ps" "Writing \<notin> set ps"
    and "\<exists>p \<in> set ps. p \<in> {RSleep, RWoken, WSleep, WWoken}"
  shows "\<exists>i < length ps. ps ! i = WWoken \<and> snd (write_lock_retry l) \<or>
                        ps ! i = RWoken \<and> snd (read_lock_retry l)"
proof -
  have inv: "rw_inv (l, ps)" by (rule rw_reach_inv [OF assms(1,2)])
  note none = not_in_count [OF assms(3)] not_in_count [OF assms(4)]
  have free: "\<not> writer_blocked l" using blocked_counts(2) [OF inv] none by simp
  show ?thesis
  proof (cases "WWoken \<in> set ps")
    case True
    then show ?thesis using free by (auto simp: in_set_conv_nth write_lock_retry_def)
  next
    case False
    from False have "count_list ps WSleep = 0"
      using inv none not_in_count [OF False] by (simp add: rw_inv_def counts_inv_def)
    moreover from this have "count_list ps RSleep = 0"
      using inv none not_in_count [OF False] by (simp add: rw_inv_def counts_inv_def)
    ultimately have "RWoken \<in> set ps" and "\<not> reader_blocked l"
      using assms(5) False blocked_counts(1) [OF inv] none not_in_count [OF False]
      by (auto simp: count_list_0_iff)
    then show ?thesis by (auto simp: in_set_conv_nth read_lock_retry_def)
  qed
qed

text \<open>
  Writers go first: while a writer waits or writes, no step lets a thread start to read.
\<close>

theorem rw_write_preference:
  assumes "rw_reach n (l, ps)" and "n < 2 ^ 32" and "rw_step (l, ps) (l', ps')"
    and "\<exists>p \<in> set ps. p \<in> {WSleep, WWoken, Writing}" and "j < length ps" "ps' ! j = Reading"
  shows "ps ! j = Reading"
proof -
  have inv: "rw_inv (l, ps)" by (rule rw_reach_inv [OF assms(1,2)])
  have "0 < count_list ps Writing + count_list ps WSleep + count_list ps WWoken"
    using assms(4) by (auto simp: gr0_conv_Suc dest!: in_set_conv_nth [THEN iffD1] count_pos)
  then have "reader_blocked l" using blocked_counts(1) [OF inv] by simp
  with assms(3,5,6) show ?thesis
    by (auto elim!: rw_step_E notified_E simp: read_lock_enter_def read_lock_retry_def nth_list_update
        split: if_splits)
qed

section \<open>Runs\<close>

text \<open>Thread 0 writes while thread 1 waits to write; then thread 0 leaves.\<close>

lemma run_write:
  "rw_reach 2 (\<lparr>nread = 0, nread_waiters = 0, nwrite = 1, nwrite_waiters = 0\<rparr>, [Writing, Idle])"
  using rw_reach.step [OF rw_reach.start [of 2] rw_step.wlock [of 0 _ _ _ True]]
  by (simp add: ReadWriteLock_def write_lock_enter_def writer_blocked_def numeral_2_eq_2)

lemma run_write_wait:
  "rw_reach 2 (\<lparr>nread = 0, nread_waiters = 0, nwrite = 1, nwrite_waiters = 1\<rparr>, [Writing, WSleep])"
  using rw_reach.step [OF run_write rw_step.wlock [of 1 _ _ _ False]]
  by (simp add: write_lock_enter_def writer_blocked_def)

lemma run_write_handover:
  "rw_reach 2 (\<lparr>nread = 0, nread_waiters = 0, nwrite = 0, nwrite_waiters = 1\<rparr>, [Idle, WWoken])"
proof -
  have "notified OneWriter [Idle, WSleep] [Idle, WWoken]"
    using one_writer [of 1 "[Idle, WSleep]"] by simp
  then show ?thesis
    using rw_reach.step [OF run_write_wait rw_step.wunlock [of 0 _ _ _ OneWriter "[Idle, WWoken]"]]
    by (simp add: write_unlock_def)
qed

text \<open>Thread 0 reads while thread 1 waits to write.\<close>

lemma run_read_wait:
  "rw_reach 2 (\<lparr>nread = 1, nread_waiters = 0, nwrite = 0, nwrite_waiters = 1\<rparr>, [Reading, WSleep])"
proof -
  have "rw_reach 2 (\<lparr>nread = 1, nread_waiters = 0, nwrite = 0, nwrite_waiters = 0\<rparr>, [Reading, Idle])"
    using rw_reach.step [OF rw_reach.start [of 2] rw_step.rlock [of 0 _ _ _ True]]
    by (simp add: ReadWriteLock_def read_lock_enter_def reader_blocked_def numeral_2_eq_2)
  from rw_reach.step [OF this rw_step.wlock [of 1 _ _ _ False]] show ?thesis
    by (simp add: write_lock_enter_def writer_blocked_def)
qed

theorem rw_mutual_exclusion_witness:
  "rw_reach 2 (\<lparr>nread = 0, nread_waiters = 0, nwrite = 1, nwrite_waiters = 1\<rparr>, [Writing, WSleep])
    \<and> [Writing, WSleep] ! 1 \<notin> {Reading, Writing}"
  using run_write_wait rw_mutual_exclusion [OF run_write_wait, of 0 1] by simp

theorem rw_no_lost_wakeup_witness:
  "\<exists>i < 2. [Idle, WWoken] ! i = WWoken \<and>
     snd (write_lock_retry \<lparr>nread = 0, nread_waiters = 0, nwrite = 0, nwrite_waiters = 1\<rparr>)"
proof -
  have "(2 :: nat) < 2 ^ 32" by simp
  from rw_no_lost_wakeup [OF run_write_handover this] show ?thesis
    by (simp add: read_lock_retry_def reader_blocked_def numeral_2_eq_2)
qed

theorem rw_write_preference_witness:
  "rw_step (\<lparr>nread = 1, nread_waiters = 0, nwrite = 0, nwrite_waiters = 1\<rparr>, [Reading, WSleep])
     (\<lparr>nread = 1, nread_waiters = 0, nwrite = 0, nwrite_waiters = 1\<rparr>, [Reading, WWoken])
   \<and> [Reading, WSleep] ! 0 = Reading"
  using rw_step.wwake [of 1 "[Reading, WSleep]"] rw_write_preference [OF run_read_wait _ rw_step.wwake [of 1], of 0] by simp

end
