(* ===== verification/Devid2Usb.thy ===== *)
theory Devid2Usb
  imports C_Text DevId
begin

text \<open>
  The mapping from serial ports to device identifiers (\<open>server/devid2usb.cpp\<close>,
  \<open>server/devid2usb.h\<close>, and \<open>get_id_from_usb_location\<close> of \<open>server/platform-linux.cpp\<close>): the scan
  of the ports, the four ways to name a device, the search for a device's port and the list of
  devices. libserialport is a parameter: a port is what its getters answer, a scan is the list they
  give. The branches are those of a POSIX build.
\<close>

section \<open>Ports\<close>

text \<open>
  The answers of \<open>sp_get_port_name\<close>, \<open>sp_get_port_usb_serial\<close> (may be null),
  \<open>sp_get_port_usb_bus_address\<close> and \<open>sp_get_port_usb_vid_pid\<close> (\<open>None\<close>: an error, nothing written).
\<close>

record sp_port =
  sp_name :: string
  sp_usb_serial :: "string option"
  sp_usb_bus_address :: "(int \<times> int) option"
  sp_usb_vid_pid :: "(int \<times> int) option"

text \<open>
  The Linux location number. \<open>usb_link\<close> is \<open>readlink\<close>, on links that fit the 256-byte array. The
  text after the last slash is cut at the first colon; the port number follows the last dot (or
  the first dash when there is no dot), the hub number the dot before it.
\<close>

definition after :: "(string \<times> string) option \<Rightarrow> string option" where
  "after = map_option snd"

definition usb_location :: "string \<Rightarrow> u32 \<times> bool" where
  "usb_location link =
     (let start = (case strrchr link CHR ''/'' of None \<Rightarrow> link | Some (a, b) \<Rightarrow> b);
          start = (case strchr start CHR '':'' of None \<Rightarrow> start | Some (a, b) \<Rightarrow> a);
          (pusb, phub) =
            (case strrchr start CHR ''.'' of
               None \<Rightarrow> (after (strchr start CHR ''-''), None)
             | Some (a, b) \<Rightarrow> (Some b, after (strrchr a CHR ''.'')));
          (ok, ndev) = (case pusb of None \<Rightarrow> (False, 0)
                        | Some s \<Rightarrow> (case scan_d s of None \<Rightarrow> (False, 0) | Some (n, r) \<Rightarrow> (True, n)));
          (ok, hub) = (case phub of None \<Rightarrow> (ok, 0)
                       | Some s \<Rightarrow> if ok then (case scan_d s of None \<Rightarrow> (False, 0) | Some (n, r) \<Rightarrow> (True, n))
                                  else (ok, 0));
          hub = (if hub \<noteq> 0 then hub - 1 else hub);
          i = word_of_int (hub * 4 + ndev)
      in (if i > 9 then i + 6 else i, ok))"

definition get_id_from_usb_location :: "(string \<Rightarrow> string option) \<Rightarrow> string \<Rightarrow> u32 \<times> bool" where
  "get_id_from_usb_location usb_link sp_port_name =
     (if take 5 sp_port_name = ''/dev/'' then
        let dev = drop 5 sp_port_name;
            link_name = take 255 (''/sys/class/tty/'' @ dev @ ''/device'')
        in case usb_link link_name of
             None \<Rightarrow> (0, False)
           | Some link \<Rightarrow> if link = [] then (0, False) else usb_location link
      else (0, False))"

section \<open>Devices from ports\<close>

text \<open>The four subclasses of \<open>ADevId2UsbConfor\<close> and their virtual constructor.\<close>

datatype usb_confor = DevId2UsbBvvu | DevId2UsbByComOrAddr | DevId2UsbBySerial | DevId2UsbBySerialPidVid

definition create_appropriate_dev_id_2_usb_configurator :: "string \<Rightarrow> usb_confor option" where
  "create_appropriate_dev_id_2_usb_configurator cmd_par =
     (if cmd_par = ''bvvu'' then Some DevId2UsbBvvu
      else if cmd_par = ''by_com_addr'' then Some DevId2UsbByComOrAddr
      else if cmd_par = ''by_serial'' then Some DevId2UsbBySerial
      else if cmd_par = ''by_serialpidvid'' then Some DevId2UsbBySerialPidVid
      else None)"

text \<open>
  \<open>get_devid_from_sp_port\<close>: the identifier and \<open>ok\<close>. \<open>junk\<close> is what an uninitialised local holds.
\<close>

definition devid_by_serial :: "sp_port \<Rightarrow> devid \<times> bool" where
  "devid_by_serial psp =
     (case sp_usb_serial psp of
        None \<Rightarrow> (devid_of_id 0, False)
      | Some s \<Rightarrow>
          if length s < 4 then (devid_of_id 0, False)
          else case scan_x 4 (drop (length s - 4) s) of
                 None \<Rightarrow> (devid_of_id 0, False)
               | Some (i, r) \<Rightarrow> (devid_of_id i, True))"

fun get_devid_from_sp_port ::
    "(string \<Rightarrow> string option) \<Rightarrow> int \<Rightarrow> usb_confor \<Rightarrow> sp_port \<Rightarrow> devid \<times> bool" where
  "get_devid_from_sp_port usb_link junk DevId2UsbBvvu psp =
     (let (i, ok) = get_id_from_usb_location usb_link (sp_name psp) in (devid_of_id i, ok))"
| "get_devid_from_sp_port usb_link junk DevId2UsbByComOrAddr psp =
     (case sp_usb_serial psp of
        None \<Rightarrow> (devid_of_id (word_of_int junk), False)
      | Some s \<Rightarrow>
          (case sp_usb_bus_address psp of
             None \<Rightarrow> (devid_of_id (word_of_int junk), True)
           | Some (bus, addr) \<Rightarrow> (devid_of_id (word_of_int addr), True)))"
| "get_devid_from_sp_port usb_link junk DevId2UsbBySerial psp = devid_by_serial psp"
| "get_devid_from_sp_port usb_link junk DevId2UsbBySerialPidVid psp =
     (let (ret, ok) = devid_by_serial psp;
          (ok, vid, pid) = (case sp_usb_vid_pid psp of None \<Rightarrow> (False, junk, junk)
                            | Some (vid, pid) \<Rightarrow> (ok, vid, pid))
      in (mk_devid (dev_id ret) (word_of_int pid) (word_of_int vid) 0, ok))"

definition is_devid_matchs_sp_port ::
    "(string \<Rightarrow> string option) \<Rightarrow> int \<Rightarrow> usb_confor \<Rightarrow> devid \<Rightarrow> sp_port \<Rightarrow> bool" where
  "is_devid_matchs_sp_port usb_link junk c devid psp =
     (let (did, ok) = get_devid_from_sp_port usb_link junk c psp
      in if \<not> ok then False else devid_eq devid did)"

section \<open>The list of ports\<close>

text \<open>
  \<open>list_sp_ports\<close> on the shared list \<open>pport_list\<close> (\<open>None\<close> is null): nothing happens while a scan is
  under way (\<open>busy\<close>); a failed scan leaves null.
\<close>

definition list_sp_ports :: "bool \<Rightarrow> sp_port list option \<Rightarrow> sp_port list option \<Rightarrow> sp_port list option" where
  "list_sp_ports busy scan pport_list =
     (if busy then pport_list else case scan of None \<Rightarrow> None | Some ports \<Rightarrow> Some ports)"

text \<open>
  The same list as the pointer it is: \<open>free_sp_ports\<close>, which the destructor of a configurator calls,
  leaves it dangling. \<open>None\<close> is the use of a freed list or of null. \<open>print_sp_ports\<close> gives the number of lines it prints.
\<close>

datatype port_list = PL_null | PL_ports "sp_port list" | PL_freed

fun list_sp_ports_ptr :: "bool \<Rightarrow> sp_port list option \<Rightarrow> port_list \<Rightarrow> port_list option" where
  "list_sp_ports_ptr True scan pport_list = Some pport_list"
| "list_sp_ports_ptr False scan PL_freed = None"
| "list_sp_ports_ptr False scan pport_list = Some (case scan of None \<Rightarrow> PL_null | Some ports \<Rightarrow> PL_ports ports)"

fun free_sp_ports :: "port_list \<Rightarrow> port_list option" where
  "free_sp_ports PL_null = Some PL_null"
| "free_sp_ports (PL_ports ports) = Some PL_freed"
| "free_sp_ports PL_freed = None"

fun print_sp_ports :: "port_list \<Rightarrow> nat option" where
  "print_sp_ports (PL_ports ports) = Some (1 + length ports)"
| "print_sp_ports pport_list = None"

text \<open>\<open>port_name_by_devid\<close> runs through all ports and keeps the last match.\<close>

fun port_name_loop ::
    "(string \<Rightarrow> string option) \<Rightarrow> int \<Rightarrow> usb_confor \<Rightarrow> devid \<Rightarrow> sp_port list \<Rightarrow> string \<Rightarrow> string" where
  "port_name_loop usb_link junk c devid [] s = s"
| "port_name_loop usb_link junk c devid (p # ps) s =
     port_name_loop usb_link junk c devid ps
       (if is_devid_matchs_sp_port usb_link junk c devid p then sp_name p else s)"

definition port_name_by_devid ::
    "(string \<Rightarrow> string option) \<Rightarrow> int \<Rightarrow> usb_confor \<Rightarrow> sp_port list option \<Rightarrow> devid \<Rightarrow> string" where
  "port_name_by_devid usb_link junk c pport_list devid =
     (case pport_list of None \<Rightarrow> [] | Some ports \<Rightarrow> port_name_loop usb_link junk c devid ports [])"

text \<open>\<open>list_to_dev_id_vector\<close> does not ask whether the list is null: \<open>None\<close> is that access.\<close>

fun dev_id_loop ::
    "(string \<Rightarrow> string option) \<Rightarrow> int \<Rightarrow> usb_confor \<Rightarrow> sp_port list \<Rightarrow> devid list \<Rightarrow> devid list" where
  "dev_id_loop usb_link junk c [] devids = devids"
| "dev_id_loop usb_link junk c (p # ps) devids =
     (let (ret, ok) = get_devid_from_sp_port usb_link junk c p
      in dev_id_loop usb_link junk c ps (if ok then devids @ [ret] else devids))"

definition list_to_dev_id_vector ::
    "(string \<Rightarrow> string option) \<Rightarrow> int \<Rightarrow> usb_confor \<Rightarrow> sp_port list option \<Rightarrow> devid list option" where
  "list_to_dev_id_vector usb_link junk c pport_list =
     map_option (\<lambda>ports. dev_id_loop usb_link junk c ports []) pport_list"

definition enumerate_dev ::
    "(string \<Rightarrow> string option) \<Rightarrow> int \<Rightarrow> usb_confor \<Rightarrow> bool \<Rightarrow> sp_port list option \<Rightarrow>
     sp_port list option \<Rightarrow> sp_port list option \<times> devid list option" where
  "enumerate_dev usb_link junk c busy scan pport_list =
     (let l = list_sp_ports busy scan pport_list in (l, list_to_dev_id_vector usb_link junk c l))"

section \<open>Properties\<close>

lemma matches_iff:
  "is_devid_matchs_sp_port usb_link junk c d p \<longleftrightarrow> get_devid_from_sp_port usb_link junk c p = (d, True)"
  by (cases "get_devid_from_sp_port usb_link junk c p") (auto simp: is_devid_matchs_sp_port_def)

lemma dev_id_loop_filter:
  "dev_id_loop usb_link junk c ps ds =
     ds @ map fst (filter snd (map (get_devid_from_sp_port usb_link junk c) ps))"
  by (induction ps arbitrary: ds) (auto simp: Let_def split: prod.splits)

lemma port_name_loop_last:
  "port_name_loop usb_link junk c d ps s =
     (case filter (is_devid_matchs_sp_port usb_link junk c d) ps of
        [] \<Rightarrow> s | q # qs \<Rightarrow> sp_name (last (q # qs)))"
  by (induction ps arbitrary: s) (auto split: list.splits)


text \<open>
  After a failed scan the enumeration of devices goes through a null pointer, unless another
  scan was under way and had left a list.
\<close>

theorem failed_scan_enumeration:
  "snd (enumerate_dev usb_link junk c busy scan l) = None \<longleftrightarrow> (if busy then l = None else scan = None)"
  by (auto simp: enumerate_dev_def list_sp_ports_def list_to_dev_id_vector_def Let_def split: option.splits)

definition pointer_of :: "sp_port list option \<Rightarrow> port_list" where
  "pointer_of l = (case l of None \<Rightarrow> PL_null | Some ports \<Rightarrow> PL_ports ports)"

text \<open>
  As long as no configurator is destroyed the list is never misused by a scan; a scan after that frees
  it again, unless it was null. Printing the list after a failed scan goes through null.
\<close>

lemma list_sp_ports_pointer:
  "list_sp_ports_ptr busy scan (pointer_of l) = Some (pointer_of (list_sp_ports busy scan l))"
  by (cases busy; cases l) (auto simp: pointer_of_def list_sp_ports_def split: option.splits)

theorem scan_after_destructor:
  "Option.bind (free_sp_ports p) (list_sp_ports_ptr False scan) = None \<longleftrightarrow> p \<noteq> PL_null"
  by (cases p) auto

theorem print_after_scan:
  "Option.bind (list_sp_ports_ptr False scan (pointer_of l)) print_sp_ports = None \<longleftrightarrow> scan = None"
  by (cases scan) (simp_all add: list_sp_ports_pointer, simp_all add: pointer_of_def list_sp_ports_def)

end
