(* ===== verification/Device_Map.thy ===== *)
theory Device_Map
  imports Xib_Com Ordered_Map RW_Lock Devid2Usb Uri "HOL-Library.Monad_Syntax"
begin

text \<open>
  The server's table of open devices, \<open>MapDevIdPHandle\<close> and \<open>XibDevicePHandle\<close>
  (\<open>server/mapdevidphnd.cpp\<close>, \<open>server/mapdevidphnd.h\<close>): devices by identifier, the list of
  (connection, device) pairs, the read-write lock and the pool of device mutexes. Each method is
  modelled as one thread runs it, with every lock and unlock in its place; a lock that the thread
  could never get (because it holds it itself) and an access through a null pointer are \<open>None\<close>.
  The device layer below (\<open>xib_com.c\<close>, \<open>devserial.c\<close> over libserialport) is the parameter
  \<open>dev_env\<close>: functions on a state of the outside world.
\<close>

section \<open>The layer below\<close>

text \<open>
  \<open>xib_com_device_create\<close>, \<open>xib_com_device_destroy\<close>, \<open>xib_com_device_send_request\<close> and
  \<open>urpc_device_send_request\<close> (result code and the bytes stored in the response buffer), the scan of
  the ports and the links they lead to.
\<close>

record 'w dev_env =
  com_create :: "string \<Rightarrow> 'w \<Rightarrow> handle option \<times> 'w"
  com_destroy :: "handle \<Rightarrow> 'w \<Rightarrow> 'w"
  com_request :: "handle \<Rightarrow> bvector \<Rightarrow> u8 \<Rightarrow> 'w \<Rightarrow> int \<times> bvector \<times> 'w"
  com_urpc_request :: "handle \<Rightarrow> bvector \<Rightarrow> bvector \<Rightarrow> u8 \<Rightarrow> 'w \<Rightarrow> int \<times> bvector \<times> 'w"
  com_scan :: "'w \<Rightarrow> sp_port list option \<times> 'w"
  com_link :: "'w \<Rightarrow> string \<Rightarrow> string option"

section \<open>State and locks\<close>

text \<open>
  \<open>devices\<close> is the map the class inherits from, with the handle (\<open>None\<close> is null) of each device;
  \<open>conns\<close> is \<open>_conns\<close>, \<open>rwl\<close> is \<open>_rwlock\<close>, \<open>pool\<close> and \<open>pool_rwl\<close> are the mutexes (with a flag
  whether locked) and their lock; then the configurator, its list of ports, and the world.
\<close>

record 'w msu =
  devices :: "handle option dev_map"
  conns :: "(conn_id_t \<times> devid) list"
  rwl :: rwlock
  pool :: "bool dev_map"
  pool_rwl :: rwlock
  confor :: "usb_confor option"
  pports :: "sp_port list option"
  world :: 'w

definition conn_id_invalid :: conn_id_t where
  "conn_id_invalid = 0"

definition UINT32_MAX :: u32 where
  "UINT32_MAX = 0xFFFFFFFF"

text \<open>Taking a lock for which no other thread contends: \<open>None\<close> when it would have to wait.\<close>

definition rd_lock :: "rwlock \<Rightarrow> rwlock option" where
  "rd_lock l = (case read_lock_enter l of (l', got) \<Rightarrow> if got then Some l' else None)"

definition wr_lock :: "rwlock \<Rightarrow> rwlock option" where
  "wr_lock l = (case write_lock_enter l of (l', got) \<Rightarrow> if got then Some l' else None)"

definition read_lock :: "'w msu \<Rightarrow> 'w msu option" where
  "read_lock s = map_option (\<lambda>l. s\<lparr>rwl := l\<rparr>) (rd_lock (rwl s))"

definition read_unlocked :: "'w msu \<Rightarrow> 'w msu" where
  "read_unlocked s = s\<lparr>rwl := fst (read_unlock (rwl s))\<rparr>"

definition write_lock :: "'w msu \<Rightarrow> 'w msu option" where
  "write_lock s = map_option (\<lambda>l. s\<lparr>rwl := l\<rparr>) (wr_lock (rwl s))"

definition write_unlocked :: "'w msu \<Rightarrow> 'w msu" where
  "write_unlocked s = s\<lparr>rwl := fst (write_unlock (rwl s))\<rparr>"

text \<open>\<open>m.lock()\<close> and \<open>m.unlock()\<close> on a mutex of the pool.\<close>

definition mutex_lock :: "devid \<Rightarrow> 'w msu \<Rightarrow> 'w msu option" where
  "mutex_lock d s =
     (if map_find d (pool s) = Some False then Some (s\<lparr>pool := map_store d True (pool s)\<rparr>) else None)"

definition mutex_unlock :: "devid \<Rightarrow> 'w msu \<Rightarrow> 'w msu option" where
  "mutex_unlock d s =
     (if map_find d (pool s) = Some True then Some (s\<lparr>pool := map_store d False (pool s)\<rparr>) else None)"

definition lock_create_device_mutex :: "devid \<Rightarrow> 'w msu \<Rightarrow> 'w msu option" where
  "lock_create_device_mutex d s = do {
     l \<leftarrow> rd_lock (pool_rwl s);
     if map_find d (pool s) = None then do {
       let l = fst (read_unlock l);
       l \<leftarrow> wr_lock l;
       let s = s\<lparr>pool := map_index False d (pool s), pool_rwl := fst (write_unlock l)\<rparr>;
       mutex_lock d s
     } else do {
       let s = s\<lparr>pool := map_index False d (pool s), pool_rwl := fst (read_unlock l)\<rparr>;
       mutex_lock d s
     }
   }"

definition unlock_device_mutex :: "devid \<Rightarrow> 'w msu \<Rightarrow> 'w msu option" where
  "unlock_device_mutex d s = do {
     l \<leftarrow> rd_lock (pool_rwl s);
     let s = s\<lparr>pool_rwl := fst (read_unlock l)\<rparr>;
     if map_find d (pool s) = None then Some s
     else mutex_unlock d (s\<lparr>pool := map_index False d (pool s)\<rparr>)
   }"

section \<open>Device handles\<close>

text \<open>\<open>create_device_h\<close>: a new scan, then the port of the device; no configurator is a null pointer.\<close>

definition create_device_h :: "'w dev_env \<Rightarrow> devid \<Rightarrow> 'w msu \<Rightarrow> (handle option \<times> 'w msu) option" where
  "create_device_h env d s =
     (let (scan, w) = com_scan env (world s);
          ports = list_sp_ports False scan (pports s)
      in case confor s of
           None \<Rightarrow> None
         | Some c \<Rightarrow>
             let addr = port_name_by_devid (com_link env w) 0 c ports d;
                 (h, w) = com_create env addr w
             in Some (h, s\<lparr>pports := ports, world := w\<rparr>))"

text \<open>\<open>destroy_device_h\<close> on the handle in the map.\<close>

definition destroy_device_h :: "'w dev_env \<Rightarrow> devid \<Rightarrow> 'w msu \<Rightarrow> 'w msu" where
  "destroy_device_h env d s =
     (case map_find d (devices s) of
        Some (Some h) \<Rightarrow> s\<lparr>devices := map_store d None (devices s), world := com_destroy env h (world s)\<rparr>
      | _ \<Rightarrow> s)"

text \<open>
  \<open>send_request\<close> and \<open>urpc_send_request\<close>: the device sees \<open>request_len\<close> bytes and fills the start of
  the response buffer. The result is the code and the buffer.
\<close>

definition fill :: "bvector \<Rightarrow> bvector \<Rightarrow> bvector" where
  "fill bs response = overwrite 0 bs response"

definition send_request ::
    "'w dev_env \<Rightarrow> handle option \<Rightarrow> bvector \<Rightarrow> u8 \<Rightarrow> bvector \<Rightarrow> u8 \<Rightarrow> 'w \<Rightarrow> int \<times> bvector \<times> 'w" where
  "send_request env uhandle request request_len response response_len w =
     (case uhandle of
        None \<Rightarrow> (xib_result_nodevice, response, w)
      | Some h \<Rightarrow>
          let (r, bs, w) = com_request env h (take (unat request_len) request) response_len w
          in (r, fill bs response, w))"

definition urpc_send_request ::
    "'w dev_env \<Rightarrow> handle option \<Rightarrow> bvector \<Rightarrow> bvector \<Rightarrow> u8 \<Rightarrow> bvector \<Rightarrow> u8 \<Rightarrow> 'w \<Rightarrow> int \<times> bvector \<times> 'w" where
  "urpc_send_request env uhandle cid request request_len response response_len w =
     (case uhandle of
        None \<Rightarrow> (xib_result_nodevice, response, w)
      | Some h \<Rightarrow>
          let (r, bs, w) = com_urpc_request env h cid (take (unat request_len) request) response_len w
          in (r, fill bs response, w))"

section \<open>The methods of the table\<close>

definition find_conn :: "conn_id_t \<Rightarrow> (conn_id_t \<times> devid) list \<Rightarrow> (conn_id_t \<times> devid) option" where
  "find_conn c cs = find (\<lambda>item. fst item = c) cs"

text \<open>\<open>_find_serial\<close> compares with \<open>operator ==\<close>, the reserved number included.\<close>

definition any_serial :: "devid \<Rightarrow> (conn_id_t \<times> devid) list \<Rightarrow> bool" where
  "any_serial d cs \<longleftrightarrow> find (\<lambda>item. devid_eq (snd item) d) cs \<noteq> None"

fun erase_conn :: "conn_id_t \<Rightarrow> (conn_id_t \<times> devid) list \<Rightarrow> (conn_id_t \<times> devid) list" where
  "erase_conn c [] = []"
| "erase_conn c (item # cs) = (if fst item = c then cs else item # erase_conn c cs)"

text \<open>
  \<open>_is_actual_connection\<close>; the device is that of an unset identifier, \<open>DevId(conn_id_invalid)\<close>, when
  the connection is not in the list.
\<close>

definition is_actual_connection :: "conn_id_t \<Rightarrow> 'w msu \<Rightarrow> ((bool \<times> devid) \<times> 'w msu) option" where
  "is_actual_connection c s = do {
     s \<leftarrow> read_lock s;
     let r = (case find_conn c (conns s) of None \<Rightarrow> (False, devid_of_id conn_id_invalid)
              | Some item \<Rightarrow> (True, snd item));
     Some (r, read_unlocked s)
   }"

definition open_if_not :: "'w dev_env \<Rightarrow> conn_id_t \<Rightarrow> devid \<Rightarrow> 'w msu \<Rightarrow> (bool \<times> 'w msu) option" where
  "open_if_not env c d s = do {
     ((actual, z), s) \<leftarrow> is_actual_connection c s;
     if actual then Some (True, s)
     else do {
       s \<leftarrow> lock_create_device_mutex d s;
       s \<leftarrow> write_lock s;
       if map_find d (devices s) \<noteq> None then do {
         let s = write_unlocked (s\<lparr>conns := conns s @ [(c, d)]\<rparr>);
         s \<leftarrow> unlock_device_mutex d s;
         Some (True, s)
       } else do {
         let s = s\<lparr>devices := map_index None d (devices s)\<rparr>;
         if map_find d (devices s) = Some None then do {
           let s = write_unlocked s;
           (purpc, s) \<leftarrow> create_device_h env d s;
           s \<leftarrow> write_lock s;
           let s = (if purpc \<noteq> None \<and> map_find d (devices s) \<noteq> None
                    then s\<lparr>devices := map_store d purpc (devices s), conns := conns s @ [(c, d)]\<rparr>
                    else s);
           let s = s\<lparr>devices := map_index None d (devices s)\<rparr>;
           let s = (if map_find d (devices s) = Some None
                    then s\<lparr>devices := map_erase d (devices s)\<rparr> else s);
           let s = write_unlocked s;
           s \<leftarrow> unlock_device_mutex d s;
           Some (purpc \<noteq> None, s)
         } else do {
           let s = write_unlocked s;
           s \<leftarrow> unlock_device_mutex d s;
           Some (True, s)
         }
       }
     }
   }"

text \<open>\<open>remove_conn_or_remove_device\<close> from the lock of the device's mutex on, and as a whole.\<close>

definition remove_known :: "'w dev_env \<Rightarrow> conn_id_t \<Rightarrow> devid \<Rightarrow> bool \<Rightarrow> 'w msu \<Rightarrow> 'w msu option" where
  "remove_known env c d force_remove s = do {
     s \<leftarrow> lock_create_device_mutex d s;
     s \<leftarrow> write_lock s;
     let s = s\<lparr>conns := erase_conn c (conns s)\<rparr>;
     let s = write_unlocked s;
     s \<leftarrow> read_lock s;
     let (destroy_serial, s) =
       (if map_find d (devices s) \<noteq> None then
          let s = s\<lparr>devices := map_index None d (devices s)\<rparr> in
          if force_remove \<or> \<not> any_serial d (conns s)
          then (True, destroy_device_h env d (read_unlocked s))
          else (False, read_unlocked s)
        else (False, read_unlocked s));
     if \<not> destroy_serial then unlock_device_mutex d s
     else do {
       s \<leftarrow> write_lock s;
       let s = (if map_find d (devices s) \<noteq> None then s\<lparr>devices := map_erase d (devices s)\<rparr> else s);
       let s = write_unlocked s;
       unlock_device_mutex d s
     }
   }"

definition remove_conn_or_remove_device ::
    "'w dev_env \<Rightarrow> conn_id_t \<Rightarrow> devid \<Rightarrow> bool \<Rightarrow> 'w msu \<Rightarrow> 'w msu option" where
  "remove_conn_or_remove_device env c devid_kn force_remove s = do {
     ((z, devid_real), s) \<leftarrow> is_actual_connection c s;
     let devid_known = (if dev_id devid_kn = UINT32_MAX then devid_real else devid_kn);
     if dev_id devid_known = UINT32_MAX then Some s
     else remove_known env c devid_known force_remove s
   }"

text \<open>
  The two request operations differ in the call at the device. \<open>(*this)[devid]\<close> is evaluated
  without the table's lock.
\<close>

definition run_at_device ::
    "(handle option \<Rightarrow> 'w \<Rightarrow> int \<times> bvector \<times> 'w) \<Rightarrow> devid \<Rightarrow> 'w msu \<Rightarrow> int \<times> bvector \<times> 'w msu" where
  "run_at_device call d s =
     (let s = s\<lparr>devices := map_index None d (devices s)\<rparr>;
          (r, resp, w) = call (the (map_find d (devices s))) (world s)
      in (r, resp, s\<lparr>world := w\<rparr>))"

definition any_operation_send_request ::
    "'w dev_env \<Rightarrow> (handle option \<Rightarrow> 'w \<Rightarrow> int \<times> bvector \<times> 'w) \<Rightarrow> devid \<Rightarrow> bvector \<Rightarrow> 'w msu \<Rightarrow>
     ((int \<times> bvector) \<times> 'w msu) option" where
  "any_operation_send_request env call d response s = do {
     s \<leftarrow> read_lock s;
     if map_find d (devices s) \<noteq> None then do {
       let s = read_unlocked s;
       s \<leftarrow> lock_create_device_mutex d s;
       let (res, resp, s) = run_at_device call d s;
       s \<leftarrow> unlock_device_mutex d s;
       s \<leftarrow> (if res = xib_result_nodevice then remove_conn_or_remove_device env UINT32_MAX d True s
            else Some s);
       Some ((res, resp), s)
     } else Some ((xib_result_nodevice, response), read_unlocked s)
   }"

definition operation_send_request ::
    "'w dev_env \<Rightarrow> devid \<Rightarrow> bvector \<Rightarrow> u8 \<Rightarrow> bvector \<Rightarrow> u8 \<Rightarrow> 'w msu \<Rightarrow> ((int \<times> bvector) \<times> 'w msu) option" where
  "operation_send_request env d request request_len response response_len s =
     any_operation_send_request env
       (\<lambda>h. send_request env h request request_len response response_len) d response s"

definition urpc_operation_send_request ::
    "'w dev_env \<Rightarrow> devid \<Rightarrow> bvector \<Rightarrow> bvector \<Rightarrow> u8 \<Rightarrow> bvector \<Rightarrow> u8 \<Rightarrow> 'w msu \<Rightarrow>
     ((int \<times> bvector) \<times> 'w msu) option" where
  "urpc_operation_send_request env d cid request request_len response response_len s =
     any_operation_send_request env
       (\<lambda>h. urpc_send_request env h cid request request_len response response_len) d response s"

text \<open>
  \<open>enumerate_devs_opened\<close>, \<open>enumerate_devs\<close> (which goes through the list of ports even where that
  is null) and the destructor, which closes what is open and leaves the map as it is.
\<close>

definition enumerate_devs_opened :: "'w msu \<Rightarrow> (string list \<times> 'w msu) option" where
  "enumerate_devs_opened s = do {
     s \<leftarrow> read_lock s;
     let r = map (\<lambda>m. to_string_16hdigs (fst m)) (devices s);
     Some (r, read_unlocked s)
   }"

definition enumerate_devs :: "'w dev_env \<Rightarrow> 'w msu \<Rightarrow> string list option" where
  "enumerate_devs env s =
     (case confor s of
        None \<Rightarrow> Some []
      | Some c \<Rightarrow> map_option (map to_string_16hdigs)
                   (list_to_dev_id_vector (com_link env (world s)) 0 c (pports s)))"

definition msu_destructor :: "'w dev_env \<Rightarrow> 'w msu \<Rightarrow> 'w msu" where
  "msu_destructor env s =
     s\<lparr>world := foldl (\<lambda>w (d, h). case h of None \<Rightarrow> w | Some h \<Rightarrow> com_destroy env h w)
                 (world s) (devices s)\<rparr>"

section \<open>The table without its locks\<close>

text \<open>
  What the methods promise, on the devices, the connections and the world alone.
\<close>

record 'w table =
  tdev :: "handle option dev_map"
  tconn :: "(conn_id_t \<times> devid) list"
  tports :: "sp_port list option"
  tworld :: 'w

definition view :: "'w msu \<Rightarrow> 'w table" where
  "view s = \<lparr>tdev = devices s, tconn = conns s, tports = pports s, tworld = world s\<rparr>"

definition scan_and_create ::
    "'w dev_env \<Rightarrow> usb_confor \<Rightarrow> devid \<Rightarrow> 'w \<Rightarrow> handle option \<times> sp_port list option \<times> 'w" where
  "scan_and_create env c d w =
     (let (scan, w) = com_scan env w;
          (h, w) = com_create env (port_name_by_devid (com_link env w) 0 c scan d) w
      in (h, scan, w))"

definition spec_open :: "'w dev_env \<Rightarrow> usb_confor \<Rightarrow> conn_id_t \<Rightarrow> devid \<Rightarrow> 'w table \<Rightarrow> bool \<times> 'w table" where
  "spec_open env cf c d t =
     (if find_conn c (tconn t) \<noteq> None then (True, t)
      else if map_find d (tdev t) \<noteq> None then (True, t\<lparr>tconn := tconn t @ [(c, d)]\<rparr>)
      else
        let (h, ports, w) = scan_and_create env cf d (tworld t);
            t = t\<lparr>tports := ports, tworld := w\<rparr>
        in if h = None then (False, t)
           else (True, t\<lparr>tdev := map_insert d h (tdev t), tconn := tconn t @ [(c, d)]\<rparr>))"

definition spec_remove_known :: "'w dev_env \<Rightarrow> conn_id_t \<Rightarrow> devid \<Rightarrow> bool \<Rightarrow> 'w table \<Rightarrow> 'w table" where
  "spec_remove_known env c d force t =
     (let t = t\<lparr>tconn := erase_conn c (tconn t)\<rparr> in
      case map_find d (tdev t) of
        None \<Rightarrow> t
      | Some h \<Rightarrow>
          if force \<or> \<not> any_serial d (tconn t) then
            t\<lparr>tdev := map_erase d (tdev t),
              tworld := (case h of None \<Rightarrow> tworld t | Some h \<Rightarrow> com_destroy env h (tworld t))\<rparr>
          else t)"

text \<open>The device meant by a connection and an identifier whose number may be "unknown".\<close>

definition meant :: "conn_id_t \<Rightarrow> devid \<Rightarrow> (conn_id_t \<times> devid) list \<Rightarrow> devid" where
  "meant c d_kn cs =
     (if dev_id d_kn = UINT32_MAX
      then case find_conn c cs of None \<Rightarrow> devid_of_id 0 | Some item \<Rightarrow> snd item
      else d_kn)"

definition spec_remove :: "'w dev_env \<Rightarrow> conn_id_t \<Rightarrow> devid \<Rightarrow> bool \<Rightarrow> 'w table \<Rightarrow> 'w table" where
  "spec_remove env c d_kn force t =
     (let d = meant c d_kn (tconn t)
      in if dev_id d = UINT32_MAX then t else spec_remove_known env c d force t)"

definition spec_request ::
    "'w dev_env \<Rightarrow> (handle option \<Rightarrow> 'w \<Rightarrow> int \<times> bvector \<times> 'w) \<Rightarrow> devid \<Rightarrow> bvector \<Rightarrow> 'w table \<Rightarrow>
     (int \<times> bvector) \<times> 'w table" where
  "spec_request env call d response t =
     (case map_find d (tdev t) of
        None \<Rightarrow> ((xib_result_nodevice, response), t)
      | Some h \<Rightarrow>
          let (res, resp, w) = call h (tworld t); t = t\<lparr>tworld := w\<rparr>
          in ((res, resp), if res = xib_result_nodevice then spec_remove env UINT32_MAX d True t else t))"

section \<open>One thread and its locks\<close>

text \<open>Nothing is locked.\<close>

definition idle :: "'w msu \<Rightarrow> bool" where
  "idle s \<longleftrightarrow> rwl s = ReadWriteLock \<and> pool_rwl s = ReadWriteLock \<and> (\<forall>d. map_find d (pool s) \<noteq> Some True)"

definition reading :: rwlock where
  "reading = ReadWriteLock\<lparr>nread := 1\<rparr>"

definition writing :: rwlock where
  "writing = ReadWriteLock\<lparr>nwrite := 1\<rparr>"

lemma free_lock [simp]:
  "rd_lock ReadWriteLock = Some reading" "wr_lock ReadWriteLock = Some writing"
  "fst (read_unlock reading) = ReadWriteLock" "fst (write_unlock writing) = ReadWriteLock"
  by (simp_all add: rd_lock_def wr_lock_def read_lock_enter_def write_lock_enter_def reader_blocked_def
      writer_blocked_def ReadWriteLock_def reading_def writing_def read_unlock_def write_unlock_def)

text \<open>A lock that is held is not got again.\<close>

lemma held_lock [simp]:
  "rd_lock writing = None" "wr_lock writing = None" "wr_lock reading = None"
  by (simp_all add: rd_lock_def wr_lock_def read_lock_enter_def write_lock_enter_def reader_blocked_def
      writer_blocked_def ReadWriteLock_def reading_def writing_def)

lemma msu_self [simp]:
  "rwl s = l \<Longrightarrow> s\<lparr>rwl := l\<rparr> = s" "pool_rwl s = l \<Longrightarrow> s\<lparr>pool_rwl := l\<rparr> = s"
  by (cases s; simp)+

lemma table_locks [simp]:
  "rwl s = ReadWriteLock \<Longrightarrow> read_lock s = Some (s\<lparr>rwl := reading\<rparr>)"
  "rwl s = ReadWriteLock \<Longrightarrow> write_lock s = Some (s\<lparr>rwl := writing\<rparr>)"
  "rwl s = reading \<Longrightarrow> read_unlocked s = s\<lparr>rwl := ReadWriteLock\<rparr>"
  "rwl s = writing \<Longrightarrow> write_unlocked s = s\<lparr>rwl := ReadWriteLock\<rparr>"
  by (simp_all add: read_lock_def write_lock_def read_unlocked_def write_unlocked_def)

text \<open>The mutex of a device is locked, and unlocked.\<close>

definition locked :: "devid \<Rightarrow> bool dev_map \<Rightarrow> bool dev_map" where
  "locked d p = map_store d True (map_index False d p)"

definition unlocked :: "devid \<Rightarrow> bool dev_map \<Rightarrow> bool dev_map" where
  "unlocked d p = map_store d False p"

lemma find_locked [simp]: "map_find d (locked d p) = Some True"
  by (simp add: locked_def dm.store_own)

lemma lock_device_mutex:
  assumes "pool_rwl s = ReadWriteLock" and "map_find d (pool s) \<noteq> Some True"
  shows "lock_create_device_mutex d s = Some (s\<lparr>pool := locked d (pool s)\<rparr>)"
proof -
  have "map_find d (map_index False d (pool s)) = Some False"
    using assms(2) dm.find_index [of d False d "pool s"] by (cases "map_find d (pool s)") auto
  then show ?thesis
    using assms(1) by (simp add: lock_create_device_mutex_def mutex_lock_def locked_def Let_def)
qed

lemma unlock_device_mutex:
  assumes "pool_rwl s = ReadWriteLock" and "map_find d (pool s) = Some True"
  shows "unlock_device_mutex d s = Some (s\<lparr>pool := unlocked d (pool s)\<rparr>)"
proof -
  have "map_index False d (pool s) = pool s" using assms(2) by (simp add: map_index_def)
  then show ?thesis
    using assms by (simp add: unlock_device_mutex_def mutex_unlock_def unlocked_def Let_def)
qed

lemma idle_unlocked:
  assumes "idle s"
  shows "idle (s\<lparr>pool := unlocked d (locked d (pool s))\<rparr>)"
proof -
  have "map_find d' (unlocked d (locked d (pool s))) \<noteq> Some True" for d'
    using assms by (auto simp: idle_def unlocked_def locked_def dm.find_store dm.find_index)
  then show ?thesis using assms by (simp add: idle_def)
qed

lemma is_actual_idle:
  "rwl s = ReadWriteLock \<Longrightarrow> is_actual_connection c s =
    Some (case find_conn c (conns s) of None \<Rightarrow> (False, devid_of_id 0) | Some item \<Rightarrow> (True, snd item), s)"
  by (simp add: is_actual_connection_def conn_id_invalid_def cong: option.case_cong)

lemma idle_parts:
  assumes "idle s"
  shows "rwl s = ReadWriteLock" "pool_rwl s = ReadWriteLock" "map_find d (pool s) \<noteq> Some True"
  using assms by (simp_all add: idle_def)

lemma map_erase_absent: "map_find d m = None \<Longrightarrow> map_erase d m = m"
  by (induction m) (auto simp: map_erase_def split: if_splits)

lemma map_erase_insert: "map_find d m = None \<Longrightarrow> map_erase d (map_insert d v m) = m"
  using map_erase_absent [of d m]
  by (induction m) (auto simp: map_erase_def map_erase_absent split: if_splits)

lemma map_replace_insert: "map_find d m = None \<Longrightarrow> map_replace d v (map_insert d w m) = map_insert d v m"
  by (induction m) (auto split: if_splits)

lemma map_store_index_insert:
  assumes "map_find d m = None"
  shows "map_store d v (map_index w d m) = map_insert d v m"
    and "map_erase d (map_index w d m) = m"
  using assms dm.find_index [of d w d m]
  by (simp_all add: map_store_def map_index_def map_erase_insert map_replace_insert split: option.splits)

section \<open>The methods implement the table\<close>

text \<open>The outcome of a method: it ends with all locks free and a given table.\<close>

definition ends :: "('r \<times> 'w msu) option \<Rightarrow> 'w msu \<Rightarrow> 'r \<Rightarrow> 'w table \<Rightarrow> bool" where
  "ends o' s r t \<longleftrightarrow> (\<exists>s'. o' = Some (r, s') \<and> view s' = t \<and> idle s' \<and> confor s' = confor s)"

lemma create_device_spec:
  assumes "confor s = Some cf" and "scan_and_create env cf d (world s) = (h, p, w)"
  shows "create_device_h env d s = Some (h, s\<lparr>pports := p, world := w\<rparr>)"
  using assms
  by (auto simp: create_device_h_def scan_and_create_def list_sp_ports_def Let_def case_prod_beta
      split: option.splits)

lemma idle_swap:
  assumes "idle s" and "rwl s' = ReadWriteLock" "pool_rwl s' = ReadWriteLock"
    and "pool s' = unlocked d (locked d (pool s))"
  shows "idle s'"
  using idle_unlocked [OF assms(1), of d] assms by (simp add: idle_def)

lemma open_ends:
  assumes "idle s" and "confor s = Some cf"
  shows "ends (open_if_not env c d s) s (fst (spec_open env cf c d (view s))) (snd (spec_open env cf c d (view s)))"
proof -
  note free = idle_parts [OF assms(1)]
  consider (actual) item where "find_conn c (conns s) = Some item"
    | (there) h where "find_conn c (conns s) = None" "map_find d (devices s) = Some h"
    | (absent) "find_conn c (conns s) = None" "map_find d (devices s) = None"
    by (cases "find_conn c (conns s)"; cases "map_find d (devices s)") auto
  then show ?thesis
  proof cases
    case actual
    then show ?thesis
      using assms by (auto simp: ends_def open_if_not_def is_actual_idle free spec_open_def view_def)
  next
    case there
    then show ?thesis
      using assms free
      by (auto simp: ends_def open_if_not_def is_actual_idle spec_open_def view_def lock_device_mutex
          unlock_device_mutex Let_def intro!: idle_swap [OF assms(1)])
  next
    case absent
    obtain h p w where create: "scan_and_create env cf d (world s) = (h, p, w)" by (metis prod_cases3)
    have idx: "map_find d (map_index None d (devices s)) = Some None"
      "map_index None d (map_index None d (devices s)) = map_index None d (devices s)"
      using absent by (simp_all add: map_find_insert map_index_def)
    have stored: "map_index None d (map_insert d h (devices s)) = map_insert d h (devices s)"
      "map_find d (map_insert d h (devices s)) = Some h"
      using absent by (simp_all add: map_index_def map_find_insert)
    show ?thesis
      using absent idx stored assms free create
      by (cases h)
        (auto simp: ends_def open_if_not_def is_actual_idle spec_open_def view_def lock_device_mutex
            unlock_device_mutex create_device_spec map_store_index_insert Let_def
            intro!: idle_swap [OF assms(1)])
  qed
qed

lemma find_erase_same:
  "map_find d m = Some h \<Longrightarrow> map_find d (map_store d v m) = Some v"
  by (simp add: dm.store_own)

lemma map_erase_replace: "map_erase d (map_store d v m) = map_erase d m" if "map_find d m = Some h"
proof -
  have "map_erase d (map_replace d v m) = map_erase d m" by (induction m) (auto simp: map_erase_def)
  with that show ?thesis by (simp add: map_store_def)
qed

lemma remove_known_spec:
  assumes "idle s"
  shows "\<exists>s'. remove_known env c d force s = Some s' \<and> idle s' \<and> confor s' = confor s \<and>
    view s' = spec_remove_known env c d force (view s)"
proof -
  note free = idle_parts [OF assms(1)]
  note steps = remove_known_def lock_device_mutex unlock_device_mutex destroy_device_h_def map_index_def
    map_erase_replace dm.store_own Let_def view_def spec_remove_known_def
  consider (absent) "map_find d (devices s) = None"
    | (stays) h where "map_find d (devices s) = Some h" "\<not> force" "any_serial d (erase_conn c (conns s))"
    | (null) "map_find d (devices s) = Some None" "force \<or> \<not> any_serial d (erase_conn c (conns s))"
    | (goes) h where "map_find d (devices s) = Some (Some h)" "force \<or> \<not> any_serial d (erase_conn c (conns s))"
    by (cases "map_find d (devices s)") auto
  then show ?thesis
  proof cases
    case absent
    then show ?thesis by (auto simp: steps free intro!: idle_swap [OF assms(1)])
  next
    case stays
    then show ?thesis by (auto simp: steps free intro!: idle_swap [OF assms(1)])
  next
    case null
    then show ?thesis by (auto simp: steps free intro!: idle_swap [OF assms(1)])
  next
    case goes
    then show ?thesis by (auto simp: steps free intro!: idle_swap [OF assms(1)])
  qed
qed

lemma remove_ends:
  assumes "idle s"
  shows "\<exists>s'. remove_conn_or_remove_device env c d_kn force s = Some s' \<and>
    view s' = spec_remove env c d_kn force (view s) \<and> idle s' \<and> confor s' = confor s"
proof -
  have "remove_conn_or_remove_device env c d_kn force s =
      (let d = meant c d_kn (conns s)
       in if dev_id d = UINT32_MAX then Some s else remove_known env c d force s)"
    using idle_parts [OF assms]
    by (auto simp: remove_conn_or_remove_device_def is_actual_idle meant_def Let_def split: option.splits)
  moreover have "tconn (view s) = conns s" by (simp add: view_def)
  ultimately show ?thesis
    using remove_known_spec [OF assms, of env c "meant c d_kn (conns s)" force] assms
    by (auto simp: spec_remove_def Let_def)
qed

lemma request_ends:
  assumes "idle s"
  shows "\<exists>s'. any_operation_send_request env call d response s = Some (fst (spec_request env call d response (view s)), s')
    \<and> view s' = snd (spec_request env call d response (view s)) \<and> idle s' \<and> confor s' = confor s"
proof -
  note free = idle_parts [OF assms]
  show ?thesis
  proof (cases "map_find d (devices s)")
    case None
    then show ?thesis
      using assms by (auto simp: any_operation_send_request_def free spec_request_def view_def Let_def)
  next
    case (Some h)
    obtain res resp w where call: "call h (world s) = (res, resp, w)" by (metis prod_cases3)
    define s1 where "s1 = s\<lparr>world := w, pool := unlocked d (locked d (pool s))\<rparr>"
    have s1: "idle s1" "confor s1 = confor s" "view s1 = (view s)\<lparr>tworld := w\<rparr>"
      using idle_swap [OF assms, of s1] free by (simp_all add: s1_def view_def)
    have "any_operation_send_request env call d response s =
        (if res = xib_result_nodevice
         then map_option (\<lambda>s. ((res, resp), s)) (remove_conn_or_remove_device env UINT32_MAX d True s1)
         else Some ((res, resp), s1))"
      using Some call
      by (auto simp: any_operation_send_request_def free lock_device_mutex unlock_device_mutex
          run_at_device_def map_index_def Let_def s1_def map_conv_bind_option comp_def)
    moreover have "spec_request env call d response (view s) = ((res, resp),
        if res = xib_result_nodevice then spec_remove env UINT32_MAX d True (view s1) else view s1)"
      using Some call by (simp add: spec_request_def view_def s1_def Let_def)
    ultimately show ?thesis using remove_ends [OF s1(1), of env UINT32_MAX d True] s1 by auto
  qed
qed

end
