(* ===== verification/Machine.thy ===== *)
theory Machine
  imports Prelude
begin

text \<open>
  Sequences of operations on a component: the run of a concrete machine, whose steps may have no
  defined result, and of the abstract one it implements. The locale \<open>refinement\<close> is the contract
  of one step; its lemmas carry it to all sequences, and the locale \<open>invariant_refinement\<close> adds an
  invariant of the abstract machine.
\<close>

fun run :: "('op \<Rightarrow> 's \<Rightarrow> ('r \<times> 's) option) \<Rightarrow> 'op list \<Rightarrow> 's \<Rightarrow> ('r list \<times> 's) option" where
  "run exec [] s = Some ([], s)"
| "run exec (x # xs) s =
     (case exec x s of
        None \<Rightarrow> None
      | Some (r, s') \<Rightarrow> map_option (\<lambda>(rs, s''). (r # rs, s'')) (run exec xs s'))"

fun spec_run :: "('op \<Rightarrow> 't \<Rightarrow> 'r \<times> 't) \<Rightarrow> 'op list \<Rightarrow> 't \<Rightarrow> 'r list \<times> 't" where
  "spec_run aexec [] t = ([], t)"
| "spec_run aexec (x # xs) t =
     (let (r, t') = aexec x t; (rs, t'') = spec_run aexec xs t' in (r # rs, t''))"

locale refinement =
  fixes exec :: "'op \<Rightarrow> 's \<Rightarrow> ('r \<times> 's) option"
    and aexec :: "'op \<Rightarrow> 't \<Rightarrow> 'r \<times> 't"
    and abs :: "'s \<Rightarrow> 't"
    and ready :: "'s \<Rightarrow> bool"
  assumes step: "ready s \<Longrightarrow>
    \<exists>s'. exec x s = Some (fst (aexec x (abs s)), s') \<and> abs s' = snd (aexec x (abs s)) \<and> ready s'"
begin

lemma run_refines:
  "ready s \<Longrightarrow> \<exists>s'. run exec xs s = Some (fst (spec_run aexec xs (abs s)), s')
     \<and> abs s' = snd (spec_run aexec xs (abs s)) \<and> ready s'"
proof (induction xs arbitrary: s)
  case (Cons x xs)
  from step [OF Cons.prems, of x] obtain s' where s': "exec x s = Some (fst (aexec x (abs s)), s')"
    "abs s' = snd (aexec x (abs s))" "ready s'" by blast
  with Cons.IH [OF s'(3)] show ?case by (auto simp: case_prod_beta Let_def)
qed simp

lemma run_total: "ready s \<Longrightarrow> run exec xs s \<noteq> None"
  using run_refines [of s xs] by auto

end

locale invariant_refinement = refinement exec aexec abs ready
  for exec :: "'op \<Rightarrow> 's \<Rightarrow> ('r \<times> 's) option"
    and aexec :: "'op \<Rightarrow> 't \<Rightarrow> 'r \<times> 't"
    and abs :: "'s \<Rightarrow> 't"
    and ready :: "'s \<Rightarrow> bool" +
  fixes inv :: "'t \<Rightarrow> bool"
  assumes inv_step: "inv t \<Longrightarrow> inv (snd (aexec x t))"
begin

lemma spec_run_inv: "inv t \<Longrightarrow> inv (snd (spec_run aexec xs t))"
  by (induction xs arbitrary: t) (simp_all add: case_prod_beta Let_def inv_step)

lemma run_inv:
  assumes "ready s" and "inv (abs s)" and "run exec xs s = Some (rs, s')"
  shows "inv (abs s') \<and> ready s'"
  using run_refines [OF assms(1), of xs] spec_run_inv [OF assms(2), of xs] assms(3) by auto

end

end
