(* ===== verification/Table_Properties.thy ===== *)
theory Table_Properties
  imports Device_Map Machine
begin

text \<open>
  The properties of the table of open devices: its methods never wait for themselves and implement
  the table without locks over any sequence of operations; what is open stays consistent; devices
  are shared by connections and closed by the last of them; and where the code departs from that.
\<close>

section \<open>Sequences of operations\<close>

datatype tbl_op =
    OpOpen conn_id_t devid
  | OpRemove conn_id_t devid bool
  | OpRequest devid bvector u8 bvector u8
  | OpUrpc devid bvector bvector u8 bvector u8

datatype tbl_res = ROpened bool | RDone | RAnswer int bvector

fun tbl_exec :: "'w dev_env \<Rightarrow> tbl_op \<Rightarrow> 'w msu \<Rightarrow> (tbl_res \<times> 'w msu) option" where
  "tbl_exec env (OpOpen c d) s = map_option (\<lambda>(r, s). (ROpened r, s)) (open_if_not env c d s)"
| "tbl_exec env (OpRemove c d force) s =
     map_option (\<lambda>s. (RDone, s)) (remove_conn_or_remove_device env c d force s)"
| "tbl_exec env (OpRequest d req len resp n) s =
     map_option (\<lambda>((r, bs), s). (RAnswer r bs, s)) (operation_send_request env d req len resp n s)"
| "tbl_exec env (OpUrpc d cid req len resp n) s =
     map_option (\<lambda>((r, bs), s). (RAnswer r bs, s)) (urpc_operation_send_request env d cid req len resp n s)"

fun tbl_spec :: "'w dev_env \<Rightarrow> usb_confor \<Rightarrow> tbl_op \<Rightarrow> 'w table \<Rightarrow> tbl_res \<times> 'w table" where
  "tbl_spec env cf (OpOpen c d) t = (let (r, t) = spec_open env cf c d t in (ROpened r, t))"
| "tbl_spec env cf (OpRemove c d force) t = (RDone, spec_remove env c d force t)"
| "tbl_spec env cf (OpRequest d req len resp n) t =
     (let ((r, bs), t) = spec_request env (\<lambda>h. send_request env h req len resp n) d resp t
      in (RAnswer r bs, t))"
| "tbl_spec env cf (OpUrpc d cid req len resp n) t =
     (let ((r, bs), t) = spec_request env (\<lambda>h. urpc_send_request env h cid req len resp n) d resp t
      in (RAnswer r bs, t))"

text \<open>No null handle stays in the map, and no two of its keys are the same.\<close>

fun keys_apart :: "'v dev_map \<Rightarrow> bool" where
  "keys_apart [] = True"
| "keys_apart ((k, v) # m) = (map_find k m = None \<and> keys_apart m)"

definition table_ok :: "'w table \<Rightarrow> bool" where
  "table_ok t \<longleftrightarrow> keys_apart (tdev t) \<and> (\<forall>(d, h) \<in> set (tdev t). h \<noteq> None)"

lemma keys_apart_insert: "keys_apart m \<Longrightarrow> map_find k m = None \<Longrightarrow> keys_apart (map_insert k v m)"
proof (induction m)
  case (Cons e m)
  then show ?case
    by (cases e) (auto simp: map_find_insert devid_equiv_sym split: if_splits)
qed simp

lemma keys_apart_erase: "keys_apart m \<Longrightarrow> keys_apart (map_erase k m)"
proof (induction m)
  case (Cons e m)
  then show ?case
    by (cases e) (auto simp: map_erase_def dm.find_erase [unfolded map_erase_def])
qed (simp add: map_erase_def)

lemma set_insert_erase:
  "set (map_insert k v m) = insert (k, v) (set m)" "set (map_erase k m) \<subseteq> set m"
proof -
  show "set (map_insert k v m) = insert (k, v) (set m)" by (induction m) (auto split: if_splits)
  show "set (map_erase k m) \<subseteq> set m" by (auto simp: map_erase_def)
qed

lemma map_find_mem: "map_find d m = Some h \<Longrightarrow> \<exists>k. (k, h) \<in> set m"
  by (induction m) (auto split: if_splits)

lemma table_ok_world [simp]: "table_ok (t\<lparr>tworld := w\<rparr>) = table_ok t"
  by (simp add: table_ok_def)

lemma table_ok_remove: "table_ok t \<Longrightarrow> table_ok (spec_remove env c d force t)"
proof -
  assume ok: "table_ok t"
  have "table_ok (spec_remove_known env c d force t)" for d
    using ok set_insert_erase(2) [of d "tdev t"]
    by (auto simp: spec_remove_known_def table_ok_def Let_def keys_apart_erase split: option.splits)
  with ok show ?thesis by (simp add: spec_remove_def Let_def)
qed

lemma table_ok_open: "table_ok t \<Longrightarrow> table_ok (snd (spec_open env cf c d t))"
  by (auto simp: spec_open_def table_ok_def Let_def case_prod_beta keys_apart_insert set_insert_erase)

lemma table_ok_request: "table_ok t \<Longrightarrow> table_ok (snd (spec_request env call d resp t))"
  by (auto simp: spec_request_def Let_def case_prod_beta table_ok_remove split: option.splits)

lemma tbl_spec_ok: "table_ok t \<Longrightarrow> table_ok (snd (tbl_spec env cf x t))"
  by (cases x) (simp_all add: case_prod_beta Let_def table_ok_open table_ok_remove table_ok_request)

interpretation tbl: invariant_refinement "tbl_exec env" "tbl_spec env cf" view
  "\<lambda>s. idle s \<and> confor s = Some cf" table_ok for env :: "'w dev_env" and cf
proof unfold_locales
  fix s :: "'w msu" and x and t :: "'w table"
  assume ready: "idle s \<and> confor s = Some cf"
  show "\<exists>s'. tbl_exec env x s = Some (fst (tbl_spec env cf x (view s)), s')
      \<and> view s' = snd (tbl_spec env cf x (view s)) \<and> idle s' \<and> confor s' = Some cf"
  proof (cases x)
    case (OpOpen c d)
    then show ?thesis
      using ready open_ends [of s cf env c d] by (auto simp: ends_def case_prod_beta Let_def)
  next
    case (OpRemove c d force)
    then show ?thesis using ready remove_ends [of s env c d force] by auto
  next
    case (OpRequest d req len resp n)
    then show ?thesis
      using ready request_ends [of s env "\<lambda>h. send_request env h req len resp n" d resp]
      by (auto simp: operation_send_request_def case_prod_beta Let_def)
  next
    case (OpUrpc d cid req len resp n)
    then show ?thesis
      using ready request_ends [of s env "\<lambda>h. urpc_send_request env h cid req len resp n" d resp]
      by (auto simp: urpc_operation_send_request_def case_prod_beta Let_def)
  qed
next
  fix t :: "'w table" and x
  show "table_ok t \<Longrightarrow> table_ok (snd (tbl_spec env cf x t))" by (rule tbl_spec_ok)
qed

section \<open>Properties of every sequence\<close>



section \<open>Sharing\<close>

text \<open>
  A successful open of a fresh connection leaves the device open, with a handle, and the
  connection registered for it; a failed one changes neither devices nor connections.
\<close>

theorem open_outcome:
  assumes "idle s" and "confor s = Some cf" and "find_conn c (conns s) = None" and "table_ok (view s)"
  shows "\<exists>added s'. open_if_not env c d s = Some (added, s') \<and>
    (if added then (\<exists>h. map_find d (devices s') = Some (Some h)) \<and> conns s' = conns s @ [(c, d)]
       \<and> (\<forall>d'. \<not> devid_equiv d' d \<longrightarrow> map_find d' (devices s') = map_find d' (devices s))
     else devices s' = devices s \<and> conns s' = conns s)"
proof -
  have live: "h \<noteq> None" if "map_find d (devices s) = Some h" for h
    using map_find_mem [OF that] assms(4) by (auto simp: table_ok_def view_def)
  obtain s' where s': "open_if_not env c d s = Some (fst (spec_open env cf c d (view s)), s')"
    "view s' = snd (spec_open env cf c d (view s))"
    using open_ends [OF assms(1,2), of env c d] by (auto simp: ends_def)
  have parts: "devices s' = tdev (snd (spec_open env cf c d (view s)))"
    "conns s' = tconn (snd (spec_open env cf c d (view s)))"
    using arg_cong [OF s'(2), of tdev] arg_cong [OF s'(2), of tconn] by (simp_all add: view_def)
  obtain h p w where create: "scan_and_create env cf d (world s) = (h, p, w)" by (metis prod_cases3)
  have "if fst (spec_open env cf c d (view s))
     then (\<exists>h. map_find d (devices s') = Some (Some h)) \<and> conns s' = conns s @ [(c, d)]
       \<and> (\<forall>d'. \<not> devid_equiv d' d \<longrightarrow> map_find d' (devices s') = map_find d' (devices s))
     else devices s' = devices s \<and> conns s' = conns s"
  proof (cases "map_find d (devices s)")
    case None
    then show ?thesis
      using assms(3) create by (cases h) (simp_all add: parts spec_open_def view_def map_find_insert)
  next
    case (Some h)
    then show ?thesis using assms(3) live [OF Some] by (auto simp: parts spec_open_def view_def)
  qed
  with s'(1) show ?thesis by blast
qed

text \<open>
  C24: an orderly close takes the device away exactly when no other registered connection has the
  same identifier, and leaves every other device alone.
\<close>

theorem close_outcome:
  assumes "idle s" and "dev_id d \<noteq> UINT32_MAX" and "map_find d (devices s) = Some h"
  shows "\<exists>s'. remove_conn_or_remove_device env c d False s = Some s' \<and>
    conns s' = erase_conn c (conns s) \<and>
    (map_find d (devices s') \<noteq> None \<longleftrightarrow> (\<exists>c'. (c', d) \<in> set (erase_conn c (conns s)))) \<and>
    (\<forall>d'. \<not> devid_equiv d' d \<longrightarrow> map_find d' (devices s') = map_find d' (devices s))"
proof -
  obtain s' where s': "remove_conn_or_remove_device env c d False s = Some s'"
    "view s' = spec_remove env c d False (view s)" using remove_ends [OF assms(1)] by blast
  have parts: "devices s' = tdev (spec_remove env c d False (view s))"
    "conns s' = tconn (spec_remove env c d False (view s))"
    using arg_cong [OF s'(2), of tdev] arg_cong [OF s'(2), of tconn] by (simp_all add: view_def)
  have any: "any_serial d cs \<longleftrightarrow> (\<exists>c'. (c', d) \<in> set cs)" for cs
    by (auto simp: any_serial_def find_None_iff)
  have "conns s' = erase_conn c (conns s) \<and>
    (map_find d (devices s') \<noteq> None \<longleftrightarrow> (\<exists>c'. (c', d) \<in> set (erase_conn c (conns s)))) \<and>
    (\<forall>d'. \<not> devid_equiv d' d \<longrightarrow> map_find d' (devices s') = map_find d' (devices s))"
    using assms(2,3)
    by (auto simp: parts spec_remove_def spec_remove_known_def meant_def view_def Let_def any dm.find_erase)
  with s'(1) show ?thesis by blast
qed

section \<open>Where the table departs from its comments\<close>

lemma find_erase_conn: "c \<noteq> c' \<Longrightarrow> find_conn c (erase_conn c' cs) = find_conn c cs"
  by (induction cs) (auto simp: find_conn_def)

lemma spec_run_view:
  assumes "idle s" and "confor s = Some cf" and "spec_run (tbl_spec env cf) xs (view s) = (rs, t)"
  shows "\<exists>s'. run (tbl_exec env) xs s = Some (rs, s') \<and> devices s' = tdev t \<and> conns s' = tconn t"
  using tbl.run_refines [of s cf env xs] assms by (auto simp: view_def)

text \<open>
  When a device answers that it is gone, its table entry is removed but its connections stay
  registered; a new open on such a connection then reports success with no device behind it.
\<close>

theorem lost_device_reopens_empty:
  assumes "idle s" and "confor s = Some cf" and "find_conn c (conns s) \<noteq> None" and "c \<noteq> UINT32_MAX"
    and "map_find d (devices s) = Some h" and "dev_id d \<noteq> UINT32_MAX"
    and "send_request env h req len resp n (world s) = (xib_result_nodevice, bs, w)"
  shows "\<exists>s'. run (tbl_exec env) [OpRequest d req len resp n, OpOpen c d] s =
      Some ([RAnswer xib_result_nodevice bs, ROpened True], s') \<and> map_find d (devices s') = None"
proof -
  let ?t = "spec_remove env UINT32_MAX d True ((view s)\<lparr>tworld := w\<rparr>)"
  have t: "find_conn c (tconn ?t) \<noteq> None" "map_find d (tdev ?t) = None"
    using assms by (auto simp: spec_remove_def spec_remove_known_def meant_def view_def Let_def
        find_erase_conn dm.find_erase)
  have "spec_run (tbl_spec env cf) [OpRequest d req len resp n, OpOpen c d] (view s) =
      ([RAnswer xib_result_nodevice bs, ROpened True], ?t)"
    using assms(5,7) t(1) by (simp add: spec_request_def spec_open_def view_def Let_def)
  from spec_run_view [OF assms(1,2) this] t(2) show ?thesis by auto
qed

text \<open>
  A connection that closes another identifier than the one it opened loses its registration
  while its device stays open; its disconnection no longer finds the device, which no connection
  names any more.
\<close>

theorem close_other_leaks_device:
  assumes "idle s" and "confor s = Some cf" and "map_find d (devices s) = Some h"
    and "dev_id d' \<noteq> UINT32_MAX" and "map_find d' (devices s) = None"
    and "map_find (devid_of_id 0) (devices s) = None" and "find_conn c (erase_conn c (conns s)) = None"
  shows "\<exists>s'. run (tbl_exec env) [OpRemove c d' False, OpRemove c (devid_of_id UINT32_MAX) False] s =
      Some ([RDone, RDone], s') \<and> map_find d (devices s') = Some h \<and> find_conn c (conns s') = None"
proof -
  have same: "erase_conn c cs = cs" if "find_conn c cs = None" for cs
    using that by (induction cs) (auto simp: find_conn_def)
  let ?t = "(view s)\<lparr>tconn := erase_conn c (conns s)\<rparr>"
  have one: "spec_remove env c d' False (view s) = ?t"
    using assms(4,5) by (simp add: spec_remove_def spec_remove_known_def meant_def view_def)
  have "(0 :: u32) \<noteq> UINT32_MAX" by (simp add: UINT32_MAX_def)
  then have "spec_remove env c (devid_of_id UINT32_MAX) False ?t = ?t"
    using assms(6,7)
    by (simp add: spec_remove_def spec_remove_known_def meant_def view_def same)
  with one have "spec_run (tbl_spec env cf) [OpRemove c d' False, OpRemove c (devid_of_id UINT32_MAX) False] (view s)
      = ([RDone, RDone], ?t)" by simp
  from spec_run_view [OF assms(1,2) this] assms(3,7) show ?thesis by (auto simp: view_def)
qed

text \<open>
  The search for other users of a device compares the reserved number, the search for the
  device does not: of two connections that name one device with different reserved numbers, the
  first to close takes the device from the other.
\<close>

theorem close_takes_shared_device:
  assumes "idle s" and "confor s = Some cf" and "map_find d (devices s) = Some h"
    and "dev_id d \<noteq> UINT32_MAX" and "r \<noteq> dev_reserve d" and "c \<noteq> c'"
    and "conns s = [(c, d), (c', d\<lparr>dev_reserve := r\<rparr>)]"
  shows "\<exists>s'. run (tbl_exec env) [OpRemove c d False] s = Some ([RDone], s') \<and>
    map_find (d\<lparr>dev_reserve := r\<rparr>) (devices s') = None \<and> conns s' = [(c', d\<lparr>dev_reserve := r\<rparr>)]"
proof -
  let ?t = "spec_remove env c d False (view s)"
  have other: "d\<lparr>dev_reserve := r\<rparr> \<noteq> d"
  proof
    assume "d\<lparr>dev_reserve := r\<rparr> = d"
    from arg_cong [OF this, of dev_reserve] assms(5) show False by simp
  qed
  then have "tconn ?t = [(c', d\<lparr>dev_reserve := r\<rparr>)] \<and> tdev ?t = map_erase d (devices s)"
    using assms(3-7)
    by (auto simp: spec_remove_def spec_remove_known_def meant_def view_def Let_def any_serial_def)
  moreover have "devid_equiv (d\<lparr>dev_reserve := r\<rparr>) d" by (simp add: devid_equiv_alt)
  moreover have "spec_run (tbl_spec env cf) [OpRemove c d False] (view s) = ([RDone], ?t)" by simp
  ultimately show ?thesis
    using spec_run_view [OF assms(1,2), of env "[OpRemove c d False]" "[RDone]" ?t]
    by (auto simp: dm.find_erase)
qed

section \<open>A table with one device\<close>

text \<open>An outside world in which one handle can be created and every request fails with "no device".\<close>

definition demo_env :: "unit dev_env" where
  "demo_env = \<lparr>com_create = (\<lambda>addr w. (Some 1, w)), com_destroy = (\<lambda>h w. w),
     com_request = (\<lambda>h req n w. (xib_result_nodevice, [], w)),
     com_urpc_request = (\<lambda>h cid req n w. (xib_result_nodevice, [], w)),
     com_scan = (\<lambda>w. (Some [], w)), com_link = (\<lambda>w s. None)\<rparr>"

definition demo_msu :: "(devid \<times> handle option) list \<Rightarrow> (conn_id_t \<times> devid) list \<Rightarrow> unit msu" where
  "demo_msu ds cs = \<lparr>devices = ds, conns = cs, rwl = ReadWriteLock, pool = [], pool_rwl = ReadWriteLock,
     confor = Some DevId2UsbBySerial, pports = None, world = ()\<rparr>"

lemma demo_idle: "idle (demo_msu ds cs)" "confor (demo_msu ds cs) = Some DevId2UsbBySerial"
  "devices (demo_msu ds cs) = ds" "conns (demo_msu ds cs) = cs" "table_ok (view (demo_msu [] cs))"
  by (simp_all add: demo_msu_def idle_def table_ok_def view_def)


lemma demo_open: "\<exists>s'. run (tbl_exec demo_env) [OpOpen 5 (devid_of_id 9)] (demo_msu [] []) =
    Some ([ROpened True], s')"
  using tbl.run_refines [of "demo_msu [] []" DevId2UsbBySerial demo_env "[OpOpen 5 (devid_of_id 9)]"]
  by (auto simp: spec_open_def scan_and_create_def demo_env_def demo_msu_def view_def find_conn_def idle_def)


theorem open_outcome_witness:
  "\<exists>added s'. open_if_not demo_env 5 (devid_of_id 9) (demo_msu [] []) = Some (added, s')
     \<and> (added \<longrightarrow> conns s' = [(5, devid_of_id 9)])"
  using open_outcome [OF demo_idle(1) demo_idle(2), of 5 "[]" "[]" demo_env "devid_of_id 9"]
  by (force simp: demo_idle find_conn_def)

theorem close_outcome_witness:
  "\<exists>s'. remove_conn_or_remove_device demo_env 5 (devid_of_id 9) False
       (demo_msu [(devid_of_id 9, Some 1)] [(5, devid_of_id 9), (6, devid_of_id 9)]) = Some s' \<and>
     map_find (devid_of_id 9) (devices s') \<noteq> None"
  using close_outcome [OF demo_idle(1), of "devid_of_id 9" "[(devid_of_id 9, Some 1)]"
      "[(5, devid_of_id 9), (6, devid_of_id 9)]" "Some 1" demo_env 5]
  by (auto simp: demo_idle UINT32_MAX_def)

theorem lost_device_reopens_empty_witness:
  "\<exists>s'. run (tbl_exec demo_env) [OpRequest (devid_of_id 9) [] 0 [] 0, OpOpen 5 (devid_of_id 9)]
      (demo_msu [(devid_of_id 9, Some 1)] [(5, devid_of_id 9)]) =
      Some ([RAnswer xib_result_nodevice [], ROpened True], s')
     \<and> map_find (devid_of_id 9) (devices s') = None"
  using lost_device_reopens_empty [OF demo_idle(1) demo_idle(2), of 5 "[(devid_of_id 9, Some 1)]"
      "[(5, devid_of_id 9)]" "devid_of_id 9" "Some 1" demo_env "[]" 0 "[]" 0 "[]" "()"]
  by (simp add: demo_idle find_conn_def UINT32_MAX_def send_request_def demo_env_def demo_msu_def fill_def
      overwrite_def)

theorem close_other_leaks_device_witness:
  "\<exists>s'. run (tbl_exec demo_env) [OpRemove 5 (devid_of_id 8) False, OpRemove 5 (devid_of_id UINT32_MAX) False]
      (demo_msu [(devid_of_id 9, Some 1)] [(5, devid_of_id 9)]) = Some ([RDone, RDone], s')
     \<and> map_find (devid_of_id 9) (devices s') = Some (Some 1)"
  using close_other_leaks_device [OF demo_idle(1) demo_idle(2), of "devid_of_id 9" "[(devid_of_id 9, Some 1)]"
      "[(5, devid_of_id 9)]" "Some 1" "devid_of_id 8" 5 demo_env]
  by (force simp: demo_idle find_conn_def UINT32_MAX_def devid_equiv_alt)

theorem close_takes_shared_device_witness:
  "\<exists>s'. run (tbl_exec demo_env) [OpRemove 5 (devid_of_id 9) False]
      (demo_msu [(devid_of_id 9, Some 1)] [(5, devid_of_id 9), (6, (devid_of_id 9)\<lparr>dev_reserve := 1\<rparr>)])
       = Some ([RDone], s') \<and> conns s' = [(6, (devid_of_id 9)\<lparr>dev_reserve := 1\<rparr>)]"
  using close_takes_shared_device [OF demo_idle(1) demo_idle(2), of "devid_of_id 9"
      "[(devid_of_id 9, Some 1)]" "[(5, devid_of_id 9), (6, (devid_of_id 9)\<lparr>dev_reserve := 1\<rparr>)]" "Some 1" 1 5 6 demo_env]
  by (auto simp: demo_idle UINT32_MAX_def)

end
