(* ===== verification/Exchange.thy ===== *)
theory Exchange
  imports Protocols
begin

text \<open>
  Both ends together: the server parses what the client builds and the client parses what the
  server builds, for versions 2 and 3. The contract of a request-response protocol is the locale
  \<open>wire_protocol\<close>; versions 2 and 3 are its interpretations.
\<close>

section \<open>The server parses the client's requests\<close>

lemma mseek_over [buf_simps]:
  assumes "length pre + length xs + length rest < 2 ^ 30"
  shows "mseek (rbuf c pre (xs @ rest)) (int (length xs)) = rbuf c (pre @ xs) rest"
proof -
  have "int (length xs) < 2 ^ 31 - int (dlen (rbuf c pre (xs @ rest)))" using assms by simp
  moreover have "mbuf_ok (rbuf c pre (xs @ rest))" using assms by (intro rbuf_ok) simp
  ultimately have "mseek (rbuf c pre (xs @ rest)) (int (length xs)) =
      (rbuf c pre (xs @ rest))\<lparr>pdata := length pre + length xs\<rparr>"
    by (simp add: mbuf_ok_seek nat_int_add)
  then show ?thesis by (simp add: rbuf_def)
qed

lemma sint_word_of_nat: "n < 2 ^ 30 \<Longrightarrow> sint (word_of_nat n :: u32) = int n"
  by (simp add: signed_of_nat signed_take_bit_int_eq_self)

abbreviation medium :: "bvector \<Rightarrow> bool" where
  "medium d \<equiv> length d < 2 ^ 30 - 8192"

lemma server_cmd3:
  assumes "is_server p" and "medium data"
  shows "Protocol3_get_data_from_request p
      (MBuf_data (head3 3 t d @ be32 (word_of_nat (length data)) @ data @ be32 n) True) =
    \<lparr>p3_ok = True, p3_proto = p\<lparr>res_err := 0\<rparr>, p3_data = data, p3_dev = d, p3_resp_len = n\<rparr>"
  using assms
  by (simp add: Protocol3_get_data_from_request_def Protocol3_get_spec_data_def head3_def
      buf_simps sint_word_of_nat unat_of_nat)

lemma server_plain3:
  assumes "is_server p" and "k \<in> {1, 2, 4, 5}"
  shows "Protocol3_get_data_from_request p (MBuf_data (head3 k t d) True) =
    \<lparr>p3_ok = True, p3_proto = p\<lparr>res_err := 0\<rparr>, p3_data = [], p3_dev = d, p3_resp_len = 0\<rparr>"
  using assms
  by (auto simp: Protocol3_get_data_from_request_def Protocol3_get_spec_data_def head3_def buf_simps)

lemma server_cmd2:
  assumes "is_server p" and "length cid = 4" and "medium data"
  shows "Protocol2_get_data_from_request p
      (MBuf_data (head12 2 3 s @ cid @ be32 n @ data) True) c0 =
    Some \<lparr>p2_ok = True, p2_proto = p\<lparr>res_err := n\<rparr>, p2_cid = cid, p2_data = data,
          p2_dev = devid_of_id s, p2_resp_len = n\<rparr>"
proof -
  have "mseek (rbuf 0 pre (cid @ be32 n @ data)) 4 = rbuf 0 (pre @ cid) (be32 n @ data)"
    if "length pre = 24" for pre
    using mseek_over [of pre cid "be32 n @ data" 0] assms that by simp
  then show ?thesis
    using assms
    by (simp add: Protocol2_get_data_from_request_def Protocol2_get_spec_data_def head12_def
        buf_simps URPC_CID_SIZE_def size_max_def)
qed

lemma server_plain2:
  assumes "is_server p" and "k \<in> {1, 2}"
  shows "Protocol2_get_data_from_request p (MBuf_data (head12 v k s) True) c0 =
    Some \<lparr>p2_ok = True, p2_proto = p\<lparr>res_err := 0\<rparr>, p2_cid = c0, p2_data = [],
          p2_dev = devid_of_id s, p2_resp_len = 0\<rparr>"
  using assms
  by (auto simp: Protocol2_get_data_from_request_def Protocol2_get_spec_data_def head12_def buf_simps)

section \<open>Enumeration\<close>

lemma Protocol3_enum_loop_be:
  "length pre + 12 * length ds + length rest < 2 ^ 30 \<Longrightarrow>
   Protocol3_enum_loop (length ds) (rbuf c pre (concat (map be_devid ds) @ rest)) (idev3 e) data =
     (rbuf c (pre @ concat (map be_devid ds)) rest, data @ concat (map be_devid ds))"
  by (induction ds arbitrary: pre e data) (simp_all add: get_idev3_be add_dev_id_be)

lemma client_enum3:
  assumes "\<not> is_server p" and "length ds < 2 ^ 26"
  shows "get_data_from_bindy_callback Proto3 p (MBuf_data (Protocol3_create_enum_response ds) True) u
      = accepted p (word_of_nat (length ds)) (concat (map be_devid ds)) 0xFC"
proof -
  let ?pre = "be32 3 @ be32 0xFC @ be32 0 @ be_devid (devid_of_id 0) @ be32 0 @ be32 0
      @ be32 (word_of_nat (length ds))"
  have "Protocol3_enum_loop (length ds) (rbuf 0 ?pre (concat (map be_devid ds) @ be32 0))
      (idev3 (devid_of_id 0)) [] =
      (rbuf 0 (?pre @ concat (map be_devid ds)) (be32 0), concat (map be_devid ds))"
    using Protocol3_enum_loop_be [of ?pre ds "be32 0" 0 "devid_of_id 0" "[]"] assms by simp
  then show ?thesis
    using assms
    by (simp add: Protocol3_enum_response_bytes head3_def client_head3 Protocol3_get_spec_data_def
        buf_simps sint_word_of_nat)
qed

section \<open>The contract of a request-response protocol\<close>

text \<open>
  One command travels as \<open>enc_req\<close> (client), \<open>dec_req\<close> (server), \<open>enc_resp\<close> (server), \<open>dec_resp\<close>
  (client). \<open>seen d\<close> is the part of a device identifier that survives the packet.
\<close>

definition transact ::
    "(devid \<Rightarrow> bvector \<Rightarrow> u32 \<Rightarrow> bvector option) \<Rightarrow> (bvector \<Rightarrow> (devid \<times> bvector \<times> u32) option) \<Rightarrow>
     (devid \<Rightarrow> bvector \<Rightarrow> bvector) \<Rightarrow> (bvector \<Rightarrow> bvector option) \<Rightarrow>
     (devid \<Rightarrow> bvector \<Rightarrow> u32 \<Rightarrow> bvector) \<Rightarrow> devid \<Rightarrow> bvector \<Rightarrow> u32 \<Rightarrow> bvector option" where
  "transact enc_req dec_req enc_resp dec_resp f d data n =
     Option.bind (enc_req d data n) (\<lambda>pkt.
     Option.bind (dec_req pkt) (\<lambda>(d', data', n').
     dec_resp (enc_resp d' (f d' data' n'))))"

locale wire_protocol =
  fixes enc_req :: "devid \<Rightarrow> bvector \<Rightarrow> u32 \<Rightarrow> bvector option"
    and dec_req :: "bvector \<Rightarrow> (devid \<times> bvector \<times> u32) option"
    and enc_resp :: "devid \<Rightarrow> bvector \<Rightarrow> bvector"
    and dec_resp :: "bvector \<Rightarrow> bvector option"
    and seen :: "devid \<Rightarrow> devid"
    and req_ok :: "bvector \<Rightarrow> bool"
    and resp_ok :: "bvector \<Rightarrow> bool"
  assumes req_built: "req_ok data \<Longrightarrow> enc_req d data n \<noteq> None"
    and dec_enc_req: "req_ok data \<Longrightarrow> enc_req d data n = Some pkt \<Longrightarrow> dec_req pkt = Some (seen d, data, n)"
    and dec_enc_resp: "resp_ok resp \<Longrightarrow> dec_resp (enc_resp d resp) = Some resp"
begin

lemma transact_result:
  assumes "req_ok data" and "resp_ok (f (seen d) data n)"
  shows "transact enc_req dec_req enc_resp dec_resp f d data n = Some (f (seen d) data n)"
proof -
  obtain pkt where "enc_req d data n = Some pkt" using req_built [OF assms(1)] by blast
  with dec_enc_req [OF assms(1) this] dec_enc_resp [OF assms(2)] show ?thesis
    by (simp add: transact_def)
qed

lemma request_unambiguous:
  assumes "req_ok data" and "req_ok data'" and "enc_req d data n = enc_req d' data' n'"
  shows "seen d = seen d' \<and> data = data' \<and> n = n'"
proof -
  obtain pkt where "enc_req d data n = Some pkt" using req_built [OF assms(1)] by blast
  with assms dec_enc_req show ?thesis by (metis option.inject prod.inject)
qed

end

subsection \<open>Version 3\<close>

definition server_obj :: aproto where
  "server_obj = \<lparr>is_server = True, res_err = 0, perror = 0\<rparr>"

definition client_obj :: aproto where
  "client_obj = \<lparr>is_server = False, res_err = 0, perror = 0\<rparr>"

definition v3_dec_req :: "bvector \<Rightarrow> (devid \<times> bvector \<times> u32) option" where
  "v3_dec_req pkt =
     (let r = Protocol3_get_data_from_request server_obj (MBuf_data pkt True)
      in if p3_ok r then Some (p3_dev r, p3_data r, p3_resp_len r) else None)"

definition client_payload :: "proto_class \<Rightarrow> bvector \<Rightarrow> bvector option" where
  "client_payload c pkt =
     (case get_data_from_bindy_callback c client_obj (MBuf_data pkt True) 0 of
        None \<Rightarrow> None
      | Some r \<Rightarrow> if cd_ok r then Some (cd_data r) else None)"

definition v3_enc_req :: "devid \<Rightarrow> bvector \<Rightarrow> u32 \<Rightarrow> bvector option" where
  "v3_enc_req d data n = create_cmd_request Proto3 d 0 (Some data) n"

interpretation v3: wire_protocol v3_enc_req v3_dec_req Protocol3_create_cmd_response
  "client_payload Proto3" "\<lambda>d. d" medium short
proof unfold_locales
  fix data d n pkt
  assume m: "medium data"
  show "v3_enc_req d data n \<noteq> None" by (simp add: v3_enc_req_def)
  assume "v3_enc_req d data n = Some pkt"
  with m have "pkt = head3 3 0 d @ be32 (word_of_nat (length data)) @ data @ be32 n"
    by (simp add: v3_enc_req_def Protocol3_cmd_request_bytes)
  with m server_cmd3 [of server_obj data 0 d n] show "v3_dec_req pkt = Some (d, data, n)"
    by (simp add: v3_dec_req_def server_obj_def)
next
  fix resp d
  assume "short resp"
  with client_data3 [of client_obj resp 0 d 0]
  show "client_payload Proto3 (Protocol3_create_cmd_response d resp) = Some resp"
    by (simp add: client_payload_def client_obj_def Protocol3_response_bytes)
qed

subsection \<open>Version 2\<close>

text \<open>
  The request is the command identifier and the rest; the response is the result code, in four
  bytes, and the device's data. The length in the packet leaves the result code out.
\<close>

definition v2_enc_req :: "devid \<Rightarrow> bvector \<Rightarrow> u32 \<Rightarrow> bvector option" where
  "v2_enc_req d data n = create_cmd_request Proto2 d 0 (Some data) n"

definition v2_dec_req :: "bvector \<Rightarrow> (devid \<times> bvector \<times> u32) option" where
  "v2_dec_req pkt =
     (case Protocol2_get_data_from_request server_obj (MBuf_data pkt True) [] of
        None \<Rightarrow> None
      | Some r \<Rightarrow> if p2_ok r then Some (p2_dev r, p2_cid r @ p2_data r, p2_resp_len r + 4) else None)"

definition v2_enc_resp :: "devid \<Rightarrow> bvector \<Rightarrow> bvector" where
  "v2_enc_resp d resp = Protocol2_create_cmd_response (val32 (take 4 resp)) d (drop 4 resp)"

lemma be32_val32:
  assumes "length bs = 4"
  shows "be32 (val32 bs) = bs"
proof -
  from assms obtain a b c d where bs: "bs = [a, b, c, d]"
    by (auto simp: length_Suc_conv numeral_eq_Suc)
  show ?thesis unfolding bs be32_def val32_def
    by (auto intro!: bit_word_eqI simp: bit_simps)
qed

interpretation v2: wire_protocol v2_enc_req v2_dec_req v2_enc_resp "client_payload Proto2"
  "\<lambda>d. devid_of_id (dev_id d)" "\<lambda>data. 4 \<le> length data \<and> medium data" "\<lambda>r. 4 \<le> length r \<and> medium r"
proof unfold_locales
  fix data d n pkt
  assume ok: "4 \<le> length data \<and> medium data"
  define cid rest where "cid = take 4 data" and "rest = drop 4 data"
  with ok have parts: "data = cid @ rest" "length cid = 4" "medium rest" by auto
  then have pkt: "v2_enc_req d data n = Some (head12 2 3 (dev_id d) @ cid @ be32 (n - 4) @ rest)"
    using Protocol2_cmd_request_bytes [of cid rest d 0 n] by (simp add: v2_enc_req_def)
  then show "v2_enc_req d data n \<noteq> None" by simp
  assume "v2_enc_req d data n = Some pkt"
  with pkt parts server_cmd2 [of server_obj cid rest "dev_id d" "n - 4" "[]"]
  show "v2_dec_req pkt = Some (devid_of_id (dev_id d), data, n)"
    by (simp add: v2_dec_req_def server_obj_def)
next
  fix resp d
  assume ok: "4 \<le> length resp \<and> medium resp"
  then have "be32 (val32 (take 4 resp)) @ drop 4 resp = resp"
    by (simp add: be32_val32)
  moreover from ok have "short (drop 4 resp)" by auto
  ultimately have "v2_enc_resp d resp = head12 2 0xFD (dev_id d) @ resp"
    by (simp add: v2_enc_resp_def Protocol2_response_bytes)
  with ok client_data12(1) [of client_obj resp 2 "dev_id d" 0]
  show "client_payload Proto2 (v2_enc_resp d resp) = Some resp"
    by (simp add: client_payload_def client_obj_def)
qed

end
