(* ===== verification/Parsing.thy ===== *)
theory Parsing
  imports Exchange
begin

text \<open>
  What the parsers accept, over all packets. \<open>reads\<close> keeps account of a sequence of reads and
  seeks: a sequence of fewer than 256 operations that leaves the overflow counter at 0 has
  consumed every byte it asked for. Long packets are taken apart into head and body.
\<close>

section \<open>Accounting for reads\<close>

definition reads :: "nat \<Rightarrow> nat \<Rightarrow> mbuf \<Rightarrow> mbuf \<Rightarrow> bool" where
  "reads n b m m' \<longleftrightarrow> mbuf_ok m' \<and> dlen m' = dlen m \<and>
     (\<exists>j \<le> n. ovrflow m' = ovrflow m + of_nat j \<and> (j = 0 \<longrightarrow> pdata m' = pdata m + b))"

lemma reads_refl: "mbuf_ok m \<Longrightarrow> reads 0 0 m m"
  by (simp add: reads_def)

lemma reads_trans [trans]:
  assumes "reads n b m m1" and "reads n' b' m1 m2"
  shows "reads (n + n') (b + b') m m2"
proof -
  obtain j j' where "j \<le> n" "ovrflow m1 = ovrflow m + of_nat j" "j = 0 \<longrightarrow> pdata m1 = pdata m + b"
    "j' \<le> n'" "ovrflow m2 = ovrflow m1 + of_nat j'" "j' = 0 \<longrightarrow> pdata m2 = pdata m1 + b'"
    using assms unfolding reads_def by blast
  then show ?thesis
    using assms unfolding reads_def by (intro conjI exI [of _ "j + j'"]) auto
qed

lemma reads_ok: "reads n b m m' \<Longrightarrow> mbuf_ok m'"
  by (simp add: reads_def)

lemma advance_ovrflow [simp]: "ovrflow (advance m n) = ovrflow m"
  by (simp add: advance_def)

lemma overflow_ovrflow [simp]: "ovrflow (overflow m) = ovrflow m + 1"
  by (simp add: overflow_def)

lemma reads_fail: "mbuf_ok m \<Longrightarrow> reads (Suc 0) b m (overflow m)"
  unfolding reads_def by (intro conjI exI [of _ "Suc 0"]) auto

lemma reads_move: "mbuf_ok m \<Longrightarrow> b \<le> dlen m - pdata m \<Longrightarrow> reads (Suc 0) b m (advance m b)"
  unfolding reads_def by (intro conjI exI [of _ 0]) auto

lemma reads_get:
  assumes "mbuf_ok m"
  shows "tsize h = 4 \<Longrightarrow> reads (Suc 0) 4 m (fst (get32 m h))"
    and "tsize k = 2 \<Longrightarrow> reads (Suc 0) 2 m (fst (get16 m k))"
  using assms by (auto simp: get32_def get16_def intro: reads_fail reads_move)

lemma reads_get_idev3:
  assumes "mbuf_ok m" and "tsize (id_value h) = 4" "tsize (idev_reserve h) = 4"
    "tsize (id_pid h) = 2" "tsize (id_vid h) = 2" "\<not> lend h"
  shows "reads (Suc (Suc (Suc (Suc 0)))) 12 m (fst (get_idev3 m h))"
proof -
  let ?m1 = "fst (get32 m (idev_reserve h))"
  let ?m2 = "fst (get16 ?m1 (id_vid h))"
  let ?m3 = "fst (get16 ?m2 (id_pid h))"
  let ?m4 = "fst (get32 ?m3 (id_value h))"
  have 1: "reads (Suc 0) 4 m ?m1" using assms by (simp add: reads_get)
  have 2: "reads (Suc 0 + Suc 0) (4 + 2) m ?m2"
    by (rule reads_trans [OF 1]) (use assms reads_ok [OF 1] in \<open>simp add: reads_get\<close>)
  have 3: "reads (Suc 0 + Suc 0 + Suc 0) (4 + 2 + 2) m ?m3"
    by (rule reads_trans [OF 2]) (use assms reads_ok [OF 2] in \<open>simp add: reads_get\<close>)
  have 4: "reads (Suc 0 + Suc 0 + Suc 0 + Suc 0) (4 + 2 + 2 + 4) m ?m4"
    by (rule reads_trans [OF 3]) (use assms reads_ok [OF 3] in \<open>simp add: reads_get\<close>)
  then show ?thesis using assms(6) by (simp add: get_idev3_def case_prod_beta Let_def)
qed

lemma reads_seek8:
  assumes "mbuf_ok m" and "dlen m < 2 ^ 31 - 1024"
  shows "reads (Suc 0) 8 m (mseek m 8)"
proof -
  have "mseek m 8 = (if pdata m + 8 \<le> dlen m then advance m 8 else overflow m)"
    using assms by (auto simp: mbuf_ok_seek advance_def nat_add_distrib)
  then show ?thesis using assms reads_fail [of m 8] reads_move [of m 8] by auto
qed

text \<open>The point of the account.\<close>

lemma reads_unbroken:
  assumes "reads n b m m'" and "n < 256" and "ovrflow m = 0" and "\<not> wasBroken m'"
  shows "pdata m + b \<le> dlen m"
proof -
  from assms(1) obtain j where j: "j \<le> n" "ovrflow m' = of_nat j" "j = 0 \<longrightarrow> pdata m' = pdata m + b"
    using assms(3) by (auto simp: reads_def)
  have "(of_nat j :: u8) = 0" using assms(4) j(2) by (simp add: wasBroken_def)
  then have "256 dvd j" by (simp add: word_of_nat_eq_0_iff)
  with j(1) assms(2) have "j = 0" by (auto dest: dvd_imp_le)
  with j(3) assms(1) show ?thesis by (auto simp: reads_def mbuf_ok_def)
qed

section \<open>Taking packets apart\<close>

definition word_at :: "bvector \<Rightarrow> nat \<Rightarrow> u32" where
  "word_at d k = val32 (take 4 (drop k d))"

lemma split4:
  assumes "4 \<le> length d"
  obtains v rest where "d = be32 v @ rest" "length d = 4 + length rest"
proof
  show "d = be32 (val32 (take 4 d)) @ drop 4 d" using assms by (simp add: be32_val32)
  show "length d = 4 + length (drop 4 d)" using assms by simp
qed

lemma split2:
  assumes "2 \<le> length d"
  obtains w rest where "d = be16 w @ rest" "length d = 2 + length rest"
proof -
  from assms obtain a b rest where d: "d = [a, b] @ rest"
    by (cases d; cases "tl d") auto
  have "be16 (push_bit 8 (ucast a) OR ucast b) = [a, b]"
    by (auto simp: be16_def intro!: bit_word_eqI) (auto simp: bit_simps dest: bit_imp_le_length)
  with d have "d = be16 (push_bit 8 (ucast a) OR ucast b) @ rest" "length d = 2 + length rest"
    by simp_all
  then show thesis by (rule that)
qed

lemma split_devid:
  assumes "12 \<le> length d"
  obtains e rest where "d = be_devid e @ rest" "length d = 12 + length rest"
proof -
  obtain r d1 where 1: "d = be32 r @ d1" "length d = 4 + length d1" using assms split4 [of d] by auto
  then obtain v d2 where 2: "d1 = be16 v @ d2" "length d1 = 2 + length d2"
    using assms split2 [of d1] by auto
  then obtain p d3 where 3: "d2 = be16 p @ d3" "length d2 = 2 + length d3"
    using assms 1 split2 [of d2] by auto
  then obtain i rest where 4: "d3 = be32 i @ rest" "length d3 = 4 + length rest"
    using assms 1 2 split4 [of d3] by auto
  have "d = be_devid (mk_devid i p v r) @ rest"
    using 1 2 3 4 by (simp add: be_devid_def)
  moreover have "length d = 12 + length rest" using 1 2 3 4 by simp
  ultimately show thesis by (rule that)
qed

lemma split_head3:
  assumes "24 \<le> length d"
  obtains v k t e body where "d = be32 v @ be32 k @ be32 t @ be_devid e @ body"
    "length d = 24 + length body"
proof -
  obtain v d1 where 1: "d = be32 v @ d1" "length d = 4 + length d1" using assms split4 [of d] by auto
  then obtain k d2 where 2: "d1 = be32 k @ d2" "length d1 = 4 + length d2"
    using assms split4 [of d1] by auto
  then obtain t d3 where 3: "d2 = be32 t @ d3" "length d2 = 4 + length d3"
    using assms 1 split4 [of d2] by auto
  then obtain e body where 4: "d3 = be_devid e @ body" "length d3 = 12 + length body"
    using assms 1 2 split_devid [of d3] by auto
  from 1 2 3 4 that show ?thesis by simp
qed

lemma split_head12:
  assumes "16 \<le> length d"
  obtains v k t s body where "d = be32 v @ be32 k @ be32 t @ be32 s @ body"
    "length d = 16 + length body"
proof -
  obtain v d1 where 1: "d = be32 v @ d1" "length d = 4 + length d1" using assms split4 [of d] by auto
  then obtain k d2 where 2: "d1 = be32 k @ d2" "length d1 = 4 + length d2"
    using assms split4 [of d1] by auto
  then obtain t d3 where 3: "d2 = be32 t @ d3" "length d2 = 4 + length d3"
    using assms 1 split4 [of d2] by auto
  then obtain s body where 4: "d3 = be32 s @ body" "length d3 = 4 + length body"
    using assms 1 2 split4 [of d3] by auto
  from 1 2 3 4 that show ?thesis by simp
qed

lemma word_at_be [simp]: "word_at (be32 v @ d) 0 = v"
  by (simp add: word_at_def)

lemma word_at_skip [simp]:
  "4 \<le> k \<Longrightarrow> word_at (be32 v @ d) k = word_at d (k - 4)"
  "12 \<le> k \<Longrightarrow> word_at (be_devid e @ d) k = word_at d (k - 12)"
  by (simp_all add: word_at_def)

section \<open>Version 3 at the server\<close>

lemma reads_next:
  "reads n b m m1 \<Longrightarrow> (mbuf_ok m1 \<Longrightarrow> reads n' b' m1 m2) \<Longrightarrow> reads (n + n') (b + b') m m2"
  by (rule reads_trans) (auto dest: reads_ok)

text \<open>The buffer after the three words and the identifier.\<close>

definition after_head3 :: "bvector \<Rightarrow> mbuf" where
  "after_head3 d =
     fst (get_idev3 (fst (get32 (fst (get32 (fst (get32 (MBuf_data d True)
       (Hex32 0 False))) (Hex32 0 False))) (Hex32 0 False))) (HexIDev3 None False))"

lemma reads_after_head3:
  assumes "length d < 2 ^ 31"
  shows "reads 7 24 (MBuf_data d True) (after_head3 d)"
proof -
  let ?m0 = "MBuf_data d True"
  let ?m1 = "fst (get32 ?m0 (Hex32 0 False))"
  let ?m2 = "fst (get32 ?m1 (Hex32 0 False))"
  let ?m3 = "fst (get32 ?m2 (Hex32 0 False))"
  have 0: "mbuf_ok ?m0" using assms by (simp add: MBuf_data_rbuf rbuf_ok)
  have 1: "reads (Suc 0) 4 ?m0 ?m1" using 0 by (simp add: reads_get)
  have 2: "reads (Suc 0 + Suc 0) (4 + 4) ?m0 ?m2"
    by (rule reads_next [OF 1]) (simp add: reads_get)
  have 3: "reads (Suc 0 + Suc 0 + Suc 0) (4 + 4 + 4) ?m0 ?m3"
    by (rule reads_next [OF 2]) (simp add: reads_get)
  have 4: "reads (Suc 0 + Suc 0 + Suc 0 + Suc (Suc (Suc (Suc 0)))) (4 + 4 + 4 + 12) ?m0 (after_head3 d)"
    unfolding after_head3_def by (rule reads_next [OF 3]) (rule reads_get_idev3; simp)
  have "Suc 0 + Suc 0 + Suc 0 + Suc (Suc (Suc (Suc 0))) = 7" and "4 + 4 + 4 + 12 = (24::nat)"
    by simp_all
  with 4 show ?thesis by (simp only:)
qed

lemma server3_accept_bytes:
  assumes "length d < 2 ^ 31 - 1024" and "is_server p"
    and ok: "p3_ok (Protocol3_get_data_from_request p (MBuf_data d True))"
  shows "28 \<le> length d"
proof -
  let ?after = "after_head3 d" and ?start = "MBuf_data d True"
  let ?h = "snd (get32 ?start (Hex32 0 False))"
  have m: "reads 7 24 ?start ?after" by (rule reads_after_head3) (use assms in simp)
  have dlen: "dlen ?after = length d" using m by (simp add: reads_def dlen_def MBuf_data_def)
  let ?r1 = "fst (get32 ?after ?h)" and ?r2 = "fst (get32 (mseek ?after 8) (Hex32 0 False))"
  have r1: "reads (7 + Suc 0) (24 + 4) ?start ?r1"
    by (rule reads_next [OF m]) (simp add: reads_get)
  have s: "reads (7 + Suc 0) (24 + 8) ?start (mseek ?after 8)"
    by (rule reads_next [OF m]) (use dlen assms in \<open>simp add: reads_seek8\<close>)
  have r2: "reads (7 + Suc 0 + Suc 0) (24 + 8 + 4) ?start ?r2"
    by (rule reads_next [OF s]) (simp add: reads_get)
  have "\<not> wasBroken ?r1 \<or> \<not> wasBroken ?r2"
    using ok assms(2)
    by (auto simp: Protocol3_get_data_from_request_def Protocol3_get_spec_data_def Let_def
        case_prod_beta after_head3_def split: if_splits)
  then show ?thesis
    using reads_unbroken [OF r1] reads_unbroken [OF r2] by (auto simp: MBuf_data_def dlen_def)
qed

lemma rbuf_seek_8 [buf_simps]:
  assumes "length pre + length rest < 2 ^ 31 - 2048"
  shows "mseek (rbuf c pre rest) 8 =
     (if 8 \<le> length rest then rbuf c (pre @ take 8 rest) (drop 8 rest) else rbuf (c + 1) pre rest)"
  using rbuf_seek_n [of pre rest 8 c] assms by simp

lemma server3_cmd_body:
  assumes "is_server p" and "length body < 2 ^ 30 - 8192" and "4 \<le> length body"
  shows "p3_ok (Protocol3_get_data_from_request p
      (rbuf 0 [] (be32 v @ be32 3 @ be32 t @ be_devid e @ body)))
    \<longleftrightarrow> 12 \<le> length body \<and> length body = 16 + unat (word_at body 8)"
proof (cases "12 \<le> length body")
  case False
  then show ?thesis
    using assms
    by (simp add: Protocol3_get_data_from_request_def Protocol3_get_spec_data_def buf_simps get32_rbuf
        Let_def)
next
  case True
  then obtain a d1 where 1: "body = be32 a @ d1" "length body = 4 + length d1" using split4 [of body] by auto
  then obtain b d2 where 2: "d1 = be32 b @ d2" "length d1 = 4 + length d2" using True split4 [of d1] by auto
  then obtain sz rest where 3: "d2 = be32 sz @ rest" "length d2 = 4 + length rest"
    using True 1 split4 [of d2] by auto
  have body: "body = be32 a @ be32 b @ be32 sz @ rest" using 1 2 3 by simp
  show ?thesis
  proof (cases "length rest = unat sz + 4")
    case False
    then show ?thesis
      using assms
      by (simp add: body Protocol3_get_data_from_request_def Protocol3_get_spec_data_def buf_simps)
  next
    case len: True
    define xs n where "xs = take (unat sz) rest" and "n = val32 (drop (unat sz) rest)"
    with len have rest: "rest = xs @ be32 n" "length xs = unat sz" by (simp_all add: be32_val32)
    have sz: "sz = word_of_nat (length xs)" using rest by simp
    have "medium xs" using assms rest by (simp add: body)
    then have sint: "sint sz = int (length xs)" unfolding sz by (intro sint_word_of_nat) simp
    have "mseek (rbuf 0 pre (xs @ be32 n)) (sint sz) = rbuf 0 (pre @ xs) (be32 n)"
      if "length pre = 36" for pre
      using mseek_over [of pre xs "be32 n" 0] \<open>medium xs\<close> that by (simp only: sint) simp
    then show ?thesis
      using assms rest
      by (simp add: body Protocol3_get_data_from_request_def Protocol3_get_spec_data_def buf_simps)
  qed
qed

lemma server3_other_body:
  assumes "is_server p" and "length body < 2 ^ 30 - 8192" and "4 \<le> length body" and "k \<noteq> 3"
  shows "p3_ok (Protocol3_get_data_from_request p
      (rbuf 0 [] (be32 v @ be32 k @ be32 t @ be_devid e @ body))) \<longleftrightarrow> k \<in> {1, 2, 4, 5}"
  using assms
  by (auto simp: Protocol3_get_data_from_request_def Protocol3_get_spec_data_def buf_simps get32_rbuf
      Let_def)

lemma server3_accepts:
  assumes "is_server p" and "length d < 2 ^ 30 - 8192"
  shows "p3_ok (Protocol3_get_data_from_request p (MBuf_data d True)) \<longleftrightarrow>
    28 \<le> length d \<and>
    (word_at d 4 \<in> {1, 2, 4, 5} \<or> word_at d 4 = 3 \<and> length d = 40 + unat (word_at d 32))"
proof (cases "28 \<le> length d")
  case False
  with server3_accept_bytes [of d p] assms show ?thesis by auto
next
  case True
  then have 24: "24 \<le> length d" by simp
  obtain v k t e body where d: "d = be32 v @ be32 k @ be32 t @ be_devid e @ body"
    and len: "length d = 24 + length body"
    using split_head3 [OF 24] by blast
  have "word_at d 4 = k" "word_at d 32 = word_at body 8" by (simp_all add: d)
  then show ?thesis
    using True assms len server3_cmd_body [of p body v t e] server3_other_body [of p body k v t e]
    by (cases "k = 3") (auto simp: d MBuf_data_rbuf)
qed

text \<open>
  C23: the version 3 server accepts a packet exactly when it holds the head and one more word and
  either asks to open, close, enumerate or report the version, or is a command whose declared data
  length, with the 36 bytes before the data and the 4 after them, is the packet's length.
\<close>

theorem server3_accepts_iff:
  assumes "is_server p" and "length d < 2 ^ 30 - 8192"
  shows "p3_ok (Protocol3_get_data_from_request p (MBuf_data d True)) \<longleftrightarrow>
    28 \<le> length d \<and>
    (word_at d 4 \<in> {1, 2, 4, 5} \<or> word_at d 4 = 3 \<and> length d = 40 + unat (word_at d 32))"
  using assms by (rule server3_accepts)

section \<open>Version 2 at the server\<close>

definition after_head12 :: "bvector \<Rightarrow> mbuf" where
  "after_head12 d =
     fst (get32 (fst (get32 (fst (get32 (fst (get32 (MBuf_data d True)
       (Hex32 0 False))) (Hex32 0 False))) (Hex32 0 False))) (Hex32 0 False))"

lemma reads_after_head12:
  assumes "length d < 2 ^ 31"
  shows "reads 4 16 (MBuf_data d True) (after_head12 d)"
proof -
  let ?a = "MBuf_data d True"
  let ?b = "fst (get32 ?a (Hex32 0 False))"
  let ?c = "fst (get32 ?b (Hex32 0 False))"
  let ?d = "fst (get32 ?c (Hex32 0 False))"
  have 0: "mbuf_ok ?a" using assms by (simp add: MBuf_data_rbuf rbuf_ok)
  have 1: "reads (Suc 0) 4 ?a ?b" using 0 by (simp add: reads_get)
  have 2: "reads (Suc 0 + Suc 0) (4 + 4) ?a ?c"
    by (rule reads_next [OF 1]) (simp add: reads_get)
  have 3: "reads (Suc 0 + Suc 0 + Suc 0) (4 + 4 + 4) ?a ?d"
    by (rule reads_next [OF 2]) (simp add: reads_get)
  have 4: "reads (Suc 0 + Suc 0 + Suc 0 + Suc 0) (4 + 4 + 4 + 4) ?a (after_head12 d)"
    unfolding after_head12_def by (rule reads_next [OF 3]) (simp add: reads_get)
  have "Suc 0 + Suc 0 + Suc 0 + Suc 0 = 4" and "4 + 4 + 4 + 4 = (16::nat)"
    by simp_all
  with 4 show ?thesis by (simp only:)
qed

text \<open>Short packets: the head is broken, or the seek over the reserved words is.\<close>

lemma server2_short_head:
  assumes "length d < 16"
  shows "wasBroken (after_head12 d)" and "wasBroken (mseek (after_head12 d) 8)"
proof -
  have m: "reads 4 16 (MBuf_data d True) (after_head12 d)"
    by (rule reads_after_head12) (use assms in simp)
  have dlen: "dlen (after_head12 d) = length d" using m by (simp add: reads_def dlen_def MBuf_data_def)
  have s: "reads (4 + Suc 0) (16 + 8) (MBuf_data d True) (mseek (after_head12 d) 8)"
    by (rule reads_next [OF m]) (use dlen assms in \<open>simp add: reads_seek8\<close>)
  show "wasBroken (after_head12 d)" and "wasBroken (mseek (after_head12 d) 8)"
    using reads_unbroken [OF m] reads_unbroken [OF s] assms
    by (auto simp: MBuf_data_def dlen_def)
qed

text \<open>What the server decides on a packet; \<open>None\<close> is the read past the end.\<close>

definition server2_verdict :: "aproto \<Rightarrow> bvector \<Rightarrow> bvector \<Rightarrow> bool option" where
  "server2_verdict p c d =
     map_option p2_ok (Protocol2_get_data_from_request p (MBuf_data d True) c)"

lemma server2_short:
  assumes "is_server p" and "length d < 16"
  shows "server2_verdict p c d = Some False"
  using server2_short_head [OF assms(2)] assms(1)
  by (auto simp: server2_verdict_def Protocol2_get_data_from_request_def Protocol2_get_spec_data_def
      Let_def case_prod_beta after_head12_def)

lemma server2_body:
  assumes "is_server p" and "length body < 2 ^ 30 - 8192"
  shows "server2_verdict p c (be32 v @ be32 k @ be32 t @ be32 s @ body) =
    (if k = 3 then
       if length body < 8 then Some False else if length body < 12 then None
       else Some (16 \<le> length body)
     else Some (k = 1 \<or> k = 2))"
proof (cases "k = 3")
  case False
  then show ?thesis
    using assms
    by (auto simp: server2_verdict_def Protocol2_get_data_from_request_def
        Protocol2_get_spec_data_def buf_simps Let_def)
next
  case True
  show ?thesis
  proof (cases "8 \<le> length body")
    case False
    with True assms show ?thesis
      by (simp add: server2_verdict_def Protocol2_get_data_from_request_def
          Protocol2_get_spec_data_def buf_simps Let_def)
  next
    case 8: True
    define pre rest where "pre = be32 v @ be32 k @ be32 t @ be32 s @ take 8 body"
      and "rest = drop 8 body"
    have len: "length pre = 24" "length body = 8 + length rest" using 8 by (simp_all add: pre_def rest_def)
    have seek: "mseek (rbuf 0 (be32 v @ be32 k @ be32 t @ be32 s) body) 8 = rbuf 0 pre rest"
      using rbuf_seek_8 [of "be32 v @ be32 k @ be32 t @ be32 s" body 0] 8 assms
      by (simp add: pre_def rest_def)
    have skip: "mseek (rbuf 0 pre rest) 4 = rbuf 0 (pre @ take 4 rest) (drop 4 rest)" if "4 \<le> length rest"
      using rbuf_seek_n [of pre rest 4 0] assms len that by simp
    show ?thesis
      using True assms len seek skip
      by (auto simp: server2_verdict_def Protocol2_get_data_from_request_def
          Protocol2_get_spec_data_def get32_be MBuf_data_rbuf rbuf_rest URPC_CID_SIZE_def size_max_def
          get32_rbuf Let_def)
  qed
qed

lemma server2_verdicts:
  assumes "is_server p" and "length d < 2 ^ 30 - 8192"
  shows "server2_verdict p c d =
    (if word_at d 4 = 3 \<and> 24 \<le> length d \<and> length d < 28 then None
     else Some (16 \<le> length d \<and> word_at d 4 \<in> {1, 2} \<or> 32 \<le> length d \<and> word_at d 4 = 3))"
proof (cases "16 \<le> length d")
  case False
  with server2_short [of p d c] assms show ?thesis by simp
next
  case True
  obtain v k t s body where d: "d = be32 v @ be32 k @ be32 t @ be32 s @ body"
    and len: "length d = 16 + length body" using split_head12 [OF True] by blast
  have "word_at d 4 = k" by (simp add: d)
  then show ?thesis
    using assms len server2_body [of p body c v k t s] by (auto simp: d)
qed

text \<open>The command identifier is stored exactly by the commands that are long enough.\<close>

definition server2_cid :: "aproto \<Rightarrow> bvector \<Rightarrow> nat option" where
  "server2_cid p d =
     map_option (\<lambda>r. length (p2_cid r)) (Protocol2_get_data_from_request p (MBuf_data d True) [])"

lemma server2_cid_short:
  assumes "is_server p" and "length d < 16"
  shows "server2_cid p d = Some 0"
  using server2_short_head [OF assms(2)] assms(1)
  by (auto simp: server2_cid_def Protocol2_get_data_from_request_def Protocol2_get_spec_data_def
      Let_def case_prod_beta after_head12_def)

lemma server2_cid_body:
  assumes "is_server p" and "length body < 2 ^ 30 - 8192" and "k \<noteq> 3 \<or> length body < 8 \<or> 12 \<le> length body"
  shows "server2_cid p (be32 v @ be32 k @ be32 t @ be32 s @ body) =
    Some (if k = 3 \<and> 12 \<le> length body then 4 else 0)"
proof (cases "k = 3 \<and> 12 \<le> length body")
  case False
  then show ?thesis
    using assms
    by (auto simp: server2_cid_def Protocol2_get_data_from_request_def
        Protocol2_get_spec_data_def buf_simps Let_def)
next
  case True
  define pre rest where "pre = be32 v @ be32 k @ be32 t @ be32 s @ take 8 body"
    and "rest = drop 8 body"
  have len: "length pre = 24" "length body = 8 + length rest" using True by (simp_all add: pre_def rest_def)
  have seek: "mseek (rbuf 0 (be32 v @ be32 k @ be32 t @ be32 s) body) 8 = rbuf 0 pre rest"
    using rbuf_seek_8 [of "be32 v @ be32 k @ be32 t @ be32 s" body 0] True assms
    by (simp add: pre_def rest_def)
  have skip: "mseek (rbuf 0 pre rest) 4 = rbuf 0 (pre @ take 4 rest) (drop 4 rest)"
    using rbuf_seek_n [of pre rest 4 0] assms len True by simp
  show ?thesis
    using True assms len seek skip
    by (auto simp: server2_cid_def Protocol2_get_data_from_request_def
        Protocol2_get_spec_data_def get32_be MBuf_data_rbuf rbuf_rest URPC_CID_SIZE_def size_max_def
        get32_rbuf Let_def)
qed

text \<open>
  The version 2 server accepts requests to open and close from 16 bytes on and commands from
  32 bytes on; on a command of 24 to 27 bytes it reads past the end of the packet, and it rejects
  everything else.
\<close>

theorem server2_verdict_iff:
  assumes "is_server p" and "length d < 2 ^ 30 - 8192"
  shows "server2_verdict p c d =
    (if word_at d 4 = 3 \<and> 24 \<le> length d \<and> length d < 28 then None
     else Some (16 \<le> length d \<and> word_at d 4 \<in> {1, 2} \<or> 32 \<le> length d \<and> word_at d 4 = 3))"
  using assms by (rule server2_verdicts)

theorem server2_verdict_iff_witness:
  "server2_verdict server_obj [] (be32 2 @ be32 3 @ be32 0 @ be32 9 @ be32 0 @ be32 0 @ [1, 2, 3]) = None"
  using server2_verdict_iff [of server_obj
      "be32 2 @ be32 3 @ be32 0 @ be32 9 @ be32 0 @ be32 0 @ [1, 2, 3]" "[]"]
  by (simp add: server_obj_def)

theorem server3_accepts_iff_witness:
  "p3_ok (Protocol3_get_data_from_request server_obj
     (MBuf_data (head3 3 0 (devid_of_id 9) @ be32 2 @ [1, 2] @ be32 5) True))"
  using server3_accepts_iff [of server_obj "head3 3 0 (devid_of_id 9) @ be32 2 @ [1, 2] @ be32 5"]
  by (simp add: server_obj_def head3_def)

end
