(* ===== verification/Server.thy ===== *)
theory Server
  imports Table_Properties Parsing
begin

text \<open>
  The server's packet handler (\<open>callback_data\<close>, \<open>callback_disc\<close>, \<open>send_error_pckt_proto3\<close> and
  \<open>xib_errors_to_xibridge\<close> of \<open>server/xibridge_server_lib.cpp\<close>). Bindy is the caller; what the
  handler does for it is the list of packets it sends. The supervisor's lock around the handler is
  not part of the model. \<open>u\<close> stands for what uninitialised variables hold; \<open>None\<close> for a step without
  defined behaviour.
\<close>

section \<open>The handler\<close>

definition xib_errors_to_xibridge :: "int \<Rightarrow> u32" where
  "xib_errors_to_xibridge res =
     (if res = xib_result_error then ERR_DEVICE_ERR
      else if res = xib_result_value_error then ERR_DEVICE_ERR_VAL
      else if res = xib_result_timeout then ERR_RECV_TIMEOUT
      else if res = xib_result_nodevice then ERR_DEVICE_LOST
      else 0)"

text \<open>
  A call of the handler: it throws, or it has sent packets (to connections, in order), called the
  "devices rescanned" callback a number of times, and left the table in a state.
\<close>

datatype 'w outcome = Throws string | Done "(conn_id_t \<times> bvector) list" nat "'w msu"

definition send_error_pckt_proto3 :: "conn_id_t \<Rightarrow> u32 \<Rightarrow> conn_id_t \<times> bvector" where
  "send_error_pckt_proto3 c err = (c, Protocol3_create_error_response err)"

definition server_proto :: "u32 \<Rightarrow> aproto" where
  "server_proto u = \<lparr>is_server = True, res_err = u, perror = u\<rparr>"

text \<open>The branch of protocol version 2; the verdict of the parser is not looked at.\<close>

definition callback_data2 ::
    "'w dev_env \<Rightarrow> u32 \<Rightarrow> conn_id_t \<Rightarrow> mbuf \<Rightarrow> u32 \<Rightarrow> 'w msu \<Rightarrow> 'w outcome option" where
  "callback_data2 env u c m command_code s = do {
     r \<leftarrow> Protocol2_get_data_from_request (server_proto u) m [];
     if command_code = 3 then
       if length (p2_cid r) < URPC_CID_SIZE then None
       else do {
         let resp_data = replicate (unat (p2_resp_len r)) 0;
         ((result, resp_data), s) \<leftarrow> urpc_operation_send_request env (p2_dev r)
             (take URPC_CID_SIZE (p2_cid r)) (p2_data r) (word_of_nat (length (p2_data r)))
             resp_data (ucast (p2_resp_len r)) s;
         Some (Done [(c, Protocol2_create_cmd_response (word_of_int result) (p2_dev r) resp_data)] 0 s)
       }
     else if command_code = 1 then do {
       (added, s) \<leftarrow> open_if_not env c (p2_dev r) s;
       Some (Done [(c, Protocol2_create_open_response (p2_dev r) (if added then 1 else 0))] 0 s)
     }
     else if command_code = 2 then do {
       s \<leftarrow> remove_conn_or_remove_device env c (p2_dev r) False s;
       Some (Done [(c, Protocol2_create_close_response (p2_dev r) 0)] 0 s)
     }
     else Some (Done [] 0 s)
   }"

text \<open>The scan and the list of devices for an enumeration, on the table's configurator.\<close>

definition enumerate_for_client :: "'w dev_env \<Rightarrow> 'w msu \<Rightarrow> (devid list \<times> 'w msu) option" where
  "enumerate_for_client env s = do {
     cf \<leftarrow> confor s;
     let (scan, w) = com_scan env (world s);
     let (ports, sv) = enumerate_dev (com_link env w) 0 cf False scan (pports s);
     sv \<leftarrow> sv;
     Some (sv, s\<lparr>pports := ports, world := w\<rparr>)
   }"

definition callback_data3 ::
    "'w dev_env \<Rightarrow> u32 \<Rightarrow> conn_id_t \<Rightarrow> mbuf \<Rightarrow> u32 \<Rightarrow> 'w msu \<Rightarrow> 'w outcome option" where
  "callback_data3 env u c m command_code s =
     (let r = Protocol3_get_data_from_request (server_proto u) m in
      if \<not> p3_ok r then Some (Done [send_error_pckt_proto3 c (perror (p3_proto r))] 0 s)
      else if command_code = 3 then do {
        let resp_data = replicate (unat (p3_resp_len r)) 0;
        ((result, resp_data), s) \<leftarrow> operation_send_request env (p3_dev r)
            (p3_data r) (word_of_nat (length (p3_data r))) resp_data (ucast (p3_resp_len r)) s;
        if result = xib_result_ok
        then Some (Done [(c, Protocol3_create_cmd_response (p3_dev r) resp_data)] 0 s)
        else Some (Done [send_error_pckt_proto3 c (xib_errors_to_xibridge result)] 0 s)
      }
      else if command_code = 1 then do {
        (added, s) \<leftarrow> open_if_not env c (p3_dev r) s;
        Some (Done [(c, Protocol3_create_open_response (p3_dev r) (if added then 1 else 0))] 1 s)
      }
      else if command_code = 2 then do {
        s \<leftarrow> remove_conn_or_remove_device env c (p3_dev r) False s;
        Some (Done [(c, Protocol3_create_close_response (p3_dev r) 0)] 1 s)
      }
      else if command_code = 5 then Some (Done [(c, Protocol3_create_version_response)] 0 s)
      else if command_code = 4 then do {
        (sv, s) \<leftarrow> enumerate_for_client env s;
        Some (Done [(c, Protocol3_create_enum_response sv)] 1 s)
      }
      else Some (Done [] 0 s))"

definition callback_data :: "'w dev_env \<Rightarrow> u32 \<Rightarrow> conn_id_t \<Rightarrow> bvector \<Rightarrow> 'w msu \<Rightarrow> 'w outcome option" where
  "callback_data env u c data s =
     (if length data < 16 then Some (Throws ''Incorrect data packet'')
      else
        let m = MBuf_data data True;
            (m, proto) = get32 m (Hex32 0 False);
            m = mseek m (-4);
            protocol_ver = value32 proto;
            command_code = get_pckt_of_cmd data
        in if protocol_ver = 2 then callback_data2 env u c m command_code s
           else if protocol_ver = 3 then callback_data3 env u c m command_code s
           else Some (Done [send_error_pckt_proto3 c ERR_NO_PROTOCOL] 0 s))"

text \<open>\<open>callback_disc\<close>: \<open>UINT32_MAX\<close> becomes the identifier "unknown".\<close>

definition callback_disc :: "'w dev_env \<Rightarrow> conn_id_t \<Rightarrow> 'w msu \<Rightarrow> 'w msu option" where
  "callback_disc env c s = remove_conn_or_remove_device env c (devid_of_id UINT32_MAX) False s"

end
