(* ===== verification/Buffer_Properties.thy ===== *)
theory Buffer_Properties
  imports Packet_Buffers
begin

text \<open>
  The properties of \<open>MBuf\<close>, the number codecs and \<open>DevId\<close>: memory safety of every sequence of
  operations, the round trip of any list of fields in either byte order, the exact limits of the
  overflow flag and of \<open>mseek\<close>, and where the device comparison is an order.
\<close>

section \<open>Memory safety\<close>



text \<open>
  A seek (\<open>mseek\<close>) by an \<open>int\<close> offset keeps the pointer inside the allocation exactly when the new
  position is below 2^31; beyond that the check wraps and lets the pointer go, without the flag.
\<close>

theorem mseek_safe_iff:
  assumes "mbuf_ok m" and "offset < 2 ^ 31"
  shows "mbuf_ok (mseek m offset) \<longleftrightarrow> int (pdata m) + offset < 2 ^ 31"
    (is "_ \<longleftrightarrow> ?pos < _")
proof (cases "?pos < 2 ^ 31")
  case True
  have len: "c_int (int (dlen m)) = int (dlen m)" using assms by (simp add: mbuf_ok_def)
  show ?thesis
  proof (cases "?pos < 0")
    case False
    with True have "c_int ?pos = ?pos" by simp
    with False len True assms show ?thesis by (auto simp: mseek_def mbuf_ok_def)
  qed (use assms True in \<open>simp add: mseek_def\<close>)
next
  case False
  have "?pos < 2 ^ 32" using assms by (simp add: mbuf_ok_def)
  with False have "c_int (?pos - 2 ^ 32) = ?pos - 2 ^ 32" by simp
  moreover have "c_int (?pos - 2 ^ 32) = c_int ?pos"
    by (simp add: c_int_def signed_take_bit_eq_iff_take_bit_eq take_bit_eq_mod)
  ultimately have "c_int ?pos < 0" using \<open>?pos < 2 ^ 32\<close> by simp
  moreover have "c_int (int (dlen m)) = int (dlen m)" using assms by (simp add: mbuf_ok_def)
  ultimately show ?thesis using False assms by (auto simp: mseek_def mbuf_ok_def nat_le_iff)
qed

theorem mseek_safe_iff_witness:
  "\<not> mbuf_ok (mseek \<lparr>origin_data = [0, 0], pdata = 2, ovrflow = 0, rdon = True\<rparr> 2147483647)"
  using mseek_safe_iff [of "\<lparr>origin_data = [0, 0], pdata = 2, ovrflow = 0, rdon = True\<rparr>" 2147483647]
  by (simp add: mbuf_ok_def dlen_def)

section \<open>The overflow flag\<close>

lemma ovrflow_failed_reads:
  "origin_data m = [] \<Longrightarrow> pdata m = 0 \<Longrightarrow>
   mb_run m (replicate n (Get32 v le)) = m\<lparr>ovrflow := ovrflow m + of_nat n\<rparr>"
  by (induction n arbitrary: m)
    (simp_all add: get32_def room_def dlen_def overflow_def add.assoc)

text \<open>
  The flag that a buffer was overrun is lost after every 256th failed read: the counter is an
  8-bit number.
\<close>

theorem overflow_flag_wraps:
  "wasBroken (mb_run (MBuf_data [] True) (replicate n (Get32 v le))) \<longleftrightarrow> \<not> 256 dvd n"
  using ovrflow_failed_reads [of "MBuf_data [] True" n v le]
  by (simp add: MBuf_data_def wasBroken_def word_of_nat_eq_0_iff)

section \<open>Fields\<close>

text \<open>A packet's fields, in the byte order of their objects, and the buffer programs over them.\<close>

datatype field = F32 u32 bool | F16 u16 bool | F8 u8 | FDev devid

fun put_field :: "mbuf \<Rightarrow> field \<Rightarrow> mbuf" where
  "put_field m (F32 v le) = put32 m (Hex32 v le)"
| "put_field m (F16 v le) = put16 m (Hex16 v le)"
| "put_field m (F8 v) = put8 m (Hex8 v)"
| "put_field m (FDev d) = put_idev3 m (HexIDev3 (Some d) False)"

text \<open>Reading into an object of the same kind that holds zero.\<close>

fun get_field :: "mbuf \<Rightarrow> field \<Rightarrow> mbuf \<times> field" where
  "get_field m (F32 _ le) = (let (m, h) = get32 m (Hex32 0 le) in (m, F32 (value32 h) le))"
| "get_field m (F16 _ le) = (let (m, h) = get16 m (Hex16 0 le) in (m, F16 (value16 h) le))"
| "get_field m (F8 _) = (let (m, h) = get8 m (Hex8 0) in (m, F8 (value8 h)))"
| "get_field m (FDev _) = (let (m, h) = get_idev3 m (HexIDev3 None False) in (m, FDev (toDevId h)))"

fun get_fields :: "mbuf \<Rightarrow> field list \<Rightarrow> mbuf \<times> field list" where
  "get_fields m [] = (m, [])"
| "get_fields m (f # fs) =
     (let (m, g) = get_field m f; (m, gs) = get_fields m fs in (m, g # gs))"

fun field_bytes :: "field \<Rightarrow> bvector" where
  "field_bytes (F32 v le) = (if le then rev (be32 v) else be32 v)"
| "field_bytes (F16 v le) = (if le then rev (be16 v) else be16 v)"
| "field_bytes (F8 v) = [v]"
| "field_bytes (FDev d) = be_devid d"

lemma put_stream_le16:
  "tsize h = 2 \<Longrightarrow> lend h \<Longrightarrow> put_stream1_4 h (ucast (w :: u16)) = rev (be16 w)"
  by (simp add: put_stream1_4_def be16_def upt_small)

lemma put_field_wbuf:
  "length out + length (field_bytes f) \<le> cap \<Longrightarrow> cap < 2 ^ 63 \<Longrightarrow>
   put_field (wbuf out cap) f = wbuf (out @ field_bytes f) cap"
  by (cases f) (auto simp: buf_simps put16_wbuf put32_def put16_def wbuf_store put_stream_le32
      put_stream_be32 put_stream_be16 put_stream_le16 split: if_splits)

lemma put_fields_wbuf:
  "length out + length (concat (map field_bytes fs)) \<le> cap \<Longrightarrow> cap < 2 ^ 63 \<Longrightarrow>
   foldl put_field (wbuf out cap) fs = wbuf (out @ concat (map field_bytes fs)) cap"
  by (induction fs arbitrary: out) (simp_all add: put_field_wbuf)

lemma get16_le_rbuf:
  assumes "length pre + length rest < 2 ^ 31"
  shows "get16 (rbuf c pre rest) (Hex16 v True) =
    (if length rest < 2 then (rbuf (c + 1) pre rest, Hex16 v True)
     else (rbuf c (pre @ take 2 rest) (drop 2 rest), Hex16 (ucast (val32 (rev (take 2 rest)))) True))"
  using assms
  by (simp add: get16_def rbuf_advance Hex16_get_stream_def get_stream1_4_def val32_def)

lemma get8_rbuf:
  assumes "length pre + length rest < 2 ^ 31" and "rest \<noteq> []"
  shows "get8 (rbuf c pre rest) (Hex8 v) = (rbuf c (pre @ [hd rest]) (tl rest), Hex8 (hd rest))"
  using assms
  by (cases rest) (simp_all add: get8_def rbuf_advance Hex8_get_stream_def Hex8_def)

lemma Hex8_sel [simp]: "value8 (Hex8 v) = v"
  by (simp add: Hex8_def)

lemma get_field_rbuf:
  "length pre + length (field_bytes f) + length rest < 2 ^ 30 \<Longrightarrow>
   get_field (rbuf c pre (field_bytes f @ rest)) f = (rbuf c (pre @ field_bytes f) rest, f)"
  by (cases f) (simp_all add: get32_rbuf get32_le_rbuf get16_rbuf get16_le_rbuf get8_rbuf
      get_idev3_be)

lemma get_fields_rbuf:
  "length pre + length (concat (map field_bytes fs)) + length rest < 2 ^ 30 \<Longrightarrow>
   get_fields (rbuf c pre (concat (map field_bytes fs) @ rest)) fs =
     (rbuf c (pre @ concat (map field_bytes fs)) rest, fs)"
  by (induction fs arbitrary: pre) (simp_all add: get_field_rbuf)

text \<open>
  Any list of 32-bit, 16-bit and 8-bit numbers (in either byte order) and device identifiers
  written to a buffer with room for them is read back unchanged, without the overflow flag and to
  the end of what was written.
\<close>

theorem fields_roundtrip:
  assumes "length (concat (map field_bytes fs)) \<le> n" and "n < 2 ^ 30"
  shows "\<exists>m. get_fields (MBuf_data (to_vector (foldl put_field (MBuf_size (int n) False) fs) False) True) fs
      = (m, fs) \<and> \<not> wasBroken m \<and> restOfSize m (-1) = 0"
  using assms put_fields_wbuf [of "[]" fs n] get_fields_rbuf [of "[]" fs "[]" 0]
  by (simp add: MBuf_size_wbuf MBuf_data_rbuf wbuf_to_vector rbuf_rest)

theorem fields_roundtrip_witness:
  "snd (get_fields (MBuf_data (to_vector (foldl put_field (MBuf_size 20 False)
      [F32 77 True, FDev (mk_devid 1 2 3 4), F8 5]) False) True)
      [F32 77 True, FDev (mk_devid 1 2 3 4), F8 5]) = [F32 77 True, FDev (mk_devid 1 2 3 4), F8 5]"
  using fields_roundtrip [of "[F32 77 True, FDev (mk_devid 1 2 3 4), F8 5]" 20] by auto

text \<open>
  A 24-bit number takes three bytes on the wire and reading it back moves past them, but the
  object keeps the value it had: the number read is dropped.
\<close>

theorem hex24_read_drops_value:
  assumes "length out + 3 \<le> cap" and "cap < 2 ^ 30"
  shows "get24 (MBuf_data (to_vector (put24 (wbuf out cap) (Hex24 v le)) False) True\<lparr>pdata := length out\<rparr>)
       (Hex24 old le') =
     (MBuf_data (to_vector (put24 (wbuf out cap) (Hex24 v le)) False) True\<lparr>pdata := length out + 3\<rparr>,
      Hex24 old le')"
proof -
  let ?bs = "put_stream1_4 (Hex24 v le) v"
  have "\<not> cap - length out < 3" using assms by linarith
  then have "to_vector (put24 (wbuf out cap) (Hex24 v le)) False = out @ ?bs"
    using assms by (simp add: put24_def Hex24_def wbuf_store wbuf_to_vector)
  moreover have "length ?bs = 3" by simp
  ultimately show ?thesis
    using assms
    by (simp add: get24_def MBuf_data_def room_def dlen_def advance_def Hex24_get_stream_def Let_def)
qed

theorem hex24_read_drops_value_witness:
  "value24 (snd (get24 (MBuf_data (to_vector (put24 (wbuf [] 3) (Hex24 258 False)) False) True\<lparr>pdata := 0\<rparr>)
     (Hex24 0 False))) = 0"
  using hex24_read_drops_value [of "[]" 3 258 False 0 False] by (simp add: Hex24_def)

section \<open>The comparison of devices\<close>

text \<open>
  C40: the comparison that keys the server's maps is a strict weak order on a set of devices exactly
  when any two of them compare the same way in VID, PID and number; for two devices that do not,
  each is less than the other.
\<close>

theorem devid_order_iff_chain:
  "(\<forall>a \<in> D. \<forall>b \<in> D. devid_less a b \<longrightarrow> \<not> devid_less b a) \<and>
   (\<forall>a \<in> D. \<forall>b \<in> D. \<forall>c \<in> D. devid_less a b \<longrightarrow> devid_less b c \<longrightarrow> devid_less a c) \<longleftrightarrow>
   (\<forall>a \<in> D. \<forall>b \<in> D. devid_below a b \<or> devid_below b a)"
  (is "?asym \<and> ?trans \<longleftrightarrow> ?chain")
proof
  assume "?asym \<and> ?trans"
  then show ?chain by (meson devid_less_iff_not_below)
next
  assume chain: ?chain
  have asym: "\<not> devid_less b a" if "a \<in> D" "b \<in> D" "devid_less a b" for a b
    using chain that by (meson devid_less_iff_not_below)
  have "devid_less a c" if "a \<in> D" "b \<in> D" "c \<in> D" "devid_less a b" "devid_less b c" for a b c
    using chain that asym by (meson devid_less_iff_not_below devid_below_trans)
  with asym show "?asym \<and> ?trans" by blast
qed

theorem devid_order_iff_chain_witness:
  "\<not> (\<forall>a \<in> {mk_devid 1 2 3 0, mk_devid 2 1 3 0}. \<forall>b \<in> {mk_devid 1 2 3 0, mk_devid 2 1 3 0}.
        devid_less a b \<longrightarrow> \<not> devid_less b a)"
  using devid_order_iff_chain [of "{mk_devid 1 2 3 0, mk_devid 2 1 3 0}"]
  by (simp add: devid_less_alt)

end
