(* ===== verification/Wire_Properties.thy ===== *)
theory Wire_Properties
  imports Parsing Buffer_Properties
begin

text \<open>
  The properties of the three wire protocols that take both ends together: transactions, requests
  that cannot be confused, agreement of the schemas with the builders, enumeration, and which
  result packets the client accepts.
\<close>

section \<open>Transactions\<close>

text \<open>
  C6: with version 3 the client receives exactly what the device answers to the client's own
  request: the device sees the whole identifier, the data and the response length unchanged.
\<close>

theorem v3_transaction:
  assumes "medium data" and "short (f d data n)"
  shows "transact v3_enc_req v3_dec_req Protocol3_create_cmd_response (client_payload Proto3) f d data n
    = Some (f d data n)"
  using assms by (rule v3.transact_result)

theorem v3_transaction_witness:
  "transact v3_enc_req v3_dec_req Protocol3_create_cmd_response (client_payload Proto3)
     (\<lambda>d data n. rev data) (mk_devid 7 1 2 0) [1, 2, 3] 3 = Some [3, 2, 1]"
  using v3_transaction [of "[1, 2, 3]" "\<lambda>d data n. rev data" "mk_devid 7 1 2 0" 3] by simp

text \<open>
  With version 2 the same holds from the four bytes of the command identifier on, but the
  device's VID, PID and reserved number are lost on the way.
\<close>

theorem v2_transaction:
  assumes "4 \<le> length data \<and> medium data"
    and "4 \<le> length (f (devid_of_id (dev_id d)) data n) \<and> medium (f (devid_of_id (dev_id d)) data n)"
  shows "transact v2_enc_req v2_dec_req v2_enc_resp (client_payload Proto2) f d data n
    = Some (f (devid_of_id (dev_id d)) data n)"
  using assms by (rule v2.transact_result)

theorem v2_transaction_witness:
  "transact v2_enc_req v2_dec_req v2_enc_resp (client_payload Proto2)
     (\<lambda>d data n. be32 (dev_id d) @ data) (mk_devid 7 1 2 0) [1, 2, 3, 4, 5] 9
   = Some (be32 7 @ [1, 2, 3, 4, 5])"
  using v2_transaction [of "[1, 2, 3, 4, 5]" "\<lambda>d data n. be32 (dev_id d) @ data" "mk_devid 7 1 2 0" 9]
  by simp

text \<open>
  Two version 3 commands with the same packet have the same device, data and response length.
\<close>

theorem v3_requests_injective:
  assumes "medium data" and "medium data'"
    and "create_cmd_request Proto3 d 0 (Some data) n = create_cmd_request Proto3 d' 0 (Some data') n'"
  shows "d = d' \<and> data = data' \<and> n = n'"
  using assms by (intro v3.request_unambiguous) (simp_all add: v3_enc_req_def)

theorem v3_requests_injective_witness:
  "(\<exists>n. create_cmd_request Proto3 (mk_devid 7 1 2 0) 0 (Some [1]) n =
     create_cmd_request Proto3 (mk_devid 7 1 2 1) 0 (Some [1]) n) = False"
  using v3_requests_injective [of "[1]" "[1]" "mk_devid 7 1 2 0" _ "mk_devid 7 1 2 1"]
  by (auto simp: mk_devid_def)

text \<open>
  Version 1 commands lose four bytes of data when the library's own server side parses the
  library's own request: it skips twelve bytes after the device number where there are eight.
\<close>

theorem v1_server_drops_four_bytes:
  assumes "is_server p" and "4 \<le> length data" and "short data"
  shows "get_data_from_bindy_callback Proto1 p
      (MBuf_data (Protocol1_create_cmd_request d t (Some data) n) True) u = accepted p 0 (drop 4 data) 0"
proof -
  define pre where "pre = be32 1 @ be32 0 @ be32 0 @ be32 (dev_id d)"
  have "mseek (rbuf 0 pre (be32 0 @ be32 0 @ data)) 12 =
      rbuf 0 (pre @ take 12 (be32 0 @ be32 0 @ data)) (drop 4 data)"
    using rbuf_seek_n [of pre "be32 0 @ be32 0 @ data" 12 0] assms by (simp add: pre_def)
  then show ?thesis
    using assms
    by (simp add: Protocol1_cmd_request_bytes head12_def client_head12 MBuf_data_rbuf
        Protocol1_get_spec_data_def rbuf_rest size_max_def pre_def Let_def)
qed

theorem v1_server_drops_four_bytes_witness:
  "get_data_from_bindy_callback Proto1 server_obj
     (MBuf_data (Protocol1_create_cmd_request (devid_of_id 1) 0 (Some [1, 2, 3, 4, 5]) 0) True) 0
   = accepted server_obj 0 [5] 0"
  using v1_server_drops_four_bytes [of server_obj "[1, 2, 3, 4, 5]"] by (simp add: server_obj_def)

section \<open>Schemas and builders\<close>

text \<open>The packet that a protocol's schema of a packet type generates.\<close>

definition gen_of_type :: "proto_class \<Rightarrow> u32 \<Rightarrow> devid \<Rightarrow> bvector option" where
  "gen_of_type c pckt d =
     Option.bind (get_schema pckt (get_cmd_schema c)) (\<lambda>s. gen_plain_command s (proto_version c) d 0 0)"

lemma gen_of_type_bytes:
  assumes "get_schema pckt (get_cmd_schema c) = Some s" and "schema s = Some sc" and "plain_schema sc"
    and "length (schema_bytes (pkt_type s) (proto_version c) d 0 0 sc) < 2 ^ 63"
  shows "gen_of_type c pckt d = Some (schema_bytes (pkt_type s) (proto_version c) d 0 0 sc)"
  using gen_plain_command_bytes [OF assms(2-4)] assms(1) by (simp add: gen_of_type_def)

lemma open_close_schema:
  assumes "pckt = 1 \<or> pckt = 2"
  shows "get_schema pckt (get_cmd_schema c) = Some \<lparr>pkt_type = pckt,
    schema = Some (if c = Proto3 then ''v_p_0_I_0_0'' else ''v_p_0_d_0_0'')\<rparr>"
  using assms
  by (cases c) (auto simp: Protocol1_cmd_schemas_def Protocol2_cmd_schemas_def Protocol3_cmd_schemas_def)

text \<open>
  For each of the three protocols the open and close requests are, byte for byte, what the
  command schema of their type generates.
\<close>

theorem open_close_follow_schema:
  "gen_of_type c 1 d = Some (create_open_request c d t) \<and>
   gen_of_type c 2 d = Some (create_close_request c d t)"
proof -
  have "gen_of_type c k d = Some (schema_bytes k (proto_version c) d 0 0
      (if c = Proto3 then ''v_p_0_I_0_0'' else ''v_p_0_d_0_0''))" if "k = 1 \<or> k = 2" for k
    using gen_of_type_bytes [OF open_close_schema [OF that, of c]]
    by (cases c) (simp_all add: letter_bytes_def letter_length_def)
  then show ?thesis
    by (cases c) (simp_all add: letter_bytes_def packet_defs head12_def head3_def
        Protocol1_version_def Protocol2_version_def Protocol3_version_def)
qed


text \<open>One letter of a plain schema, matched against what it generates.\<close>

lemma match_letter_generated:
  assumes "letter_length ch = Some n" and "z = 0 \<or> z = 1"
    and "length pre + length rest < 2 ^ 30"
  shows "\<exists>v' e'. match_letter pkt proto dev ch
      (rbuf 0 pre (letter_bytes pkt proto dev z s ch @ rest), Hex32 v False, idev3 e) =
    Some (rbuf 0 (pre @ letter_bytes pkt proto dev z s ch) rest, Hex32 v' False, idev3 e')"
  using assms(1)
proof (cases rule: letter_cases)
  case 7
  have "get_idev3 (rbuf 0 pre (be_devid dev @ rest)) (idev3 e) = (rbuf 0 (pre @ be_devid dev) rest, idev3 dev)"
    using assms(3) by (simp add: get_idev3_be)
  with 7 show ?thesis
    by (auto simp: match_letter_def letter_bytes_def case_prod_beta Let_def intro: exI [of _ v])
qed (use assms(2,3) in \<open>auto simp: match_letter_def letter_bytes_def get32_be intro: exI [of _ e]\<close>)

lemma is_match_loop_generated:
  assumes "plain_schema sc" and "z = 0 \<or> z = 1"
    and "length pre + length (schema_bytes pkt proto dev z s sc) < 2 ^ 30"
  shows "is_match_loop pkt proto dev sc
    (rbuf 0 pre (schema_bytes pkt proto dev z s sc), Hex32 v False, idev3 e)"
  using assms(1,3)
proof (induction sc arbitrary: pre v e)
  case Nil
  then show ?case by simp
next
  case (Cons ch sc)
  show ?case
  proof (cases "ch = CHR ''_''")
    case True
    with Cons show ?thesis by simp
  next
    case False
    let ?l = "letter_bytes pkt proto dev z s ch" and ?r = "schema_bytes pkt proto dev z s sc"
    from Cons.prems(1) False obtain n where n: "letter_length ch = Some n"
      by (cases "letter_length ch") auto
    have "length pre + length ?r < 2 ^ 30" using Cons.prems(2) False by simp
    then obtain v' e' where step: "match_letter pkt proto dev ch
        (rbuf 0 pre (?l @ ?r), Hex32 v False, idev3 e) =
        Some (rbuf 0 (pre @ ?l) ?r, Hex32 v' False, idev3 e')"
      using match_letter_generated [OF n assms(2)] by blast
    moreover have "is_match_loop pkt proto dev sc (rbuf 0 (pre @ ?l) ?r, Hex32 v' False, idev3 e')"
      by (rule Cons.IH) (use Cons.prems False n in simp_all)
    ultimately show ?thesis using False by simp
  qed
qed

text \<open>
  A packet generated from a schema without payload, with a flag that is 0 or 1, matches that
  schema for the same protocol version and device.
\<close>

theorem generated_packet_matches:
  assumes "schema s = Some sc" and "plain_schema sc" and "z = 0 \<or> z = 1"
    and "length (schema_bytes (pkt_type s) proto dev z some sc) < 2 ^ 30"
  shows "Option.bind (gen_plain_command s proto dev z some) (\<lambda>pkt. is_match s pkt proto dev) = Some True"
proof -
  have "gen_plain_command s proto dev z some = Some (schema_bytes (pkt_type s) proto dev z some sc)"
    using assms by (intro gen_plain_command_bytes) simp_all
  then show ?thesis
    using is_match_loop_generated [OF assms(2,3), of "[]"] assms(1,4)
    by (simp add: is_match_def MBuf_data_rbuf)
qed

theorem generated_packet_matches_witness:
  "Option.bind (gen_plain_command \<lparr>pkt_type = 0xFE, schema = Some ''v_p_0_I_0_0_b''\<rparr> 3 (mk_devid 7 1 2 0) 1 0)
     (\<lambda>pkt. is_match \<lparr>pkt_type = 0xFE, schema = Some ''v_p_0_I_0_0_b''\<rparr> pkt 3 (mk_devid 7 1 2 0)) = Some True"
  using generated_packet_matches [of "\<lparr>pkt_type = 0xFE, schema = Some ''v_p_0_I_0_0_b''\<rparr>"
      "''v_p_0_I_0_0_b''" 1 3 "mk_devid 7 1 2 0" 0]
  by (simp add: letter_bytes_def letter_length_def)

section \<open>Enumeration\<close>

text \<open>
  C28: the client decodes every enumeration response the server builds to exactly the listed
  devices, in order: their number and their identifiers in network order.
\<close>

theorem enum_roundtrip:
  assumes "\<not> is_server p" and "length ds < 2 ^ 26"
  shows "get_data_from_bindy_callback Proto3 p (MBuf_data (Protocol3_create_enum_response ds) True) u
    = accepted p (word_of_nat (length ds)) (concat (map be_devid ds)) 0xFC"
  using assms by (rule client_enum3)

theorem enum_roundtrip_witness:
  "get_data_from_bindy_callback Proto3 client_obj
     (MBuf_data (Protocol3_create_enum_response [mk_devid 7 1 2 0, mk_devid 8 1 2 0]) True) 0
   = accepted client_obj 2 (be_devid (mk_devid 7 1 2 0) @ be_devid (mk_devid 8 1 2 0)) 0xFC"
  using enum_roundtrip [of client_obj "[mk_devid 7 1 2 0, mk_devid 8 1 2 0]" 0]
  by (simp add: client_obj_def)

lemma enum_loop_empty:
  "length pre < 2 ^ 30 \<Longrightarrow>
   fst (Protocol3_enum_loop n (rbuf c pre []) (idev3 d) data) = rbuf (c + of_nat (4 * n)) pre []"
proof (induction n arbitrary: c data)
  case (Suc n)
  have "get_idev3 (rbuf c pre []) (idev3 d) = (rbuf (c + 4) pre [], idev3 d)"
    using Suc.prems by (simp add: get_idev3_short)
  with Suc show ?case by (simp add: algebra_simps)
qed simp

text \<open>
  C39: an enumeration response that announces \<open>n\<close> devices and carries none is accepted by the
  client exactly when 64 divides \<open>n\<close>: each missing device counts four failed reads, and the
  8-bit counter comes round to "no failure".
\<close>

theorem truncated_enum_accepted_iff:
  assumes "\<not> is_server p" and "n < 2 ^ 30"
  shows "map_option cd_ok (get_data_from_bindy_callback Proto3 p
      (MBuf_data (head3 0xFC 0 d @ be32 (word_of_nat n)) True) u) = Some (64 dvd n)"
proof -
  have "4 * of_nat n = (0 :: u8) \<longleftrightarrow> 64 dvd n"
  proof -
    have "4 * of_nat n = (of_nat (4 * n) :: u8)" by simp
    then have "4 * of_nat n = (0 :: u8) \<longleftrightarrow> 256 dvd 4 * n"
      by (simp only: word_of_nat_eq_0_iff) simp
    then show ?thesis by presburger
  qed
  then show ?thesis
    using assms
    by (simp add: head3_def client_head3 Protocol3_get_spec_data_def MBuf_data_rbuf mseek_be get32_be
        sint_word_of_nat enum_loop_empty case_prod_beta Let_def)
qed

theorem truncated_enum_accepted_iff_witness:
  "map_option cd_ok (get_data_from_bindy_callback Proto3 client_obj
      (MBuf_data (head3 0xFC 0 (devid_of_id 0) @ be32 64) True) 0) = Some True"
  using truncated_enum_accepted_iff [of client_obj 64 "devid_of_id 0" 0] by (simp add: client_obj_def)


section \<open>Result packets at the client\<close>

lemma client3_short_head:
  assumes "length d < 24"
  shows "wasBroken (after_head3 d)"
  using reads_unbroken [OF reads_after_head3 [of d]] assms by (auto simp: MBuf_data_def dlen_def)

lemma spec3_result:
  assumes "\<not> is_server p" and "k \<in> {0xFF, 0xFE, 0xFB, 0xFA}" and "length pre + length body < 2 ^ 30"
  shows "fst (Protocol3_get_spec_data p (rbuf 0 pre body) [] [] k) \<longleftrightarrow> length body = 4 \<or> length body = 12"
    and "length body = 4 \<or> length body = 12 \<Longrightarrow>
      res_err (fst (snd (Protocol3_get_spec_data p (rbuf 0 pre body) [] [] k))) =
        val32 (drop (length body - 4) body)"
proof -
  have seek: "mseek (rbuf 0 pre body) 8 =
      (if 8 \<le> length body then rbuf 0 (pre @ take 8 body) (drop 8 body) else rbuf 1 pre body)"
    using assms(3) by (simp add: rbuf_seek_8)
  have k: "k \<noteq> 0xFD" "k = 0xFF \<or> k = 0xFE \<or> k = 0xFB \<or> k = 0xFA" using assms(2) by auto
  show "fst (Protocol3_get_spec_data p (rbuf 0 pre body) [] [] k) \<longleftrightarrow> length body = 4 \<or> length body = 12"
    using assms(1,3) k seek
    by (auto simp: Protocol3_get_spec_data_def rbuf_rest case_prod_beta Let_def)
  assume "length body = 4 \<or> length body = 12"
  then show "res_err (fst (snd (Protocol3_get_spec_data p (rbuf 0 pre body) [] [] k))) =
      val32 (drop (length body - 4) body)"
    using assms(1,3) k seek
    by (auto simp: Protocol3_get_spec_data_def rbuf_rest get32_rbuf case_prod_beta Let_def)
qed

text \<open>
  C38: the client accepts an open, close, version or error response of version 3 when it is 36 bytes
  long, and also when it is 28: the seek over the reserved words fails then, the failure is not
  looked at, and the first reserved word is taken for the result.
\<close>

theorem client_result_lengths:
  assumes "\<not> is_server p" and "length d < 2 ^ 30" and "word_at d 4 \<in> {0xFF, 0xFE, 0xFB, 0xFA}"
  shows "map_option (\<lambda>r. (cd_ok r, cd_ok r \<longrightarrow> res_err (cd_proto r) = word_at d (length d - 4)))
      (get_data_from_bindy_callback Proto3 p (MBuf_data d True) u)
    = Some (length d = 28 \<or> length d = 36, True)"
proof (cases "24 \<le> length d")
  case False
  then show ?thesis
    using client3_short_head [of d]
    by (simp add: get_data_from_bindy_callback_def after_head3_def case_prod_beta Let_def)
next
  case True
  obtain v k t e body where d: "d = be32 v @ be32 k @ be32 t @ be_devid e @ body"
    and len: "length d = 24 + length body" using split_head3 [OF True] by blast
  have k: "k \<in> {0xFF, 0xFE, 0xFB, 0xFA}" using assms(3) by (simp add: d)
  have word: "word_at d (20 + length body) = val32 (drop (length body - 4) body)" if "4 \<le> length body"
    using that by (simp add: d word_at_def)
  let ?o = "Protocol3_get_spec_data (p\<lparr>res_err := 0\<rparr>)
      (rbuf 0 (be32 v @ be32 k @ be32 t @ be_devid e) body) [] [] k"
  have spec: "fst ?o \<longleftrightarrow> length body = 4 \<or> length body = 12"
    "length body = 4 \<or> length body = 12 \<Longrightarrow> res_err (fst (snd ?o)) = val32 (drop (length body - 4) body)"
    by (rule spec3_result; use assms(1,2) k len in simp)+
  have "get_data_from_bindy_callback Proto3 p (MBuf_data d True) u =
      Some \<lparr>cd_ok = fst ?o, cd_proto = fst (snd ?o), cd_res = fst (snd (snd (snd ?o))),
            cd_data = snd (snd (snd (snd ?o))), cd_pckt = (if fst ?o then k else u)\<rparr>"
    using assms(2) len by (simp add: d MBuf_data_rbuf client_head3 case_prod_beta)
  moreover have "20 + length body = length d - 4" using len by simp
  ultimately show ?thesis using spec word len by auto
qed

theorem client_result_lengths_witness:
  "map_option (\<lambda>r. (cd_ok r, cd_ok r \<longrightarrow> res_err (cd_proto r) = 1))
     (get_data_from_bindy_callback Proto3 client_obj
       (MBuf_data (be32 3 @ be32 0xFF @ be32 0 @ be_devid (devid_of_id 9) @ be32 1) True) 0)
   = Some (True, True)"
  using client_result_lengths [of client_obj
      "be32 3 @ be32 0xFF @ be32 0 @ be_devid (devid_of_id 9) @ be32 1" 0]
  by (simp add: client_obj_def word_at_def)

text \<open>
  The result the client reports for an open is the server's, but for a close it is always
  failure: the server answers 0 where the client wants 1.
\<close>

theorem open_close_results:
  assumes "\<not> is_server p"
  shows "map_option (\<lambda>r. snd (translate_response Proto3 (cd_proto r) (cd_pckt r) (cd_res r)))
      (get_data_from_bindy_callback Proto3 p
         (MBuf_data (Protocol3_create_open_response d (if added then 1 else 0)) True) u) = Some added
    \<and> map_option (\<lambda>r. snd (translate_response Proto3 (cd_proto r) (cd_pckt r) (cd_res r)))
      (get_data_from_bindy_callback Proto3 p
         (MBuf_data (Protocol3_create_close_response d 0) True) u) = Some False"
  using assms
  by (simp_all add: Protocol3_response_bytes client_result3 Protocol3_translate_response_def)

theorem open_close_results_witness:
  "map_option (\<lambda>r. snd (translate_response Proto3 (cd_proto r) (cd_pckt r) (cd_res r)))
      (get_data_from_bindy_callback Proto3 client_obj
         (MBuf_data (Protocol3_create_close_response (devid_of_id 4) 0) True) 0) = Some False"
  using open_close_results [of client_obj "devid_of_id 4" True 0] by (simp add: client_obj_def)

end
