(* ===== verification/Server_Properties.thy ===== *)
theory Server_Properties
  imports Server Wire_Properties
begin

text \<open>
  The properties of the packet handler: exactly which packets make it run into undefined behaviour,
  that every other packet is answered as the protocol says and leaves all locks free, and what the
  device and the client see of a command.
\<close>

section \<open>Dispatch\<close>

lemma callback_dispatch:
  assumes "16 \<le> length d" and "length d < 2 ^ 30"
  shows "callback_data env u c d s =
    (if word_at d 0 = 2 then callback_data2 env u c (MBuf_data d True) (word_at d 4) s
     else if word_at d 0 = 3 then callback_data3 env u c (MBuf_data d True) (word_at d 4) s
     else Some (Done [send_error_pckt_proto3 c ERR_NO_PROTOCOL] 0 s))"
proof -
  obtain v k t w body where d: "d = be32 v @ be32 k @ be32 t @ be32 w @ body"
    and len: "length d = 16 + length body" using split_head12 [OF assms(1)] by blast
  let ?rest = "be32 k @ be32 t @ be32 w @ body"
  have "mbuf_ok (rbuf 0 (be32 v) ?rest)" using assms(2) len by (intro rbuf_ok) simp
  from mbuf_ok_seek [OF this, of "-4"] have "mseek (rbuf 0 (be32 v) ?rest) (-4) = rbuf 0 [] (be32 v @ ?rest)"
    using assms(2) len by (simp add: rbuf_def dlen_def)
  then show ?thesis
    using assms len
    by (simp add: callback_data_def d MBuf_data_rbuf get32_be get_pckt_of_cmd_be)
qed

text \<open>A table that no thread is using, with a configurator.\<close>

definition server_ready :: "usb_confor \<Rightarrow> 'w msu \<Rightarrow> bool" where
  "server_ready cf s \<longleftrightarrow> idle s \<and> confor s = Some cf"

lemma ready_ops:
  assumes "server_ready cf s"
  shows "\<exists>r s'. open_if_not env c d s = Some (r, s') \<and> server_ready cf s'"
    and "\<exists>s'. remove_conn_or_remove_device env c d force s = Some s' \<and> server_ready cf s'"
    and "\<exists>r bs s'. operation_send_request env d req len resp n s = Some ((r, bs), s') \<and> server_ready cf s'"
    and "\<exists>r bs s'. urpc_operation_send_request env d cid req len resp n s = Some ((r, bs), s') \<and> server_ready cf s'"
proof -
  have ready: "idle s" "confor s = Some cf" using assms by (simp_all add: server_ready_def)
  show "\<exists>r s'. open_if_not env c d s = Some (r, s') \<and> server_ready cf s'"
    using open_ends [OF ready, of env c d] ready by (auto simp: ends_def server_ready_def)
  show "\<exists>s'. remove_conn_or_remove_device env c d force s = Some s' \<and> server_ready cf s'"
    using remove_ends [OF ready(1), of env c d force] ready by (auto simp: server_ready_def)
  show "\<exists>r bs s'. operation_send_request env d req len resp n s = Some ((r, bs), s') \<and> server_ready cf s'"
    using request_ends [OF ready(1), of env "\<lambda>h. send_request env h req len resp n" d resp] ready
    by (cases "fst (spec_request env (\<lambda>h. send_request env h req len resp n) d resp (view s))")
      (auto simp: server_ready_def operation_send_request_def)
  show "\<exists>r bs s'. urpc_operation_send_request env d cid req len resp n s = Some ((r, bs), s') \<and> server_ready cf s'"
    using request_ends [OF ready(1), of env "\<lambda>h. urpc_send_request env h cid req len resp n" d resp] ready
    by (cases "fst (spec_request env (\<lambda>h. urpc_send_request env h cid req len resp n) d resp (view s))")
      (auto simp: server_ready_def urpc_operation_send_request_def)
qed

text \<open>What the handler's outcome promises: \<open>k\<close> answers, all to the sender, and a table ready again.\<close>

definition answers :: "usb_confor \<Rightarrow> conn_id_t \<Rightarrow> nat \<Rightarrow> 'w outcome option \<Rightarrow> bool" where
  "answers cf c k out \<longleftrightarrow>
     (case out of
        Some (Done sent n s') \<Rightarrow> length sent = k \<and> (\<forall>(c', pkt) \<in> set sent. c' = c) \<and> server_ready cf s'
      | _ \<Rightarrow> False)"

lemma answers_simps [simp]:
  "answers cf c k (Some (Done sent n s)) \<longleftrightarrow>
     length sent = k \<and> (\<forall>(c', pkt) \<in> set sent. c' = c) \<and> server_ready cf s"
  "\<not> answers cf c k None"
  by (simp_all add: answers_def)

lemma enumerate_ready:
  assumes "server_ready cf s"
  shows "fst (com_scan env (world s)) = None \<Longrightarrow> enumerate_for_client env s = None"
    and "fst (com_scan env (world s)) = Some ports \<Longrightarrow>
      \<exists>sv s'. enumerate_for_client env s = Some (sv, s') \<and> server_ready cf s'"
  using assms
  by (auto simp: enumerate_for_client_def server_ready_def enumerate_dev_def list_sp_ports_def
      list_to_dev_id_vector_def idle_def Let_def case_prod_beta)

subsection \<open>Version 3\<close>

lemma callback3_answers:
  assumes "server_ready cf s" and "length d < 2 ^ 30 - 8192"
    and out_def: "out = callback_data3 env u c (MBuf_data d True) (word_at d 4) s"
  shows "if 28 \<le> length d \<and> word_at d 4 = 4 \<and> fst (com_scan env (world s)) = None
    then out = None else answers cf c 1 out"
proof -
  let ?r = "Protocol3_get_data_from_request (server_proto u) (MBuf_data d True)"
  have accept: "p3_ok ?r \<longleftrightarrow> 28 \<le> length d \<and>
      (word_at d 4 \<in> {1, 2, 4, 5} \<or> word_at d 4 = 3 \<and> length d = 40 + unat (word_at d 32))"
    by (rule server3_accepts) (use assms in \<open>simp_all add: server_proto_def\<close>)
  show ?thesis
  proof (cases "p3_ok ?r")
    case False
    with accept assms(1) show ?thesis
      by (auto simp: out_def callback_data3_def send_error_pckt_proto3_def Let_def)
  next
    case True
    with accept consider (cmd) "word_at d 4 = 3" | (opn) "word_at d 4 = 1" | (cls) "word_at d 4 = 2"
      | (enum) "word_at d 4 = 4" "28 \<le> length d" | (version) "word_at d 4 = 5" by auto
    then show ?thesis
    proof cases
      case cmd
      obtain r bs s' where "operation_send_request env (p3_dev ?r) (p3_data ?r)
          (word_of_nat (length (p3_data ?r))) (replicate (unat (p3_resp_len ?r)) 0)
          (ucast (p3_resp_len ?r)) s = Some ((r, bs), s')" "server_ready cf s'"
        using ready_ops(3) [OF assms(1)] by blast
      with cmd True show ?thesis
        by (simp add: out_def callback_data3_def send_error_pckt_proto3_def Let_def)
    next
      case opn
      obtain r s' where "open_if_not env c (p3_dev ?r) s = Some (r, s')" "server_ready cf s'"
        using ready_ops(1) [OF assms(1)] by blast
      with opn True show ?thesis by (simp add: out_def callback_data3_def Let_def)
    next
      case cls
      obtain s' where "remove_conn_or_remove_device env c (p3_dev ?r) False s = Some s'" "server_ready cf s'"
        using ready_ops(2) [OF assms(1)] by blast
      with cls True show ?thesis by (simp add: out_def callback_data3_def Let_def)
    next
      case enum
      with True show ?thesis
        using enumerate_ready [OF assms(1), of env]
        by (cases "fst (com_scan env (world s))") (auto simp: out_def callback_data3_def Let_def)
    next
      case version
      with True assms(1) show ?thesis by (simp add: out_def callback_data3_def Let_def)
    qed
  qed
qed

subsection \<open>Version 2\<close>

lemma parse2_cases:
  assumes "is_server p" and "length d < 2 ^ 30 - 8192" and "16 \<le> length d"
  shows "Protocol2_get_data_from_request p (MBuf_data d True) [] = None \<longleftrightarrow>
      word_at d 4 = 3 \<and> 24 \<le> length d \<and> length d < 28"
    and "Protocol2_get_data_from_request p (MBuf_data d True) [] = Some r \<Longrightarrow>
      length (p2_cid r) = (if word_at d 4 = 3 \<and> 28 \<le> length d then 4 else 0)"
proof -
  obtain v k t w body where d: "d = be32 v @ be32 k @ be32 t @ be32 w @ body"
    and len: "length d = 16 + length body" using split_head12 [OF assms(3)] by blast
  have k: "word_at d 4 = k" by (simp add: d)
  show none: "Protocol2_get_data_from_request p (MBuf_data d True) [] = None \<longleftrightarrow>
      word_at d 4 = 3 \<and> 24 \<le> length d \<and> length d < 28"
    using server2_verdicts [of p d "[]"] assms by (auto simp: server2_verdict_def split: if_splits)
  assume r: "Protocol2_get_data_from_request p (MBuf_data d True) [] = Some r"
  then have "k \<noteq> 3 \<or> length body < 8 \<or> 12 \<le> length body" using none k len by auto
  from server2_cid_body [OF assms(1) _ this, of v t w] r assms(2) k len
  show "length (p2_cid r) = (if word_at d 4 = 3 \<and> 28 \<le> length d then 4 else 0)"
    by (auto simp: server2_cid_def d split: if_splits)
qed

lemma callback2_answers:
  assumes "server_ready cf s" and "length d < 2 ^ 30 - 8192" and "16 \<le> length d"
    and out_def: "out = callback_data2 env u c (MBuf_data d True) (word_at d 4) s"
  shows "if word_at d 4 = 3 \<and> length d < 28 then out = None
    else answers cf c (if word_at d 4 \<in> {1, 2, 3} then 1 else 0) out"
proof (cases "Protocol2_get_data_from_request (server_proto u) (MBuf_data d True) []")
  case None
  then show ?thesis
    using parse2_cases(1) [of "server_proto u" d] assms by (simp add: server_proto_def callback_data2_def)
next
  case (Some r)
  have cid: "length (p2_cid r) = (if word_at d 4 = 3 \<and> 28 \<le> length d then 4 else 0)"
    by (rule parse2_cases(2) [OF _ assms(2,3) Some]) (simp add: server_proto_def)
  consider (short) "word_at d 4 = 3" "length d < 28" | (cmd) "word_at d 4 = 3" "28 \<le> length d"
    | (opn) "word_at d 4 = 1" | (cls) "word_at d 4 = 2" | (other) "word_at d 4 \<notin> {1, 2, 3}"
    by fastforce
  then show ?thesis
  proof cases
    case short
    then show ?thesis using Some cid by (simp add: out_def callback_data2_def URPC_CID_SIZE_def)
  next
    case cmd
    obtain x bs s' where "urpc_operation_send_request env (p2_dev r) (take URPC_CID_SIZE (p2_cid r)) (p2_data r)
        (word_of_nat (length (p2_data r))) (replicate (unat (p2_resp_len r)) 0)
        (ucast (p2_resp_len r)) s = Some ((x, bs), s')" "server_ready cf s'"
      using ready_ops(4) [OF assms(1)] by blast
    with cmd Some cid show ?thesis by (simp add: out_def callback_data2_def URPC_CID_SIZE_def Let_def)
  next
    case opn
    obtain x s' where "open_if_not env c (p2_dev r) s = Some (x, s')" "server_ready cf s'"
      using ready_ops(1) [OF assms(1)] by blast
    with opn Some show ?thesis by (simp add: out_def callback_data2_def)
  next
    case cls
    obtain s' where "remove_conn_or_remove_device env c (p2_dev r) False s = Some s'" "server_ready cf s'"
      using ready_ops(2) [OF assms(1)] by blast
    with cls Some show ?thesis by (simp add: out_def callback_data2_def)
  next
    case other
    with Some assms(1) show ?thesis by (simp add: out_def callback_data2_def)
  qed
qed


section \<open>A command from end to end\<close>

lemma callback_cmd3:
  assumes "server_ready cf s" and "medium data" and "map_find d (devices s) = Some (Some h)"
    and "com_request env h (take (length data mod 256) data) (ucast n) (world s) = (r, bs, w)"
  shows "\<exists>s'. callback_data env u c (Protocol3_create_cmd_request d t (Some data) n) s =
    Some (Done [(c, if r = xib_result_ok
                    then Protocol3_create_cmd_response d (fill bs (replicate (unat n) 0))
                    else Protocol3_create_error_response (xib_errors_to_xibridge r))] 0 s') \<and> server_ready cf s'"
proof -
  have ready: "idle s" "confor s = Some cf" using assms(1) by (simp_all add: server_ready_def)
  let ?pkt = "head3 3 0 d @ be32 (word_of_nat (length data)) @ data @ be32 n"
  have pkt: "Protocol3_create_cmd_request d t (Some data) n = ?pkt"
    using assms(2) by (simp add: Protocol3_cmd_request_bytes)
  have words: "word_at ?pkt 0 = 3" "word_at ?pkt 4 = 3" by (simp_all add: head3_def)
  let ?call = "\<lambda>h. send_request env h data (word_of_nat (length data)) (replicate (unat n) 0) (ucast n)"
  have call: "?call (Some h) (world s) = (r, fill bs (replicate (unat n) 0), w)"
    using assms(4) by (simp add: send_request_def unat_of_nat)
  obtain s' where s': "operation_send_request env d data (word_of_nat (length data))
      (replicate (unat n) 0) (ucast n) s = Some ((r, fill bs (replicate (unat n) 0)), s')" "server_ready cf s'"
    using request_ends [OF ready(1), of env ?call d "replicate (unat n) 0"] call assms(3) ready(2)
    by (auto simp: operation_send_request_def spec_request_def view_def server_ready_def Let_def)
  have "callback_data env u c ?pkt s = callback_data3 env u c (MBuf_data ?pkt True) 3 s"
    using callback_dispatch [of ?pkt env u c s] assms(2) words by simp
  with s' show ?thesis
    using assms(2)
    by (auto simp: pkt callback_data3_def server_cmd3 server_proto_def send_error_pckt_proto3_def Let_def)
qed

text \<open>
  A version 3 command for an open device reaches the device with its data (cut to the length
  modulo 256) and the expected length (modulo 256), and what the client then decodes is the
  device's answer in a buffer of the full expected length.
\<close>

theorem command_end_to_end:
  assumes "server_ready cf s" and "medium data" and "map_find d (devices s) = Some (Some h)"
    and "com_request env h (take (length data mod 256) data) (ucast n) (world s) = (xib_result_ok, bs, w)"
    and "length bs \<le> unat n" and "unat n < 2 ^ 31 - 8192"
  shows "\<exists>pkt s'. callback_data env u c (Protocol3_create_cmd_request d t (Some data) n) s =
      Some (Done [(c, pkt)] 0 s') \<and>
    client_payload Proto3 pkt = Some (bs @ replicate (unat n - length bs) 0)"
proof -
  have "fill bs (replicate (unat n) 0) = bs @ replicate (unat n - length bs) 0"
    by (simp add: fill_def overwrite_def)
  moreover have "short (bs @ replicate (unat n - length bs) 0)" using assms(5,6) by simp
  ultimately show ?thesis
    using callback_cmd3 [OF assms(1-4), of u c t]
      v3.dec_enc_resp [of "bs @ replicate (unat n - length bs) 0" d] by auto
qed

text \<open>
  When the device fails instead, the client gets an error packet whose code is the translation
  of the device's: lost, wrong command, wrong value or timeout.
\<close>

theorem command_failure_end_to_end:
  assumes "server_ready cf s" and "medium data" and "map_find d (devices s) = Some (Some h)"
    and "com_request env h (take (length data mod 256) data) (ucast n) (world s) = (r, bs, w)"
    and "r \<in> {xib_result_error, xib_result_value_error, xib_result_timeout, xib_result_nodevice}"
  shows "\<exists>pkt s'. callback_data env u c (Protocol3_create_cmd_request d t (Some data) n) s =
      Some (Done [(c, pkt)] 0 s') \<and>
    map_option (\<lambda>r. perror (cd_proto r)) (get_data_from_bindy_callback Proto3 client_obj (MBuf_data pkt True) 0)
      = Some (xib_errors_to_xibridge r) \<and> xib_errors_to_xibridge r \<in> known_errors"
proof -
  have "r \<noteq> xib_result_ok" using assms(5) by (auto simp: xib_result_defs)
  moreover have "get_data_from_bindy_callback Proto3 client_obj
      (MBuf_data (Protocol3_create_error_response (xib_errors_to_xibridge r)) True) 0 =
      accepted (client_obj\<lparr>perror := xib_errors_to_xibridge r\<rparr>) (xib_errors_to_xibridge r) [] 0xFA"
    by (simp add: Protocol3_response_bytes client_error3 client_obj_def)
  moreover have "xib_errors_to_xibridge r \<in> known_errors"
    using assms(5) by (auto simp: xib_errors_to_xibridge_def known_errors_def err_strings_def err_defs xib_result_defs)
  ultimately show ?thesis using callback_cmd3 [OF assms(1-4), of u c t] by auto
qed

section \<open>A server with one device\<close>

definition echo_env :: "int \<Rightarrow> unit dev_env" where
  "echo_env r = demo_env\<lparr>com_request := \<lambda>h req n w. (r, take (unat n) req, w)\<rparr>"

lemma demo_ready: "server_ready DevId2UsbBySerial (demo_msu ds cs)"
  by (simp add: server_ready_def demo_idle)


theorem command_end_to_end_witness:
  "\<exists>pkt s'. callback_data (echo_env 0) 0 5 (Protocol3_create_cmd_request (devid_of_id 9) 0 (Some [1, 2, 3]) 4)
      (demo_msu [(devid_of_id 9, Some 1)] [(5, devid_of_id 9)]) = Some (Done [(5, pkt)] 0 s')
    \<and> client_payload Proto3 pkt = Some [1, 2, 3, 0]"
  using command_end_to_end [OF demo_ready [of "[(devid_of_id 9, Some 1)]" "[(5, devid_of_id 9)]"],
      where data = "[1, 2, 3]" and d = "devid_of_id 9" and h = 1 and env = "echo_env 0" and n = 4
        and bs = "[1, 2, 3]" and w = "()" and u = 0 and c = 5 and t = 0]
  by (simp add: demo_idle echo_env_def xib_result_defs)

theorem command_failure_end_to_end_witness:
  "\<exists>pkt s'. callback_data (echo_env (-3)) 0 5 (Protocol3_create_cmd_request (devid_of_id 9) 0 (Some [1, 2, 3]) 4)
      (demo_msu [(devid_of_id 9, Some 1)] [(5, devid_of_id 9)]) = Some (Done [(5, pkt)] 0 s')
    \<and> map_option (\<lambda>r. perror (cd_proto r)) (get_data_from_bindy_callback Proto3 client_obj (MBuf_data pkt True) 0)
      = Some ERR_DEVICE_ERR_VAL"
  using command_failure_end_to_end [OF demo_ready [of "[(devid_of_id 9, Some 1)]" "[(5, devid_of_id 9)]"],
      where data = "[1, 2, 3]" and d = "devid_of_id 9" and h = 1 and env = "echo_env (-3)" and n = 4
        and r = "-3" and bs = "[1, 2, 3]" and w = "()" and u = 0 and c = 5 and t = 0]
  by (auto simp: demo_idle echo_env_def xib_result_defs xib_errors_to_xibridge_def)

end
