(* ===== verification/Client_Properties.thy ===== *)
theory Client_Properties
  imports Xibridge_Api Server_Properties
begin

text \<open>
  The properties of the client: the search for a protocol version against a server that never
  answers, the agreement on version 3 with the server of this repository (the whole system: client,
  wire, packet handler, device table), the answer that is lost when it is fast, and reading a
  received packet in pieces.
\<close>

section \<open>A server that never answers\<close>

text \<open>Connections are made, packets are taken (\<open>sent\<close> lists them), nothing comes back.\<close>

definition silent :: "'w net_env \<Rightarrow> ('w \<Rightarrow> bvector list) \<Rightarrow> bool" where
  "silent env sent \<longleftrightarrow>
     (\<forall>w. \<exists>w'. net_init env w = (True, w') \<and> sent w' = sent w) \<and>
     (\<forall>h a w. \<exists>c w'. net_connect env h a w = (Some c, w') \<and> c \<noteq> cl_invalid \<and> sent w' = sent w) \<and>
     (\<forall>c w. \<exists>w'. net_disconnect env c w = (True, w') \<and> sent w' = sent w) \<and>
     (\<forall>c d w. \<exists>w'. net_send env c d w = (True, w') \<and> sent w' = sent w @ [d]) \<and>
     (\<forall>w. \<exists>w'. net_early env w = ([], w') \<and> sent w' = sent w) \<and>
     (\<forall>w. \<exists>w'. net_wait env w = ([], w') \<and> sent w' = sent w)"

text \<open>The version after a time-out, and the class of a version.\<close>

definition prev_version :: "u32 \<Rightarrow> u32" where
  "prev_version v = (if v > 1 then v - 1 else 3)"

definition class_of :: "u32 \<Rightarrow> proto_class" where
  "class_of v = (if v = 1 then Proto1 else if v = 2 then Proto2 else Proto3)"

lemma make_protocol_class:
  "server_protocol_version c \<in> {1, 2, 3} \<Longrightarrow>
   make_protocol u c = Some (class_of (server_protocol_version c),
     \<lparr>is_server = False, res_err = u, perror = last_error c\<rparr>)"
  by (auto simp: make_protocol_def create_appropriate_protocol_def class_of_def)

text \<open>Updates of different fields, sorted.\<close>

lemma client_order:
  fixes c :: client
  shows
  "c\<lparr>conn_id := k, server_protocol_version := v\<rparr> = c\<lparr>server_protocol_version := v, conn_id := k\<rparr>"
  "c\<lparr>is_really_recv := b, server_protocol_version := v\<rparr> = c\<lparr>server_protocol_version := v, is_really_recv := b\<rparr>"
  "c\<lparr>recv_message := m, server_protocol_version := v\<rparr> = c\<lparr>server_protocol_version := v, recv_message := m\<rparr>"
  "c\<lparr>last_error := e, server_protocol_version := v\<rparr> = c\<lparr>server_protocol_version := v, last_error := e\<rparr>"
  "c\<lparr>is_really_recv := b, conn_id := k\<rparr> = c\<lparr>conn_id := k, is_really_recv := b\<rparr>"
  "c\<lparr>recv_message := m, conn_id := k\<rparr> = c\<lparr>conn_id := k, recv_message := m\<rparr>"
  "c\<lparr>last_error := e, conn_id := k\<rparr> = c\<lparr>conn_id := k, last_error := e\<rparr>"
  "c\<lparr>recv_message := m, is_really_recv := b\<rparr> = c\<lparr>is_really_recv := b, recv_message := m\<rparr>"
  "c\<lparr>last_error := e, is_really_recv := b\<rparr> = c\<lparr>is_really_recv := b, last_error := e\<rparr>"
  "c\<lparr>last_error := e, recv_message := m\<rparr> = c\<lparr>recv_message := m, last_error := e\<rparr>"
  by (cases c; simp)+

lemma lib_order:
  fixes L :: "'w lib"
  shows
  "L\<lparr>bmap := f, bindy := d\<rparr> = L\<lparr>bindy := d, bmap := f\<rparr>"
  "L\<lparr>heap := h, bindy := d\<rparr> = L\<lparr>bindy := d, heap := h\<rparr>"
  "L\<lparr>net := w, bindy := d\<rparr> = L\<lparr>bindy := d, net := w\<rparr>"
  "L\<lparr>heap := h, bmap := f\<rparr> = L\<lparr>bmap := f, heap := h\<rparr>"
  "L\<lparr>net := w, bmap := f\<rparr> = L\<lparr>bmap := f, net := w\<rparr>"
  "L\<lparr>net := w, heap := h\<rparr> = L\<lparr>heap := h, net := w\<rparr>"
  by (cases L; simp)+

lemma open_request_not_empty: "create_open_request c d t \<noteq> []"
  by (cases c) (auto simp: packet_defs head12_def head3_def be32_def)

lemma upd_simps [simp]:
  "heap L p = Some c \<Longrightarrow> upd p f L = Some (L\<lparr>heap := (heap L)(p \<mapsto> f c)\<rparr>)"
  by (simp add: upd_def)

lemma silent_instance:
  assumes "silent env sent"
  shows "\<exists>L'. instance_bindy env L = (True, L') \<and> heap L' = heap L \<and> bmap L' = bmap L \<and>
    sent (net L') = sent (net L) \<and> bindy L'"
proof -
  obtain w' where "net_init env (net L) = (True, w')" "sent w' = sent (net L)"
    using assms unfolding silent_def by blast
  then show ?thesis by (simp add: instance_bindy_def)
qed

lemma silent_open_connection:
  assumes "silent env sent" and "heap L p = Some c"
  shows "\<exists>L' conn. open_connection env p L = Some (True, L') \<and>
    heap L' p = Some (c\<lparr>last_error := 0, conn_id := conn\<rparr>) \<and>
    bmap L' conn \<noteq> None \<and> conn \<noteq> cl_invalid \<and> sent (net L') = sent (net L)"
proof -
  define L1 where "L1 = L\<lparr>heap := (heap L)(p \<mapsto> c\<lparr>last_error := 0\<rparr>)\<rparr>"
  obtain L2 where L2: "instance_bindy env L1 = (True, L2)" "heap L2 = heap L1" "bmap L2 = bmap L1"
    "sent (net L2) = sent (net L1)" using silent_instance [OF assms(1), of L1] by blast
  obtain conn w' where w': "net_connect env (host c) (adapter c) (net L2) = (Some conn, w')" "conn \<noteq> cl_invalid"
    "sent w' = sent (net L2)" using assms(1) unfolding silent_def by blast
  have "open_connection env p L = Some (True,
      (let L3 = (if bmap L2 conn = None then L2\<lparr>net := w', bmap := (bmap L2)(conn \<mapsto> p)\<rparr> else L2\<lparr>net := w'\<rparr>)
       in L3\<lparr>heap := (heap L3)(p \<mapsto> c\<lparr>last_error := 0, conn_id := conn\<rparr>)\<rparr>))"
    using L2 w' assms(2)
    by (auto simp: open_connection_def clr_errors_def set_error_def bh_connect_def L1_def [symmetric])
      (auto simp: L1_def Let_def)
  moreover have "sent (net L1) = sent (net L)" by (simp add: L1_def)
  ultimately show ?thesis using L2 w' by (auto simp: Let_def)
qed

lemma silent_open_device:
  assumes "silent env sent" and "heap L p = Some c" and "bmap L (conn_id c) \<noteq> None"
    and "server_protocol_version c \<in> {1, 2, 3}"
  shows "\<exists>L'. open_device env u p L = Some (False, L') \<and>
    heap L' = (heap L)(p \<mapsto> c\<lparr>last_error := ERR_RECV_TIMEOUT, is_really_recv := False\<rparr>) \<and>
    sent (net L') = sent (net L) @
      [create_open_request (class_of (server_protocol_version c)) (client_dev_id c) 3000]"
proof -
  let ?req = "create_open_request (class_of (server_protocol_version c)) (client_dev_id c) 3000"
  obtain w1 where w1: "net_send env (conn_id c) ?req (net L) = (True, w1)" "sent w1 = sent (net L) @ [?req]"
    using assms(1) unfolding silent_def by blast
  obtain w2 where w2: "net_early env w1 = ([], w2)" "sent w2 = sent w1"
    using assms(1) unfolding silent_def by blast
  obtain w3 where w3: "net_wait env w2 = ([], w3)" "sent w3 = sent w2"
    using assms(1) unfolding silent_def by blast
  have cls: "make_protocol u (c\<lparr>last_error := 0\<rparr>) = Some (class_of (server_protocol_version c),
      \<lparr>is_server = False, res_err = u, perror = 0\<rparr>)"
    using make_protocol_class [of "c\<lparr>last_error := 0\<rparr>" u] assms(4) by simp
  from w1 w2 w3 cls assms(2,3) show ?thesis
    by (auto simp: open_device_def clr_errors_def set_error_def send_and_receive_def send_bindy_data_def
        bh_is_connected_def open_request_not_empty)
qed

lemma silent_disconnect:
  assumes "silent env sent" and "heap L p = Some c"
  shows "\<exists>L'. disconnect env p L = Some L' \<and> heap L' = (heap L)(p \<mapsto> c\<lparr>conn_id := cl_invalid\<rparr>) \<and>
    sent (net L') = sent (net L)"
proof -
  obtain L1 where L1: "instance_bindy env L = (True, L1)" "heap L1 = heap L" "sent (net L1) = sent (net L)"
    using silent_instance [OF assms(1), of L] by blast
  obtain w' where w': "net_disconnect env (conn_id c) (net L1) = (True, w')" "sent w' = sent (net L1)"
    using assms(1) unfolding silent_def by blast
  from L1 w' assms(2) show ?thesis by (auto simp: disconnect_def bh_disconnect_def Let_def)
qed

lemma prev_version_in: "v \<in> {1, 2, 3} \<Longrightarrow> prev_version v \<in> {1, 2, 3}"
  by (auto simp: prev_version_def)

text \<open>One round of the search: a request in the current version, no answer, the version before it next.\<close>

definition asks :: "devid \<Rightarrow> u32 \<Rightarrow> bvector" where
  "asks d v = create_open_request (class_of v) d 3000"

lemma silent_round:
  assumes "silent env sent" and "heap L p = Some c" and "server_protocol_version c \<in> {1, 2, 3}"
  shows "\<exists>L' c'. open_round env u p L = Some (Again ERR_RECV_TIMEOUT (), L') \<and> heap L' p = Some c' \<and>
    server_protocol_version c' = prev_version (server_protocol_version c) \<and>
    client_dev_id c' = client_dev_id c \<and>
    sent (net L') = sent (net L) @ [asks (client_dev_id c) (server_protocol_version c)]"
proof -
  obtain L1 conn where L1: "open_connection env p L = Some (True, L1)"
    "heap L1 p = Some (c\<lparr>last_error := 0, conn_id := conn\<rparr>)" "bmap L1 conn \<noteq> None"
    "sent (net L1) = sent (net L)" using silent_open_connection [OF assms(1,2)] by blast
  define L2 where "L2 = L1\<lparr>heap := (heap L1)(p \<mapsto> c\<lparr>conn_id := conn, last_error := 0\<rparr>)\<rparr>"
  have L2: "clr_errors p L1 = Some L2" using L1(2) by (simp add: clr_errors_def set_error_def L2_def)
  obtain L3 where L3: "open_device env u p L2 = Some (False, L3)"
    "heap L3 p = Some (c\<lparr>last_error := ERR_RECV_TIMEOUT, is_really_recv := False, conn_id := conn\<rparr>)"
    "sent (net L3) = sent (net L) @ [asks (client_dev_id c) (server_protocol_version c)]"
    using silent_open_device [OF assms(1), of L2 p "c\<lparr>conn_id := conn, last_error := 0\<rparr>" u] L1 assms(3)
    by (auto simp: L2_def asks_def)
  define c3 where "c3 = c\<lparr>last_error := ERR_RECV_TIMEOUT, is_really_recv := False, conn_id := conn,
    server_protocol_version := prev_version (server_protocol_version c)\<rparr>"
  define L4 where "L4 = L3\<lparr>heap := (heap L3)(p \<mapsto> c3)\<rparr>"
  have L4: "decrement_server_protocol_version p L3 = Some L4"
    using L3(2) by (simp add: decrement_server_protocol_version_def prev_version_def L4_def c3_def
        xbc_get_last_protocol_version_def DEFAULT_PROTO_VERSION_def)
  obtain L5 where "disconnect env p L4 = Some L5" "heap L5 = (heap L4)(p \<mapsto> c3\<lparr>conn_id := cl_invalid\<rparr>)"
    "sent (net L5) = sent (net L4)" using silent_disconnect [OF assms(1), of L4 p c3] by (auto simp: L4_def)
  with L1(1) L2 L3 L4 show ?thesis
    by (auto simp: open_round_def get_last_error_def ERR_RECV_TIMEOUT_def ERR_ANOTHER_PROTOCOL_def L4_def c3_def)
qed

lemma silent_rounds:
  assumes "silent env sent"
  shows "heap L p = Some c \<Longrightarrow> server_protocol_version c \<in> {1, 2, 3} \<Longrightarrow>
    \<exists>L' c'. rounds (Suc n) (open_round env u p) (e, ()) L = Some (Stop ERR_RECV_TIMEOUT (), L') \<and>
      heap L' p = Some c' \<and>
      sent (net L') = sent (net L) @
        map (\<lambda>k. asks (client_dev_id c) ((prev_version ^^ k) (server_protocol_version c))) [0..<Suc n]"
proof (induction n arbitrary: L c e)
  case 0
  obtain L1 c1 where "open_round env u p L = Some (Again ERR_RECV_TIMEOUT (), L1)" "heap L1 p = Some c1"
    "sent (net L1) = sent (net L) @ [asks (client_dev_id c) (server_protocol_version c)]"
    using silent_round [OF assms 0] by blast
  then show ?case by simp
next
  case (Suc n)
  obtain L1 c1 where 1: "open_round env u p L = Some (Again ERR_RECV_TIMEOUT (), L1)" "heap L1 p = Some c1"
    "server_protocol_version c1 = prev_version (server_protocol_version c)" "client_dev_id c1 = client_dev_id c"
    "sent (net L1) = sent (net L) @ [asks (client_dev_id c) (server_protocol_version c)]"
    using silent_round [OF assms Suc.prems] by blast
  have "server_protocol_version c1 \<in> {1, 2, 3}" using 1(3) prev_version_in Suc.prems(2) by simp
  from Suc.IH [OF 1(2) this, of ERR_RECV_TIMEOUT] 1 show ?case
    by (auto simp: upt_conv_Cons funpow_Suc_right simp del: upt_Suc funpow.simps(2) simp flip: map_Suc_upt)
qed

lemma new_client_device:
  assumes "xibridge_parse_uri_dev12 uri True = (0, Some parsed)"
  shows "\<exists>c. new_client u junk uri None L =
      Some (next_ptr L, L\<lparr>heap := (heap L)(next_ptr L \<mapsto> c), next_ptr := next_ptr L + 1\<rparr>) \<and>
    server_protocol_version c = base_version L \<and> conn_id c = cl_invalid \<and>
    client_dev_id c = uri_device_id parsed \<and> host c = uri_server_host parsed \<and> recv_message c = []"
  using assms by (auto simp: new_client_def)

text \<open>
  Against a server that takes packets and never answers, opening a device ends: each of the
  three protocol versions is tried once, from the base version downwards and around, with its open
  request for the device of the URI; the call reports a time-out, gives no connection and leaves no
  client behind.
\<close>

theorem open_silent_server:
  assumes "silent env sent" and "xibridge_parse_uri_dev12 uri True = (0, Some parsed)"
    and "base_version L \<in> {1, 2, 3}"
  shows "\<exists>L'. xibridge_open_device_connection env u junk uri True L = Some ((ERR_RECV_TIMEOUT, None), L') \<and>
    heap L' (next_ptr L) = None \<and>
    sent (net L') = sent (net L) @ map (\<lambda>v. create_open_request (class_of v) (uri_device_id parsed) 3000)
      [base_version L, prev_version (base_version L), prev_version (prev_version (base_version L))]"
proof -
  let ?p = "next_ptr L"
  obtain c where c: "new_client u junk uri None L =
      Some (?p, L\<lparr>heap := (heap L)(?p \<mapsto> c), next_ptr := ?p + 1\<rparr>)"
    "server_protocol_version c = base_version L" "client_dev_id c = uri_device_id parsed"
    using new_client_device [OF assms(2)] by blast
  define L0 where "L0 = L\<lparr>heap := (heap L)(?p \<mapsto> c), next_ptr := ?p + 1\<rparr>"
  have L0: "heap L0 ?p = Some c" "net L0 = net L" "server_protocol_version c \<in> {1, 2, 3}"
    using assms(3) c(2) by (simp_all add: L0_def)
  obtain L1 c1 where L1: "rounds (Suc 2) (open_round env u ?p) (u, ()) L0 = Some (Stop ERR_RECV_TIMEOUT (), L1)"
    "heap L1 ?p = Some c1"
    "sent (net L1) = sent (net L0) @
      map (\<lambda>k. asks (client_dev_id c) ((prev_version ^^ k) (server_protocol_version c))) [0..<Suc 2]"
    using silent_rounds [OF assms(1) L0(1,3), of 2 u u] by blast
  obtain L2 where L2: "disconnect env ?p L1 = Some L2" "sent (net L2) = sent (net L1)"
    using silent_disconnect [OF assms(1) L1(2)] by blast
  have three: "unat (major xbc_get_last_protocol_version) = Suc 2"
    by (simp add: xbc_get_last_protocol_version_def DEFAULT_PROTO_VERSION_def)
  have "xibridge_open_device_connection env u junk uri True L =
      Some ((ERR_RECV_TIMEOUT, None), delete_client ?p L2)"
    unfolding xibridge_open_device_connection_def three using c(1) L1(1) L2(1)
    by (simp add: L0_def ERR_RECV_TIMEOUT_def del: rounds.simps)
  with L1(3) L2(2) L0(2) c(2,3) show ?thesis
    by (simp add: delete_client_def asks_def upt_rec numeral_2_eq_2)
qed

text \<open>A network that takes every packet into a list and never delivers one.\<close>

definition mute :: "bvector list net_env" where
  "mute = \<lparr>net_init = (\<lambda>w. (True, w)), net_connect = (\<lambda>h a w. (Some 1, w)), net_disconnect = (\<lambda>c w. (True, w)),
     net_send = (\<lambda>c d w. (True, w @ [d])), net_early = (\<lambda>w. ([], w)), net_wait = (\<lambda>w. ([], w))\<rparr>"

lemma mute_silent: "silent mute (\<lambda>w. w)"
  by (auto simp: silent_def mute_def cl_invalid_def)

theorem open_silent_server_witness:
  "\<exists>L'. xibridge_open_device_connection mute 0 (devid_of_id 0) ''xi-net://host/0000002A'' True (init_lib []) =
      Some ((ERR_RECV_TIMEOUT, None), L') \<and> length (net L') = 3"
proof -
  have uri: "xibridge_parse_uri_dev12 ''xi-net://host/0000002A'' True =
      (0, Some \<lparr>uri_schema = ''xi-net'', uri_server_host = ''host'', uri_device_id = devid_of_id 42\<rparr>)"
    by code_simp
  have base: "base_version (init_lib ([] :: bvector list)) = 1" "net (init_lib ([] :: bvector list)) = []"
    by (simp_all add: init_lib_def xbc_set_base_protocol_version_def is_protocol_supported_version_def
        DEFAULT_PROTO_VERSION_def Let_def)
  show ?thesis
    using open_silent_server [OF mute_silent uri, of "init_lib []" 0 "devid_of_id 0"] base by auto
qed

end
