(* ===== verification/Client_Invariant.thy ===== *)
theory Client_Invariant
  imports Client_Properties
begin

text \<open>
  The invariant of the client library's pointers: the map of connections and the clients on the heap
  are in step. Steps are grouped by what they may change: nothing of it (\<open>same\<close>), the version of some
  clients (\<open>kept\<close>), or a connection that begins or yields.
\<close>

section \<open>The invariant\<close>

text \<open>
  Every connection of the map has a live client that knows its number, and the number of a client is
  in the map. Clients outside \<open>X\<close>, the ones no call is working on, have a connection and a version
  that is supported. \<open>used\<close> are the numbers that the network has given out.
\<close>

definition entry_ok :: "('w \<Rightarrow> conn_id_t set) \<Rightarrow> 'w lib \<Rightarrow> conn_id_t \<Rightarrow> ptr \<Rightarrow> bool" where
  "entry_ok used L k q \<longleftrightarrow>
     k \<noteq> cl_invalid \<and> k \<in> used (net L) \<and> bindy L \<and>
     (case heap L q of None \<Rightarrow> False | Some c \<Rightarrow> conn_id c = k)"

definition client_ok :: "ptr set \<Rightarrow> 'w lib \<Rightarrow> ptr \<Rightarrow> client \<Rightarrow> bool" where
  "client_ok X L q c \<longleftrightarrow>
     q < next_ptr L \<and>
     (if conn_id c = cl_invalid then q \<in> X else bmap L (conn_id c) = Some q) \<and>
     (q \<notin> X \<longrightarrow> server_protocol_version c \<in> {1, 2, 3})"

definition lib_ok :: "('w \<Rightarrow> conn_id_t set) \<Rightarrow> ptr set \<Rightarrow> 'w lib \<Rightarrow> bool" where
  "lib_ok used X L \<longleftrightarrow>
     (\<forall>k q. bmap L k = Some q \<longrightarrow> entry_ok used L k q) \<and> (\<forall>q c. heap L q = Some c \<longrightarrow> client_ok X L q c)"

lemma lib_okI:
  "(\<And>k q. bmap L k = Some q \<Longrightarrow> entry_ok used L k q) \<Longrightarrow> (\<And>q c. heap L q = Some c \<Longrightarrow> client_ok X L q c) \<Longrightarrow>
   lib_ok used X L"
  by (simp add: lib_ok_def)

lemma lib_okD:
  assumes "lib_ok used X L"
  shows "bmap L k = Some q \<Longrightarrow> entry_ok used L k q" and "heap L q = Some c \<Longrightarrow> client_ok X L q c"
  using assms by (simp_all add: lib_ok_def)

lemma lib_ok_init: "lib_ok used {} (init_lib w)"
  by (simp add: lib_ok_def init_lib_def xbc_set_base_protocol_version_def Let_def)

text \<open>With the invariant a packet that arrives finds its client alive, or no client.\<close>

lemma lib_ok_callback: "lib_ok used X L \<Longrightarrow> callback_data_bindy k d L \<noteq> None"
  by (cases "bmap L k") (auto simp: callback_data_bindy_def upd_def entry_ok_def dest!: lib_okD(1) split: option.splits)

section \<open>Steps that keep connections and versions\<close>

definition shape :: "client \<Rightarrow> conn_id_t \<times> u32" where
  "shape c = (conn_id c, server_protocol_version c)"

definition same :: "('w \<Rightarrow> conn_id_t set) \<Rightarrow> 'w lib \<Rightarrow> 'w lib \<Rightarrow> bool" where
  "same used L L' \<longleftrightarrow>
     bmap L' = bmap L \<and> bindy L' = bindy L \<and> next_ptr L' = next_ptr L \<and>
     (\<forall>q. map_option shape (heap L' q) = map_option shape (heap L q)) \<and> used (net L) \<subseteq> used (net L')"

lemma same_refl [simp]: "same used L L"
  by (simp add: same_def)

lemma same_trans: "same used L L1 \<Longrightarrow> same used L1 L2 \<Longrightarrow> same used L L2"
  by (auto simp: same_def)

lemma same_heap:
  assumes "same used L L'"
  shows "heap L q = None \<longleftrightarrow> heap L' q = None"
    and "heap L' q = Some c' \<Longrightarrow> \<exists>c. heap L q = Some c \<and> shape c = shape c'"
    and "heap L q = Some c \<Longrightarrow> \<exists>c'. heap L' q = Some c' \<and> shape c' = shape c"
proof -
  have eq: "map_option shape (heap L' q) = map_option shape (heap L q)" using assms by (simp add: same_def)
  show "heap L q = None \<longleftrightarrow> heap L' q = None" using eq by (metis option.map_disc_iff)
  show "\<exists>c. heap L q = Some c \<and> shape c = shape c'" if "heap L' q = Some c'"
    using eq that by (cases "heap L q") auto
  show "\<exists>c'. heap L' q = Some c' \<and> shape c' = shape c" if "heap L q = Some c"
    using eq that by (cases "heap L' q") auto
qed

text \<open>Steps that may also change the version of the clients in \<open>Y\<close>.\<close>

definition kept :: "('w \<Rightarrow> conn_id_t set) \<Rightarrow> ptr set \<Rightarrow> 'w lib \<Rightarrow> 'w lib \<Rightarrow> bool" where
  "kept used Y L L' \<longleftrightarrow>
     bmap L' = bmap L \<and> bindy L' = bindy L \<and> next_ptr L' = next_ptr L \<and>
     (\<forall>q. map_option conn_id (heap L' q) = map_option conn_id (heap L q)) \<and>
     (\<forall>q. q \<notin> Y \<longrightarrow> map_option shape (heap L' q) = map_option shape (heap L q)) \<and> used (net L) \<subseteq> used (net L')"

lemma same_kept:
  assumes "same used L L'"
  shows "kept used Y L L'"
proof -
  have "map_option conn_id h = map_option fst (map_option shape h)" for h
    by (cases h) (simp_all add: shape_def)
  with assms show ?thesis by (simp add: same_def kept_def)
qed

lemma kept_heap:
  assumes "kept used Y L L'"
  shows "heap L' q = Some c' \<Longrightarrow> \<exists>c. heap L q = Some c \<and> conn_id c = conn_id c' \<and> (q \<notin> Y \<longrightarrow> shape c = shape c')"
    and "heap L q = Some c \<Longrightarrow> \<exists>c'. heap L' q = Some c' \<and> conn_id c' = conn_id c"
proof -
  have eq: "map_option conn_id (heap L' q) = map_option conn_id (heap L q)"
    "q \<notin> Y \<longrightarrow> map_option shape (heap L' q) = map_option shape (heap L q)" using assms by (simp_all add: kept_def)
  show "\<exists>c. heap L q = Some c \<and> conn_id c = conn_id c' \<and> (q \<notin> Y \<longrightarrow> shape c = shape c')" if "heap L' q = Some c'"
    using eq that by (cases "heap L q") auto
  show "\<exists>c'. heap L' q = Some c' \<and> conn_id c' = conn_id c" if "heap L q = Some c"
    using eq(1) that by (cases "heap L' q") auto
qed

lemma lib_ok_kept:
  assumes ok: "lib_ok used X L" and kept: "kept used Y L L'" and "Y \<subseteq> X"
  shows "lib_ok used X L'"
proof (rule lib_okI)
  fix k q
  assume "bmap L' k = Some q"
  then have "bmap L k = Some q" using kept by (simp add: kept_def)
  then have k: "entry_ok used L k q" by (rule lib_okD(1) [OF ok])
  then obtain c where c: "heap L q = Some c" "conn_id c = k" by (auto simp: entry_ok_def split: option.splits)
  then obtain c' where "heap L' q = Some c'" "conn_id c' = k" using kept_heap(2) [OF kept c(1)] by auto
  with k kept show "entry_ok used L' k q" by (auto simp: entry_ok_def kept_def)
next
  fix q c'
  assume "heap L' q = Some c'"
  then obtain c where c: "heap L q = Some c" "conn_id c = conn_id c'" "q \<notin> Y \<longrightarrow> shape c = shape c'"
    using kept_heap(1) [OF kept] by blast
  have "client_ok X L q c" by (rule lib_okD(2) [OF ok c(1)])
  with c(2,3) kept assms(3) show "client_ok X L' q c'" by (auto simp: client_ok_def kept_def shape_def)
qed

lemma lib_ok_same: "lib_ok used X L \<Longrightarrow> same used L L' \<Longrightarrow> lib_ok used X L'"
  using lib_ok_kept [OF _ same_kept, of used X L L' "{}"] by simp

text \<open>
  \<open>sound\<close>: the map has no dangling pointer. \<open>goes\<close> and \<open>good\<close>: the step is defined and keeps the
  shape, without and with a result.
\<close>

definition sound :: "'w lib \<Rightarrow> bool" where
  "sound L \<longleftrightarrow> (\<forall>k q. bmap L k = Some q \<longrightarrow> heap L q \<noteq> None)"

lemma sound_same: "sound L \<Longrightarrow> same used L L' \<Longrightarrow> sound L'"
  unfolding sound_def by (metis same_heap(1) same_def)

lemma lib_ok_sound: "lib_ok used X L \<Longrightarrow> sound L"
  by (auto simp: sound_def entry_ok_def dest!: lib_okD(1) split: option.splits)

definition live :: "'w lib \<Rightarrow> ptr \<Rightarrow> bool" where
  "live L p \<longleftrightarrow> heap L p \<noteq> None"

lemma live_same: "live L p \<Longrightarrow> same used L L' \<Longrightarrow> \<exists>c. heap L' p = Some c"
  unfolding live_def by (metis same_heap(1) option.exhaust)

definition goes :: "('w \<Rightarrow> conn_id_t set) \<Rightarrow> 'w lib \<Rightarrow> 'w lib option \<Rightarrow> bool" where
  "goes used L m \<longleftrightarrow> (\<exists>L'. m = Some L' \<and> same used L L')"

definition good :: "('w \<Rightarrow> conn_id_t set) \<Rightarrow> 'w lib \<Rightarrow> ('r \<times> 'w lib) option \<Rightarrow> bool" where
  "good used L m \<longleftrightarrow> (\<exists>r L'. m = Some (r, L') \<and> same used L L')"

named_theorems good_rules

lemma good_ret [good_rules]: "same used L L1 \<Longrightarrow> good used L (Some (r, L1))"
  by (simp add: good_def)

lemma good_bind [good_rules]:
  "good used L m \<Longrightarrow> (\<And>r L1. same used L L1 \<Longrightarrow> good used L (f (r, L1))) \<Longrightarrow> good used L (Option.bind m f)"
  unfolding good_def by fastforce

lemma good_some: "m \<noteq> None \<Longrightarrow> (\<And>x. m = Some x \<Longrightarrow> good used L (f x)) \<Longrightarrow> good used L (Option.bind m f)"
  by (cases m) auto

lemma good_goes [good_rules]:
  "goes used L m \<Longrightarrow> (\<And>L1. same used L L1 \<Longrightarrow> good used L (f L1)) \<Longrightarrow> good used L (Option.bind m f)"
  unfolding good_def goes_def by fastforce

lemma good_heap [good_rules]:
  assumes "live L p" and "same used L L1" and "\<And>c. heap L1 p = Some c \<Longrightarrow> good used L (f c)"
  shows "good used L (Option.bind (heap L1 p) f)"
  using live_same [OF assms(1,2)] assms(3) by auto

lemma goes_bind [good_rules]:
  "goes used L m \<Longrightarrow> (\<And>L1. same used L L1 \<Longrightarrow> goes used L (f L1)) \<Longrightarrow> goes used L (Option.bind m f)"
  unfolding goes_def by fastforce

lemma goes_upd [good_rules]:
  assumes "live L p" and "same used L L1" and "\<And>c. shape (f c) = shape c"
  shows "goes used L (upd p f L1)"
proof -
  obtain c where c: "heap L1 p = Some c" using live_same [OF assms(1,2)] by blast
  then have "map_option shape (heap L p) = Some (shape c)"
    using assms(2) unfolding same_def by (metis option.map(2))
  with c assms(2,3) show ?thesis by (auto simp: goes_def upd_def same_def)
qed

lemma goes_set_error [good_rules]:
  "live L p \<Longrightarrow> same used L L1 \<Longrightarrow> goes used L (set_error p e L1)"
  "live L p \<Longrightarrow> same used L L1 \<Longrightarrow> goes used L (clr_errors p L1)"
  by (simp_all add: set_error_def clr_errors_def goes_upd shape_def)

lemma goes_callback:
  assumes "sound L" and "same used L L1"
  shows "goes used L (callback_data_bindy k d L1)"
proof (cases "bmap L1 k")
  case None
  then show ?thesis using assms(2) by (simp add: callback_data_bindy_def goes_def)
next
  case (Some p)
  then have "live L p" using assms by (auto simp: sound_def same_def live_def)
  with Some show ?thesis using goes_upd [OF _ assms(2)] by (simp add: callback_data_bindy_def shape_def)
qed

lemma goes_deliver [good_rules]: "sound L \<Longrightarrow> same used L L1 \<Longrightarrow> goes used L (deliver es L1)"
proof (induction es arbitrary: L1)
  case Nil
  then show ?case by (simp add: goes_def)
next
  case (Cons e es)
  then show ?case by (cases e) (auto intro!: goes_bind goes_callback)
qed

lemma good_fail_with [good_rules]:
  "live L p \<Longrightarrow> same used L L1 \<Longrightarrow> good used L (fail_with p e r L1)"
  unfolding fail_with_def by (intro good_rules)

lemma good_is_connected [good_rules]:
  assumes "live L p" and "same used L L1"
    and "\<And>c. heap L1 p = Some c \<Longrightarrow> good used L (f (conn_id c \<noteq> cl_invalid \<and> bh_is_connected (conn_id c) L1))"
  shows "good used L (Option.bind (is_connected p L1) f)"
  using live_same [OF assms(1,2)] assms(3) by (auto simp: is_connected_def)

lemma good_last_error [good_rules]:
  assumes "live L p" and "same used L L1" and "\<And>e. good used L (f e)"
  shows "good used L (Option.bind (get_last_error p L1) f)"
  using live_same [OF assms(1,2)] assms(3) by (auto simp: get_last_error_def)

text \<open>Steps after which \<open>P\<close> holds of the result and the library.\<close>

definition yields :: "('r \<Rightarrow> 'w lib \<Rightarrow> bool) \<Rightarrow> ('r \<times> 'w lib) option \<Rightarrow> bool" where
  "yields P m \<longleftrightarrow> (\<exists>r L'. m = Some (r, L') \<and> P r L')"

named_theorems yields_rules

lemma yields_ret [yields_rules]: "P r L \<Longrightarrow> yields P (Some (r, L))"
  by (simp add: yields_def)

lemma yields_good: "good used L m \<Longrightarrow> (\<And>r L1. same used L L1 \<Longrightarrow> yields P (f (r, L1))) \<Longrightarrow> yields P (Option.bind m f)"
  unfolding good_def by fastforce

lemma yields_goes: "goes used L m \<Longrightarrow> (\<And>L1. same used L L1 \<Longrightarrow> yields P (f L1)) \<Longrightarrow> yields P (Option.bind m f)"
  unfolding goes_def by fastforce

lemma yields_yields: "yields Q m \<Longrightarrow> (\<And>r L1. Q r L1 \<Longrightarrow> yields P (f (r, L1))) \<Longrightarrow> yields P (Option.bind m f)"
  unfolding yields_def by fastforce

lemma yields_mono: "yields Q m \<Longrightarrow> (\<And>r L1. Q r L1 \<Longrightarrow> P r L1) \<Longrightarrow> yields P m"
  unfolding yields_def by blast

text \<open>The client's parser reads nothing it has not got: it is defined on every packet.\<close>

lemma client_parser_total:
  assumes "\<not> is_server p"
  shows "get_data_from_bindy_callback c p m u \<noteq> None"
  using assms
  by (cases c) (auto simp: get_data_from_bindy_callback_def Protocol2_get_spec_data_def Let_def
      split: prod.splits option.splits if_splits)

text \<open>Opening a device: the version may change, and is a supported one when no error is left.\<close>

definition opened :: "('w \<Rightarrow> conn_id_t set) \<Rightarrow> ptr \<Rightarrow> 'w lib \<Rightarrow> bool \<Rightarrow> 'w lib \<Rightarrow> bool" where
  "opened used p L z L' \<longleftrightarrow> kept used {p} L L' \<and>
     (\<exists>c. heap L' p = Some c \<and> (last_error c = 0 \<longrightarrow> server_protocol_version c \<in> {1, 2, 3}))"

lemma opened_same:
  assumes "same used L L1" and "heap L p = Some c" and "server_protocol_version c \<in> {1, 2, 3}"
  shows "opened used p L z L1"
proof -
  obtain c1 where "heap L1 p = Some c1" "shape c1 = shape c" using same_heap(3) [OF assms(1,2)] by blast
  with assms show ?thesis by (auto simp: opened_def same_kept shape_def)
qed

lemma yields_fail_with:
  assumes "live L p" and "same used L L1" and "e \<noteq> 0"
  shows "yields (opened used p L) (fail_with p e z L1)"
proof -
  obtain c where c: "heap L1 p = Some c" using live_same [OF assms(1,2)] by blast
  have "goes used L (set_error p e L1)" using assms by (simp add: goes_set_error)
  with c assms(3) show ?thesis
    by (auto simp: fail_with_def yields_def opened_def goes_def set_error_def intro: same_kept)
qed

lemma yields_other_version:
  assumes "heap L p = Some c" and "same used L L1" and "server_protocol_version c \<in> {1, 2, 3}"
    and "yields (opened used p L) (f (False, L1))" and "\<And>L2. opened used p L False L2 \<Longrightarrow> yields (opened used p L) (f (True, L2))"
  shows "yields (opened used p L) (Option.bind (other_version p L1) f)"
proof -
  obtain c1 where c1: "heap L1 p = Some c1" "shape c1 = shape c" using same_heap(3) [OF assms(2,1)] by blast
  have "kept used {p} L (L1\<lparr>heap := (heap L1)(p \<mapsto> c1\<lparr>server_protocol_version := v, last_error := e\<rparr>)\<rparr>)" for v e
    using same_kept [OF assms(2), of "{p}"] c1 assms(1) by (auto simp: kept_def shape_def)
  with c1 assms(4,5) show ?thesis
    by (simp add: other_version_def Let_def opened_def ERR_ANOTHER_PROTOCOL_def)
qed

section \<open>Connecting and disconnecting\<close>

definition detached :: "ptr \<Rightarrow> 'w lib \<Rightarrow> bool" where
  "detached p L \<longleftrightarrow> (\<exists>c. heap L p = Some c \<and> conn_id c = cl_invalid)"

lemma lib_ok_delete:
  assumes ok: "lib_ok used X L" and gone: "detached p L"
  shows "lib_ok used (X - {p}) (delete_client p L)"
proof (rule lib_okI)
  fix k q
  assume "bmap (delete_client p L) k = Some q"
  then have "entry_ok used L k q" using lib_okD(1) [OF ok] by (simp add: delete_client_def)
  with gone show "entry_ok used (delete_client p L) k q"
    by (auto simp: entry_ok_def delete_client_def detached_def)
next
  fix q c
  assume "heap (delete_client p L) q = Some c"
  then have "heap L q = Some c" "q \<noteq> p" by (simp_all add: delete_client_def split: if_splits)
  with lib_okD(2) [OF ok] show "client_ok (X - {p}) (delete_client p L) q c"
    by (auto simp: client_ok_def delete_client_def)
qed

lemma lib_ok_leave:
  assumes ok: "lib_ok used X L" and c: "heap L p = Some c" and w: "used (net L) \<subseteq> used w"
  shows "lib_ok used (insert p X)
    (L\<lparr>bmap := (bmap L)(conn_id c := None), heap := (heap L)(p \<mapsto> c\<lparr>conn_id := cl_invalid\<rparr>), net := w\<rparr>)"
    (is "lib_ok _ _ ?L")
proof (rule lib_okI)
  fix k q
  assume "bmap ?L k = Some q"
  then have k: "bmap L k = Some q" "k \<noteq> conn_id c" by (simp_all split: if_splits)
  then have "entry_ok used L k q" using lib_okD(1) [OF ok] by blast
  with k(2) c w show "entry_ok used ?L k q" by (auto simp: entry_ok_def split: option.splits)
next
  fix q d
  assume d: "heap ?L q = Some d"
  show "client_ok (insert p X) ?L q d"
  proof (cases "q = p")
    case True
    with d lib_okD(2) [OF ok c] show ?thesis by (auto simp: client_ok_def)
  next
    case False
    with d have "client_ok X L q d" using lib_okD(2) [OF ok] by simp
    with False lib_okD(2) [OF ok c] show ?thesis by (auto simp: client_ok_def split: if_splits)
  qed
qed

lemma lib_ok_no_bindy: "lib_ok used X L \<Longrightarrow> \<not> bindy L \<Longrightarrow> bmap L k = None"
  by (cases "bmap L k") (auto simp: entry_ok_def dest: lib_okD(1))

lemma lib_ok_invalid: "lib_ok used X L \<Longrightarrow> bmap L cl_invalid = None"
  by (cases "bmap L cl_invalid") (auto simp: entry_ok_def dest: lib_okD(1))

lemma lib_ok_enter:
  assumes ok: "lib_ok used X L" and p: "p \<in> X" "heap L p = Some c" "conn_id c = cl_invalid" and b: "bindy L"
    and k: "k \<noteq> cl_invalid" "k \<notin> used (net L)" "insert k (used (net L)) \<subseteq> used w"
  shows "lib_ok used X (L\<lparr>bmap := (bmap L)(k \<mapsto> p), heap := (heap L)(p \<mapsto> c\<lparr>conn_id := k\<rparr>), net := w\<rparr>)"
    (is "lib_ok _ _ ?L")
proof (rule lib_okI)
  fix j q
  assume j: "bmap ?L j = Some q"
  show "entry_ok used ?L j q"
  proof (cases "j = k")
    case True
    with j k b show ?thesis by (auto simp: entry_ok_def)
  next
    case False
    with j have "entry_ok used L j q" using lib_okD(1) [OF ok] by simp
    with False p(2,3) k(3) show ?thesis by (auto simp: entry_ok_def split: option.splits)
  qed
next
  fix q d
  assume d: "heap ?L q = Some d"
  show "client_ok X ?L q d"
  proof (cases "q = p")
    case True
    with d lib_okD(2) [OF ok p(2)] k(1) p(1) show ?thesis by (auto simp: client_ok_def)
  next
    case False
    with d have d': "client_ok X L q d" using lib_okD(2) [OF ok] by simp
    moreover have "conn_id d \<noteq> k"
    proof
      assume "conn_id d = k"
      with d' k(1) have "bmap L k = Some q" by (simp add: client_ok_def)
      then have "entry_ok used L k q" by (rule lib_okD(1) [OF ok])
      with k(2) show False by (simp add: entry_ok_def)
    qed
    ultimately show ?thesis by (auto simp: client_ok_def split: if_splits)
  qed
qed

lemma lib_ok_mono:
  assumes "lib_ok used X L" and "X \<subseteq> Y"
  shows "lib_ok used Y L"
proof (rule lib_okI)
  show "entry_ok used L k q" if "bmap L k = Some q" for k q using lib_okD(1) [OF assms(1) that] .
  show "client_ok Y L q c" if "heap L q = Some c" for q c
    using lib_okD(2) [OF assms(1) that] assms(2) by (auto simp: client_ok_def split: if_splits)
qed

lemma lib_ok_touch:
  assumes "lib_ok used X L" and "heap L p = Some c" and "shape c' = shape c" and "used (net L) \<subseteq> used w"
  shows "lib_ok used X (L\<lparr>heap := (heap L)(p \<mapsto> c'), net := w\<rparr>)"
  using assms by (intro lib_ok_same [OF assms(1)]) (auto simp: same_def)

section \<open>Opening\<close>

text \<open>The client that a call works on: with no connection, and with one.\<close>

text \<open>The connections of the other clients.\<close>

definition other_conns :: "ptr \<Rightarrow> (conn_id_t \<Rightarrow> ptr option) \<Rightarrow> conn_id_t \<Rightarrow> ptr option" where
  "other_conns p m k = (if m k = Some p then None else m k)"

lemma other_conns_leave [simp]: "m k = Some p \<Longrightarrow> other_conns p (m(k := None)) = other_conns p m"
  by (auto simp: other_conns_def fun_eq_iff)

lemma other_conns_enter [simp]: "m k = None \<Longrightarrow> other_conns p (m(k \<mapsto> p)) = other_conns p m"
  by (auto simp: other_conns_def fun_eq_iff)

definition parted :: "('w \<Rightarrow> conn_id_t set) \<Rightarrow> (conn_id_t \<Rightarrow> ptr option) \<Rightarrow> ptr \<Rightarrow> 'w lib \<Rightarrow> bool" where
  "parted used B p L \<longleftrightarrow> lib_ok used {p} L \<and> detached p L \<and> other_conns p (bmap L) = B"

definition joined :: "('w \<Rightarrow> conn_id_t set) \<Rightarrow> (conn_id_t \<Rightarrow> ptr option) \<Rightarrow> ptr \<Rightarrow> 'w lib \<Rightarrow> bool" where
  "joined used B p L \<longleftrightarrow>
     lib_ok used {p} L \<and> other_conns p (bmap L) = B \<and>
     (case heap L p of None \<Rightarrow> False | Some c \<Rightarrow> conn_id c \<noteq> cl_invalid)"

definition tried :: "('w \<Rightarrow> conn_id_t set) \<Rightarrow> (conn_id_t \<Rightarrow> ptr option) \<Rightarrow> ptr \<Rightarrow> 'w lib \<Rightarrow> bool" where
  "tried used B p L \<longleftrightarrow>
     joined used B p L \<and>
     (case heap L p of
        None \<Rightarrow> False
      | Some c \<Rightarrow> last_error c = 0 \<longrightarrow> server_protocol_version c \<in> {1, 2, 3})"

definition reaches :: "('w lib \<Rightarrow> bool) \<Rightarrow> 'w lib option \<Rightarrow> bool" where
  "reaches Q m \<longleftrightarrow> (\<exists>L'. m = Some L' \<and> Q L')"

lemma yields_reaches: "reaches Q m \<Longrightarrow> (\<And>L1. Q L1 \<Longrightarrow> yields P (f L1)) \<Longrightarrow> yields P (Option.bind m f)"
  unfolding reaches_def by fastforce

lemma joined_live: "joined used B p L \<Longrightarrow> live L p" "tried used B p L \<Longrightarrow> live L p" "parted used B p L \<Longrightarrow> live L p"
  by (auto simp: joined_def tried_def parted_def detached_def live_def split: option.splits)

lemma joined_kept:
  assumes "joined used B p L" and "kept used {p} L L'"
  shows "joined used B p L'"
proof -
  obtain c where "heap L p = Some c" "conn_id c \<noteq> cl_invalid"
    using assms(1) by (auto simp: joined_def split: option.splits)
  with kept_heap(2) [OF assms(2)] have "\<exists>c'. heap L' p = Some c' \<and> conn_id c' \<noteq> cl_invalid" by metis
  moreover have "other_conns p (bmap L') = other_conns p (bmap L)" using assms(2) by (simp add: other_conns_def fun_eq_iff kept_def)
  ultimately show ?thesis using lib_ok_kept [OF _ assms(2)] assms(1) by (auto simp: joined_def)
qed

lemma tried_settled:
  assumes "tried used B p L" and "get_last_error p L = Some 0"
  shows "lib_ok used {} L"
proof (rule lib_okI)
  have ok: "lib_ok used {p} L" using assms(1) by (simp add: tried_def joined_def)
  show "entry_ok used L k q" if "bmap L k = Some q" for k q using lib_okD(1) [OF ok that] .
  show "client_ok {} L q c" if "heap L q = Some c" for q c
    using lib_okD(2) [OF ok that] that assms
    by (auto simp: client_ok_def tried_def joined_def get_last_error_def split: if_splits)
qed

text \<open>A client without a connection has no entry.\<close>

lemma detached_rest:
  assumes "lib_ok used X L" and "detached p L"
  shows "other_conns p (bmap L) = bmap L"
proof
  fix k
  have "bmap L k \<noteq> Some p"
    using assms(2) by (auto simp: entry_ok_def detached_def dest!: lib_okD(1) [OF assms(1)])
  then show "other_conns p (bmap L) k = bmap L k" by (simp add: other_conns_def)
qed

lemma no_connection_yields:
  assumes "parted used B p L"
  shows "yields (\<lambda>x L'. (\<exists>e. x = No_conn e) \<and> lib_ok used {} L' \<and> bmap L' = B) (no_connection p L)"
proof -
  obtain c where "heap L p = Some c" using assms by (auto simp: parted_def detached_def)
  moreover have "lib_ok used ({p} - {p}) (delete_client p L)"
    using assms by (intro lib_ok_delete) (simp_all add: parted_def)
  moreover have "bmap (delete_client p L) = B"
    using assms detached_rest [of used "{p}" L p] by (simp add: parted_def delete_client_def)
  ultimately show ?thesis by (simp add: no_connection_def get_last_error_def yields_ret)
qed

lemma good_joined: "good used L m \<Longrightarrow> joined used B p L \<Longrightarrow> yields (\<lambda>v. joined used B p) m"
  by (auto simp: good_def yields_def intro: joined_kept same_kept)

lemma clr_errors_joined: "joined used B p L \<Longrightarrow> reaches (joined used B p) (clr_errors p L)"
  using goes_set_error(2) [of L p used L] by (auto simp: reaches_def goes_def joined_live intro: joined_kept same_kept)

lemma decrement_joined:
  assumes "joined used B p L"
  shows "reaches (joined used B p) (decrement_server_protocol_version p L)"
proof -
  obtain c where c: "heap L p = Some c" using assms by (auto simp: joined_def split: option.splits)
  have "kept used {p} L (L\<lparr>heap := (heap L)(p \<mapsto> c\<lparr>server_protocol_version := v\<rparr>)\<rparr>)" for v
    using c by (auto simp: kept_def)
  with c assms show ?thesis
    by (auto simp: decrement_server_protocol_version_def reaches_def intro: joined_kept)
qed

end
