(* ===== verification/Client_Network.thy ===== *)
theory Client_Network
  imports Client_Invariant
begin

text \<open>
  The library's calls over any network that gives each connection a new number and takes connections
  down when asked to (the locale \<open>bindy_network\<close>): each call returns and keeps the invariant, with
  packets of any content arriving at any time.
\<close>

section \<open>What calls do to the map of connections\<close>

text \<open>
  What an open does to the map of connections: nothing, with a code; or the new connection is put
  into it, for a client that is new too.
\<close>

definition opens :: "'w lib \<Rightarrow> u32 \<times> conn_t option \<Rightarrow> 'w lib \<Rightarrow> bool" where
  "opens L r L' \<longleftrightarrow>
     (case r of
        (e, None) \<Rightarrow> e \<noteq> 0 \<and> bmap L' = bmap L
      | (e, Some c) \<Rightarrow> e = 0 \<and> bmap L (ct_conn_id c) = None \<and> bmap L' = (bmap L)(ct_conn_id c \<mapsto> next_ptr L))"

text \<open>The map of connections after a close: the one that was named is out of it.\<close>

definition closes :: "'w lib \<Rightarrow> conn_t option \<Rightarrow> 'w lib \<Rightarrow> bool" where
  "closes L pconn L' \<longleftrightarrow>
     bmap L' = (case pconn of None \<Rightarrow> bmap L | Some conn \<Rightarrow> (bmap L)(ct_conn_id conn := None))"

section \<open>The operations over a network\<close>

locale bindy_network =
  fixes env :: "'w net_env"
    and used :: "'w \<Rightarrow> conn_id_t set"
  assumes connect_new: "net_connect env h a w = (Some k, w') \<Longrightarrow> k \<notin> used w \<and> insert k (used w) \<subseteq> used w'"
    and connect_fails: "net_connect env h a w = (None, w') \<Longrightarrow> used w \<subseteq> used w'"
    and disconnects: "net_disconnect env k w = (done, w') \<Longrightarrow> done \<and> used w \<subseteq> used w'"
    and used_init: "net_init env w = (ok, w') \<Longrightarrow> used w \<subseteq> used w'"
    and used_send: "net_send env k d w = (ok, w') \<Longrightarrow> used w \<subseteq> used w'"
    and used_early: "net_early env w = (es, w') \<Longrightarrow> used w \<subseteq> used w'"
    and used_wait: "net_wait env w = (es, w') \<Longrightarrow> used w \<subseteq> used w'"
begin

lemma same_net: "used (net L1) \<subseteq> used w \<Longrightarrow> same used L L1 \<Longrightarrow> same used L (L1\<lparr>net := w\<rparr>)"
  by (auto simp: same_def)

lemma same_world:
  assumes "same used L L1"
  shows "same used L (L1\<lparr>net := snd (net_early env (net L1))\<rparr>)"
    and "same used L (L1\<lparr>net := snd (net_wait env (net L1))\<rparr>)"
    and "same used L (snd (send_bindy_data env k d L1))"
proof -
  have "used w \<subseteq> used (snd (net_early env w))" "used w \<subseteq> used (snd (net_wait env w))"
    "used w \<subseteq> used (snd (net_send env k d w))" for w
    using used_early [of w] used_wait [of w] used_send [of k d w] by (metis prod.collapse)+
  with assms show "same used L (L1\<lparr>net := snd (net_early env (net L1))\<rparr>)"
    "same used L (L1\<lparr>net := snd (net_wait env (net L1))\<rparr>)" "same used L (snd (send_bindy_data env k d L1))"
    by (simp_all add: same_net send_bindy_data_def case_prod_beta Let_def)
qed

lemma good_send_and_receive:
  assumes "live L p" and "sound L" and "same used L L1"
  shows "good used L (send_and_receive env p req L1)"
  unfolding send_and_receive_def Let_def case_prod_beta
  using assms by (auto simp: shape_def intro!: good_rules same_world)

lemma make_protocol_client: "make_protocol u c = Some (cl, o') \<Longrightarrow> \<not> is_server o'"
  by (auto simp: make_protocol_def create_appropriate_protocol_def Let_def split: if_splits)

lemma good_parse_received:
  assumes "live L p" and "same used L L1" and "\<not> is_server (snd pr)"
  shows "good used L (parse_received u p pr L1)"
proof -
  from assms(3) have total: "get_data_from_bindy_callback (fst pr) ((snd pr)\<lparr>perror := e\<rparr>) m u \<noteq> None" for e m
    by (simp add: client_parser_total)
  show ?thesis
    unfolding parse_received_def
    using assms(1,2) by (auto intro!: good_heap good_goes good_ret goes_set_error good_some [OF total])
qed

lemma good_send_data_and_receive:
  assumes "live L p" and "sound L"
  shows "good used L (send_data_and_receive env u p data n L)"
proof -
  have some: "create_cmd_request cl d t (Some data) n \<noteq> None" for cl d t
    by (cases cl) (simp_all add: Protocol2_create_cmd_request_def Let_def)
  show ?thesis
    unfolding send_data_and_receive_def case_prod_beta
    using assms some
    by (auto intro!: good_rules good_some [OF some] good_send_and_receive good_parse_received
        dest!: make_protocol_client split: option.splits)
qed

lemma good_open_answer:
  assumes "live L p" and "same used L L1" and "\<not> is_server (snd pr)"
  shows "good used L (do {
      (r, L) \<leftarrow> parse_received u p pr L1;
      let (pr', res) = translate_response (fst pr) (cd_proto r) (cd_pckt r) (cd_res r);
      L \<leftarrow> set_error p (perror pr') L;
      Some (res, L)
    })"
  using good_parse_received [OF assms] assms(1)
  by (auto simp: case_prod_beta Let_def intro!: good_rules)

lemma open_device_yields:
  assumes "heap L p = Some c" and "sound L"
  shows "yields (opened used p L) (open_device env u p L)"
proof -
  have live: "live L p" using assms(1) by (simp add: live_def)
  then obtain L1 where L1: "clr_errors p L = Some L1" "same used L L1"
    using goes_set_error(2) [OF live same_refl] by (auto simp: goes_def)
  obtain c1 where c1: "heap L1 p = Some c1" "shape c1 = shape c" using same_heap(3) [OF L1(2) assms(1)] by blast
  show ?thesis
  proof (cases "make_protocol u c1")
    case None
    then show ?thesis
      using c1 live L1 by (simp add: open_device_def yields_fail_with ERR_NO_PROTOCOL_def)
  next
    case (Some pr)
    then have client: "\<not> is_server (snd pr)" using make_protocol_client by (metis prod.collapse)
    have version: "server_protocol_version c \<in> {1, 2, 3}"
      using Some c1(2) by (auto simp: make_protocol_def create_appropriate_protocol_def shape_def Let_def split: if_splits)
    show ?thesis
      using c1 Some
      by (auto simp: open_device_def L1(1) Let_def case_prod_beta open_request_not_empty ERR_DEVICE_OPEN_def
          intro!: yields_ret yields_good [OF good_send_and_receive [OF live assms(2)]]
            yields_good [OF good_parse_received [OF live _ client]] yields_goes [where L = L] yields_other_version [OF assms(1) _ version]
            yields_fail_with [OF live] opened_same [OF _ assms(1) version] goes_set_error [OF live] L1(2))
  qed
qed

lemma lib_ok_instance_bindy:
  assumes ok: "lib_ok used X L" and "instance_bindy env L = (b, L1)"
  shows "lib_ok used X L1 \<and> heap L1 = heap L \<and> bmap L1 = bmap L \<and> (b \<longrightarrow> bindy L1) \<and> (bindy L \<longrightarrow> b \<and> L1 = L) \<and>
    used (net L) \<subseteq> used (net L1)"
proof (cases "bindy L")
  case True
  with assms show ?thesis by (auto simp: instance_bindy_def)
next
  case False
  obtain b' w where init: "net_init env (net L) = (b', w)" by fastforce
  then have "b' = b" "L1 = L\<lparr>bindy := b, net := w\<rparr>" using False assms(2) by (auto simp: instance_bindy_def)
  moreover have "lib_ok used X (L\<lparr>bindy := b, net := w\<rparr>)"
  proof (rule lib_okI)
    show "client_ok X (L\<lparr>bindy := b, net := w\<rparr>) q c" if "heap (L\<lparr>bindy := b, net := w\<rparr>) q = Some c" for q c
      using lib_okD(2) [OF ok, of q c] that by (simp add: client_ok_def split: if_splits)
  qed (use lib_ok_no_bindy [OF ok False] in simp)
  ultimately show ?thesis using False used_init [OF init] by simp
qed

lemma disconnect_ok:
  assumes ok: "lib_ok used X L" and c: "heap L p = Some c"
  shows "\<exists>L'. disconnect env p L = Some L' \<and> lib_ok used (insert p X) L' \<and> detached p L' \<and> other_conns p (bmap L') = other_conns p (bmap L)"
proof -
  obtain b L1 where i: "instance_bindy env L = (b, L1)" by fastforce
  have L1: "lib_ok used X L1" "heap L1 p = Some c" "bindy L \<longrightarrow> b \<and> L1 = L"
    using lib_ok_instance_bindy [OF ok i] c by simp_all
  show ?thesis
  proof (cases "conn_id c = cl_invalid")
    case True
    have "(bmap L1)(conn_id c := None) = bmap L1" using True lib_ok_invalid [OF L1(1)] by (simp add: fun_upd_idem)
    then have "lib_ok used (insert p X) (L1\<lparr>heap := (heap L1)(p \<mapsto> c\<lparr>conn_id := cl_invalid\<rparr>)\<rparr>)"
      using lib_ok_leave [OF L1(1,2) order_refl] by simp
    moreover have "bmap L1 = bmap L" using lib_ok_instance_bindy [OF ok i] by simp
    ultimately show ?thesis using True c i L1(2)
      by (simp add: disconnect_def bh_disconnect_def detached_def)
  next
    case False
    then have own: "bmap L (conn_id c) = Some p" using lib_okD(2) [OF ok c] by (simp add: client_ok_def)
    then have "bindy L" using lib_okD(1) [OF ok] by (auto simp: entry_ok_def)
    then have b: "b" "L1 = L" using L1(3) by simp_all
    obtain fin w where d: "net_disconnect env (conn_id c) (net L) = (fin, w)" by fastforce
    with disconnects have w: fin "used (net L) \<subseteq> used w" by blast+
    have "disconnect env p L = Some
        (L\<lparr>bmap := (bmap L)(conn_id c := None), heap := (heap L)(p \<mapsto> c\<lparr>conn_id := cl_invalid\<rparr>), net := w\<rparr>)"
      using False c i d b w(1) by (cases L) (simp add: disconnect_def bh_disconnect_def)
    with lib_ok_leave [OF ok c w(2)] own show ?thesis by (simp add: detached_def)
  qed
qed

lemma disconnect_joined:
  assumes "lib_ok used {p} L" and "live L p" and "other_conns p (bmap L) = B"
  shows "reaches (parted used B p) (disconnect env p L)"
proof -
  obtain c where "heap L p = Some c" using assms(2) by (auto simp: live_def)
  from disconnect_ok [OF assms(1) this] assms(3) show ?thesis by (auto simp: reaches_def parted_def)
qed

text \<open>A client that got no connection, with the code of the failure.\<close>

definition failed :: "(conn_id_t \<Rightarrow> ptr option) \<Rightarrow> ptr \<Rightarrow> 'w lib \<Rightarrow> bool" where
  "failed B p L \<longleftrightarrow> parted used B p L \<and> get_last_error p L \<noteq> Some 0"

lemma open_connection_yields:
  assumes "parted used B p L"
  shows "yields (\<lambda>ok L'. if ok then joined used B p L' else failed B p L') (open_connection env p L)"
proof -
  obtain c where c: "heap L p = Some c" "conn_id c = cl_invalid" and ok: "lib_ok used {p} L"
    and B: "other_conns p (bmap L) = B" using assms by (auto simp: parted_def detached_def)
  define L1 where "L1 = L\<lparr>heap := (heap L)(p \<mapsto> c\<lparr>last_error := 0\<rparr>)\<rparr>"
  have clr: "clr_errors p L = Some L1" using c by (simp add: clr_errors_def set_error_def L1_def)
  have ok1: "lib_ok used {p} L1"
    using lib_ok_touch [OF ok c(1), of "c\<lparr>last_error := 0\<rparr>" "net L"] by (simp add: L1_def shape_def)
  obtain b L2 where i: "instance_bindy env L1 = (b, L2)" by fastforce
  have L2: "lib_ok used {p} L2" "heap L2 p = Some (c\<lparr>last_error := 0\<rparr>)" "b \<longrightarrow> bindy L2" "other_conns p (bmap L2) = B"
    using lib_ok_instance_bindy [OF ok1 i] B by (simp_all add: L1_def)
  have no_conn: "failed B p (L2\<lparr>heap := (heap L2)(p \<mapsto> c\<lparr>conn_id := cl_invalid, last_error := ERR_NO_CONNECTION\<rparr>), net := w\<rparr>)"
    if "used (net L2) \<subseteq> used w" for w
    using lib_ok_touch [OF L2(1,2), of "c\<lparr>conn_id := cl_invalid, last_error := ERR_NO_CONNECTION\<rparr>" w] that c(2) L2(4)
    by (simp add: failed_def parted_def detached_def shape_def get_last_error_def ERR_NO_CONNECTION_def)
  show ?thesis
  proof (cases b)
    case False
    then show ?thesis
      using no_conn [OF order_refl] clr i L2(2) c
      by (auto simp: open_connection_def bh_connect_def set_error_def client_order intro!: yields_ret)
  next
    case True
    obtain r w where net: "net_connect env (host c) (adapter c) (net L2) = (r, w)" by fastforce
    show ?thesis
    proof (cases "r = None \<or> r = Some cl_invalid")
      case fail: True
      have "used (net L2) \<subseteq> used w" using fail net connect_new connect_fails by blast
      then show ?thesis
        using no_conn True clr i L2(2) c net fail
        by (auto simp: open_connection_def bh_connect_def set_error_def client_order lib_order yields_def)
    next
      case False
      then obtain k where k: "r = Some k" "k \<noteq> cl_invalid" by (cases r) auto
      with net connect_new have new: "k \<notin> used (net L2)" "insert k (used (net L2)) \<subseteq> used w" by blast+
      have none: "bmap L2 k = None" using new(1) by (cases "bmap L2 k") (auto simp: entry_ok_def dest: lib_okD(1) [OF L2(1)])
      have "lib_ok used {p} (L2\<lparr>bmap := (bmap L2)(k \<mapsto> p),
          heap := (heap L2)(p \<mapsto> c\<lparr>last_error := 0, conn_id := k\<rparr>), net := w\<rparr>)"
        using lib_ok_enter [OF L2(1) _ L2(2) _ _ k(2) new] True L2(3) c(2) by (simp add: client_order)
      then show ?thesis
        using True clr i L2(2,4) c net k none
        by (auto simp: open_connection_def bh_connect_def joined_def client_order lib_order intro!: yields_ret)
    qed
  qed
qed

lemma open_device_tried:
  assumes "joined used B p L"
  shows "yields (\<lambda>z L. tried used B p L \<and> joined used B p L) (open_device env u p L)"
proof -
  obtain c where c: "heap L p = Some c" using assms by (auto simp: joined_def split: option.splits)
  have "sound L" using assms by (auto simp: joined_def intro: lib_ok_sound)
  from open_device_yields [OF c this, of u] show ?thesis
    by (rule yields_mono) (use joined_kept [OF assms] in \<open>auto simp: opened_def tried_def\<close>)
qed

text \<open>A round, and the rounds of opening.\<close>

definition round_ok :: "(conn_id_t \<Rightarrow> ptr option) \<Rightarrow> ptr \<Rightarrow> 'r round \<Rightarrow> 'w lib \<Rightarrow> bool" where
  "round_ok B p x L \<longleftrightarrow>
     (case x of
        No_conn e \<Rightarrow> e \<noteq> 0 \<and> lib_ok used {} L \<and> bmap L = B
      | Stop e r \<Rightarrow> lib_ok used {p} L \<and> live L p \<and> other_conns p (bmap L) = B \<and> (e = 0 \<longrightarrow> lib_ok used {} L)
      | Again e r \<Rightarrow> e \<noteq> 0 \<and> parted used B p L)"

lemma stop_ok: "tried used B p L \<Longrightarrow> get_last_error p L = Some e \<Longrightarrow> round_ok B p (Stop e r) L"
  using tried_settled [of used B p L] by (auto simp: round_ok_def joined_live joined_def tried_def)

lemma yields_error:
  assumes "tried used B p L" and "\<And>e. get_last_error p L = Some e \<Longrightarrow> yields P (f e)"
  shows "yields P (Option.bind (get_last_error p L) f)"
  using assms joined_live(2) [OF assms(1)] by (auto simp: live_def get_last_error_def)

lemma disconnect_tried: "joined used B p L \<Longrightarrow> reaches (parted used B p) (disconnect env p L)"
  by (auto simp: joined_def live_def intro: disconnect_joined split: option.splits)

lemma no_connection_ok: "failed B p L \<Longrightarrow> yields (round_ok B p) (no_connection p L)"
  using no_connection_yields [of used B p L] joined_live(3) [of used B p L]
  by (auto simp: round_ok_def failed_def no_connection_def live_def get_last_error_def yields_def)

lemmas round_rules = yields_ret yields_yields [OF open_connection_yields] yields_reaches [OF clr_errors_joined]
  yields_reaches [OF disconnect_tried] yields_reaches [OF decrement_joined] yields_error no_connection_ok stop_ok

lemma open_round_ok:
  assumes "parted used B p L"
  shows "yields (round_ok B p) (open_round env u p L)"
  unfolding open_round_def
  by (auto simp: ERR_RECV_TIMEOUT_def round_ok_def [of B p "Again e r" for e r] split: if_splits
      intro!: assms round_rules yields_yields [OF open_device_tried])

lemma rounds_ok:
  assumes "\<And>L. parted used B p L \<Longrightarrow> yields (round_ok B p) (one L)"
  shows "parted used B p L \<Longrightarrow> n = 0 \<longrightarrow> e \<noteq> 0 \<Longrightarrow>
    yields (\<lambda>x L'. round_ok B p x L' \<and> (\<forall>e r. x \<noteq> Again e r)) (rounds n one (e, r) L)"
proof (induction n arbitrary: e r L)
  case 0
  then show ?case by (auto simp: round_ok_def parted_def joined_live detached_def live_def intro!: yields_ret)
next
  case (Suc n)
  show ?case
    unfolding rounds.simps
  proof (rule yields_yields [OF assms [OF Suc.prems(1)]], goal_cases)
    case (1 x L1)
    then show ?case
      by (cases x) (auto intro!: yields_ret Suc.IH simp: round_ok_def [of B p "Again e r" for e r])
  qed
qed

section \<open>The calls\<close>

lemma new_client_shape:
  assumes "new_client u junk uri adapt L = Some (p, L')"
  shows "\<exists>c. L' = L\<lparr>heap := (heap L)(p \<mapsto> c), next_ptr := p + 1\<rparr> \<and> p = next_ptr L \<and> conn_id c = cl_invalid"
proof (cases adapt)
  case None
  obtain code parsed where "xibridge_parse_uri_dev12 uri True = (code, parsed)" by fastforce
  with None assms show ?thesis by (auto simp: new_client_def Let_def split: if_splits)
next
  case (Some a)
  with assms show ?thesis by (auto simp: new_client_def Let_def split: if_splits)
qed

lemma new_client_device_defined: "\<exists>p L'. new_client u junk uri None L = Some (p, L')"
proof -
  obtain code parsed where "xibridge_parse_uri_dev12 uri True = (code, parsed)" by fastforce
  then show ?thesis by (simp add: new_client_def Let_def)
qed

lemma new_client_parted:
  assumes "lib_ok used {} L" and "new_client u junk uri adapt L = Some (p, L')"
  shows "parted used (bmap L) p L'"
proof -
  obtain c where c: "L' = L\<lparr>heap := (heap L)(p \<mapsto> c), next_ptr := p + 1\<rparr>" "p = next_ptr L" "conn_id c = cl_invalid"
    using new_client_shape [OF assms(2)] by blast
  have "lib_ok used {p} L'"
  proof (rule lib_okI)
    fix k q
    assume "bmap L' k = Some q"
    then have e: "entry_ok used L k q" using lib_okD(1) [OF assms(1)] c(1) by simp
    then obtain d where d: "heap L q = Some d" by (auto simp: entry_ok_def split: option.splits)
    then have "q \<noteq> p" using lib_okD(2) [OF assms(1) d] c(2) by (auto simp: client_ok_def)
    with e show "entry_ok used L' k q" by (simp add: entry_ok_def c(1))
  next
    fix q d
    assume d: "heap L' q = Some d"
    show "client_ok {p} L' q d"
    proof (cases "q = p")
      case True
      with d c show ?thesis by (simp add: client_ok_def)
    next
      case False
      with d lib_okD(2) [OF assms(1)] have "client_ok {} L q d" by (simp add: c(1))
      with c(2) show ?thesis by (auto simp: client_ok_def c(1) split: if_splits)
    qed
  qed
  moreover have "bmap L k \<noteq> Some p" for k
  proof
    assume "bmap L k = Some p"
    then obtain d where "heap L p = Some d"
      by (auto simp: entry_ok_def dest!: lib_okD(1) [OF assms(1)] split: option.splits)
    then have "p < next_ptr L" using lib_okD(2) [OF assms(1)] by (simp add: client_ok_def)
    with c(2) show False by simp
  qed
  then have "other_conns p (bmap L) = bmap L" by (simp add: other_conns_def fun_eq_iff)
  ultimately show ?thesis using c by (simp add: parted_def detached_def)
qed

lemma delete_parted:
  assumes "parted used B p L"
  shows "lib_ok used {} (delete_client p L) \<and> bmap (delete_client p L) = B"
  using assms lib_ok_delete [of used "{p}" L p] detached_rest [of used "{p}" L p]
  by (simp add: parted_def) (simp add: delete_client_def)

lemma settled_entry:
  assumes "lib_ok used {} L" and "heap L p = Some c" and "other_conns p (bmap L) = B"
  shows "B (conn_id c) = None \<and> bmap L = B(conn_id c \<mapsto> p)"
proof -
  have own: "bmap L (conn_id c) = Some p" using lib_okD(2) [OF assms(1,2)] by (simp add: client_ok_def split: if_splits)
  have only: "k = conn_id c" if "bmap L k = Some p" for k
    using lib_okD(1) [OF assms(1) that] assms(2) by (simp add: entry_ok_def)
  have "bmap L k = (B(conn_id c \<mapsto> p)) k" for k
    using own only [of k] unfolding assms(3) [symmetric] by (cases "k = conn_id c") (auto simp: other_conns_def)
  moreover have "B (conn_id c) = None" using own unfolding assms(3) [symmetric] by (simp add: other_conns_def)
  ultimately show ?thesis by (simp add: fun_eq_iff)
qed

lemma open_call_ok:
  assumes "lib_ok used {} L"
  shows "yields (\<lambda>r L'. lib_ok used {} L' \<and> opens L r L') (xibridge_open_device_connection env u junk uri has_out L)"
proof (cases has_out)
  case False
  with assms show ?thesis
    by (simp add: xibridge_open_device_connection_def opens_def ERR_NULLPTR_PARAM_def yields_ret)
next
  case True
  obtain p L1 where new: "new_client u junk uri None L = Some (p, L1)"
    using new_client_device_defined by blast
  have parted: "parted used (bmap L) p L1" by (rule new_client_parted [OF assms new])
  have p: "p = next_ptr L" using new_client_shape [OF new] by blast
  have three: "unat (major xbc_get_last_protocol_version) = 0 \<longrightarrow> u \<noteq> 0"
    by (simp add: xbc_get_last_protocol_version_def DEFAULT_PROTO_VERSION_def)
  have rounds: "yields (\<lambda>x L'. round_ok (bmap L) p x L' \<and> (\<forall>e r. x \<noteq> Again e r))
      (rounds (unat (major xbc_get_last_protocol_version)) (open_round env u p) (u, ()) L1)"
    by (rule rounds_ok [OF _ parted three]) (rule open_round_ok)
  show ?thesis
    unfolding xibridge_open_device_connection_def
  proof (simp only: True new if_False not_True_eq_False bind.bind_lunit prod.case,
      rule yields_yields [OF rounds], goal_cases)
    case (1 x L2)
    show ?case
    proof (cases x)
      case (Stop e r)
      then have stop: "lib_ok used {p} L2" "live L2 p" "e = 0 \<longrightarrow> lib_ok used {} L2" "other_conns p (bmap L2) = bmap L"
        using 1 by (simp_all add: round_ok_def)
      then obtain c where c: "heap L2 p = Some c" by (auto simp: live_def)
      show ?thesis
      proof (cases "e = 0")
        case True
        with Stop stop c p settled_entry [of L2 p c "bmap L"] show ?thesis
          by (auto simp: opens_def to_xibridge_conn_t_def intro!: yields_ret)
      next
        case False
        with Stop show ?thesis
          by (auto simp: opens_def intro!: yields_ret yields_reaches [OF disconnect_joined [OF stop(1,2,4)]] dest!: delete_parted)
      qed
    qed (use 1 in \<open>auto simp: round_ok_def opens_def intro!: yields_ret\<close>)
  qed
qed

lemma version_request_joined:
  assumes "joined used B p L"
  shows "yields (\<lambda>v. joined used B p) (exec_version_request env u p has_out L)"
  unfolding exec_version_request_def
proof (rule yields_reaches [OF clr_errors_joined [OF assms]], goal_cases)
  case (1 L1)
  then obtain c where c: "heap L1 p = Some c" by (auto simp: joined_def split: option.splits)
  have live: "live L1 p" using 1 by (simp add: joined_live)
  let ?c = "c\<lparr>server_protocol_version := ucast (major xbc_get_last_protocol_version)\<rparr>"
  define L2 where "L2 = L1\<lparr>heap := (heap L1)(p \<mapsto> ?c)\<rparr>"
  have upd: "upd p (\<lambda>c. c\<lparr>server_protocol_version := ucast (major xbc_get_last_protocol_version)\<rparr>) L1 = Some L2"
    using c by (simp add: L2_def)
  have "kept used {p} L1 L2" using c by (auto simp: kept_def L2_def)
  then have L2: "joined used B p L2" by (rule joined_kept [OF 1])
  have live2: "live L2 p" "sound L2" "heap L2 p = Some ?c" using L2 by (auto simp: joined_live joined_def L2_def intro: lib_ok_sound)
  have early: "yields (\<lambda>v. joined used B p) (fail_with p e r L1)" for e and r :: "version option"
    using good_fail_with [OF live same_refl, of used e r] 1 by (rule good_joined)
  show ?case
    unfolding upd
    using early live2(3)
    by (auto simp: Let_def case_prod_beta intro!: good_joined [OF _ L2] good_ret good_bind good_fail_with [OF live2(1)]
        good_send_and_receive [OF live2(1,2)] good_parse_received [OF live2(1)] dest!: make_protocol_client split: option.splits)
qed

lemma version_call_ok:
  assumes "lib_ok used {} L" and "length addr \<le> XI_URI_HOST_LEN"
  shows "yields (\<lambda>r L'. lib_ok used {} L' \<and> bmap L' = bmap L) (xibridge_get_server_last_protocol_version env u junk addr has_out L)"
proof (cases has_out)
  case False
  with assms show ?thesis by (simp add: xibridge_get_server_last_protocol_version_def yields_ret)
next
  case True
  obtain p L1 where new: "new_client u junk addr (Some []) L = Some (p, L1)"
    using assms(2) by (simp add: new_client_def Let_def)
  define B where "B = bmap L"
  have parted: "parted used B p L1" unfolding B_def by (rule new_client_parted [OF assms(1) new])
  have err: "\<exists>e. get_last_error p L' = Some e" if "parted used B p L' \<or> joined used B p L'" for L'
    using joined_live(1,3) [of used B p L'] that by (auto simp: live_def get_last_error_def)
  show ?thesis
    unfolding xibridge_get_server_last_protocol_version_def
  proof (simp only: True new if_False not_True_eq_False bind.bind_lunit prod.case,
      rule yields_yields [OF open_connection_yields [OF parted]], goal_cases)
    case (1 ok L2)
    show ?case
    proof (cases ok)
      case False
      with 1 have gone: "parted used B p L2" by (simp add: failed_def)
      with False err [of L2] show ?thesis by (auto simp: B_def intro!: yields_ret dest!: delete_parted)
    next
      case ok: True
      with 1 have joined: "joined used B p L2" by simp
      show ?thesis
      proof (simp only: ok if_False not_True_eq_False prod.case, rule yields_yields [OF version_request_joined [OF joined]], goal_cases)
        case (1 v L3)
        with err [of L3] show ?case
          by (auto simp: B_def intro!: yields_ret yields_reaches [OF disconnect_tried] dest!: delete_parted)
      qed
    qed
  qed
qed

text \<open>Calls that leave connections as they are.\<close>

lemma good_ok: "good used L m \<Longrightarrow> lib_ok used X L \<Longrightarrow> yields (\<lambda>r L'. lib_ok used X L' \<and> bmap L' = bmap L) m"
  using lib_ok_same [of used X L] by (fastforce simp: good_def yields_def same_def)

lemma known_client:
  assumes "lib_ok used {} L" and "get_client_as_free k L = Some p"
  obtains c where "heap L p = Some c" and "conn_id c = k" and "k \<noteq> cl_invalid"
    and "server_protocol_version c \<in> {1, 2, 3}" and "live L p" and "sound L"
proof -
  have "entry_ok used L k p" using lib_okD(1) [OF assms(1)] assms(2) by (simp add: get_client_as_free_def)
  then obtain c where c: "heap L p = Some c" "conn_id c = k" "k \<noteq> cl_invalid" by (auto simp: entry_ok_def split: option.splits)
  have "client_ok {} L p c" by (rule lib_okD(2) [OF assms(1) c(1)])
  with c assms(1) that show ?thesis by (auto simp: client_ok_def live_def intro: lib_ok_sound)
qed

lemma request_call_ok:
  assumes "lib_ok used {} L"
  shows "yields (\<lambda>r L'. lib_ok used {} L' \<and> bmap L' = bmap L) (xibridge_device_request_response env u pconn req has_resp n L)"
proof (cases pconn)
  case None
  with assms show ?thesis by (simp add: xibridge_device_request_response_def xbc_request_response_def yields_ret)
next
  case (Some conn)
  show ?thesis
  proof (cases "get_client_as_free (ct_conn_id conn) L")
    case None
    with Some assms show ?thesis by (simp add: xibridge_device_request_response_def xbc_request_response_def yields_ret)
  next
    case p: (Some p)
    then obtain c where "live L p" "sound L" using known_client [OF assms p] by metis
    with Some p show ?thesis
      by (auto simp: xibridge_device_request_response_def xbc_request_response_def
          intro!: good_ok [OF _ assms] good_bind good_send_data_and_receive good_last_error good_ret)
  qed
qed

lemma write_call_ok:
  assumes "lib_ok used {} L"
  shows "yields (\<lambda>r L'. lib_ok used {} L' \<and> bmap L' = bmap L) (xbc_write_connection env pconn buf L)"
proof (cases pconn)
  case None
  with assms show ?thesis by (simp add: xbc_write_connection_def yields_ret)
next
  case (Some conn)
  show ?thesis
  proof (cases "get_client_as_free (ct_conn_id conn) L")
    case None
    with Some assms show ?thesis by (simp add: xbc_write_connection_def yields_ret)
  next
    case p: (Some p)
    then obtain c where "live L p" using known_client [OF assms p] by metis
    with Some p show ?thesis
      by (auto simp: xbc_write_connection_def Let_def
          intro!: good_ok [OF _ assms] good_goes goes_set_error good_last_error good_ret same_world)
  qed
qed

lemma read_call_ok:
  assumes "lib_ok used {} L"
  shows "yields (\<lambda>r L'. lib_ok used {} L' \<and> bmap L' = bmap L) (xbc_read_connection_buffer pconn sz L)"
proof (cases pconn)
  case None
  with assms show ?thesis by (simp add: xbc_read_connection_buffer_def yields_ret)
next
  case (Some conn)
  show ?thesis
  proof (cases "get_client_as_free (ct_conn_id conn) L")
    case None
    with Some assms show ?thesis by (simp add: xbc_read_connection_buffer_def yields_ret)
  next
    case p: (Some p)
    then obtain c where "live L p" using known_client [OF assms p] by metis
    with Some p show ?thesis
      by (auto simp: xbc_read_connection_buffer_def Let_def shape_def simp del: upd_simps
          intro!: good_ok [OF _ assms] good_goes goes_set_error goes_upd good_heap good_last_error good_ret)
  qed
qed

text \<open>The close: its client has a version with a close request, so it does come to the disconnection.\<close>

lemma close_device_parted:
  assumes "lib_ok used {} L" and c: "heap L p = Some c" "conn_id c \<noteq> cl_invalid" "bmap L (conn_id c) = Some p"
    and "server_protocol_version c \<in> {1, 2, 3}"
  shows "yields (\<lambda>r. parted used (other_conns p (bmap L)) p) (close_connection_device env u p L)"
proof -
  have live: "live L p" "sound L" using c assms(1) by (auto simp: live_def intro: lib_ok_sound)
  obtain L1 where L1: "clr_errors p L = Some L1" "same used L L1"
    using goes_set_error(2) [OF live(1) same_refl] by (auto simp: goes_def)
  then have c1: "heap L1 p = Some (c\<lparr>last_error := 0\<rparr>)" "bmap L1 = bmap L"
    using c by (auto simp: clr_errors_def set_error_def)
  define cl where "cl = class_of (server_protocol_version c)"
  have proto: "make_protocol u (c\<lparr>last_error := 0\<rparr>) = Some (cl, \<lparr>is_server = False, res_err = u, perror = 0\<rparr>)"
    using make_protocol_class [of "c\<lparr>last_error := 0\<rparr>" u] assms(5) by (simp add: cl_def)
  have req: "create_close_request cl d t \<noteq> []" for d t
    by (cases cl) (auto simp: packet_defs head12_def head3_def be32_def)
  have finish: "yields (\<lambda>r. parted used (other_conns p (bmap L)) p) (do { L \<leftarrow> disconnect env p L2; Some (ret, L) })"
    if "same used L L2" for L2 ret
  proof -
    have "lib_ok used {p} L" using lib_ok_mono [OF assms(1)] by simp
    then have "lib_ok used {p} L2" "live L2 p" using that lib_ok_same live_same [OF live(1) that] by (auto simp: live_def)
    moreover have "other_conns p (bmap L2) = other_conns p (bmap L)" using that by (simp add: same_def)
    ultimately show ?thesis by (auto intro!: yields_ret yields_reaches [OF disconnect_joined])
  qed
  obtain got L2 where sr: "send_and_receive env p (create_close_request cl (client_dev_id c) 3000) L1 = Some (got, L2)"
    "same used L L2" using good_send_and_receive [OF live L1(2)] unfolding good_def by blast
  note start = c1 c proto req L1(1) close_connection_device_def is_connected_def bh_is_connected_def sr(1)
  show ?thesis
  proof (cases got)
    case False
    then show ?thesis using finish [OF sr(2)] by (simp add: start)
  next
    case True
    obtain r L3 where r: "parse_received u p (cl, \<lparr>is_server = False, res_err = u, perror = 0\<rparr>) L2 = Some (r, L3)"
      "same used L L3" using good_parse_received [OF live(1) sr(2), of "(cl, \<lparr>is_server = False, res_err = u, perror = 0\<rparr>)" u]
      by (auto simp: good_def)
    obtain pr res where t: "translate_response cl (cd_proto r) (cd_pckt r) (cd_res r) = (pr, res)" by fastforce
    obtain L4 where "set_error p (perror pr) L3 = Some L4" "same used L L4"
      using goes_set_error(1) [OF live(1) r(2)] by (auto simp: goes_def)
    with True finish r(1) t show ?thesis by (simp add: start)
  qed
qed

lemma close_call_ok:
  assumes "lib_ok used {} L"
  shows "yields (\<lambda>r L'. lib_ok used {} L' \<and> closes L pconn L') (xibridge_close_device_connection env u pconn L)"
proof (cases pconn)
  case None
  with assms show ?thesis
    by (simp add: xibridge_close_device_connection_def xbc_close_connection_device_def closes_def yields_ret)
next
  case (Some conn)
  show ?thesis
  proof (cases "get_client_as_free (ct_conn_id conn) L")
    case None
    then have "(bmap L)(ct_conn_id conn := None) = bmap L" by (simp add: get_client_as_free_def fun_upd_idem)
    with None Some assms show ?thesis
      by (simp add: xibridge_close_device_connection_def xbc_close_connection_device_def closes_def yields_ret)
  next
    case p: (Some p)
    then obtain c where c: "heap L p = Some c" "conn_id c = ct_conn_id conn" "ct_conn_id conn \<noteq> cl_invalid"
      "server_protocol_version c \<in> {1, 2, 3}" using known_client [OF assms p] by metis
    have "other_conns p (bmap L) = (bmap L)(ct_conn_id conn := None)"
      using settled_entry [OF assms c(1) refl] c(2) by (simp add: fun_eq_iff)
    moreover have "yields (\<lambda>r. parted used (other_conns p (bmap L)) p) (close_connection_device env u p L)"
      using p c close_device_parted [OF assms, of p c u] by (simp add: get_client_as_free_def)
    ultimately show ?thesis using Some p
      by (auto simp: xibridge_close_device_connection_def xbc_close_connection_device_def closes_def
          intro!: yields_yields [of "\<lambda>r. parted used (other_conns p (bmap L)) p"] yields_ret dest!: delete_parted)
  qed
qed

end

section \<open>Runs\<close>

text \<open>
  A call of the interface by the program, or a packet that bindy's thread delivers between calls.
  The enumeration is not among them: it can fail to allocate its buffer.
\<close>

datatype api_call =
    Open_device devid string bool
  | Request_response "conn_t option" bvector bool u32
  | Close_device "conn_t option"
  | Read_buffer "conn_t option" u32
  | Write_connection "conn_t option" bvector
  | Last_version devid string bool
  | Set_version version
  | Arrived conn_id_t bvector

fun api_step :: "'w net_env \<Rightarrow> u32 \<Rightarrow> api_call \<Rightarrow> 'w lib \<Rightarrow> 'w lib option" where
  "api_step env u (Open_device junk uri out) L =
     map_option snd (xibridge_open_device_connection env u junk uri out L)"
| "api_step env u (Request_response conn req has_resp n) L =
     map_option snd (xibridge_device_request_response env u conn req has_resp n L)"
| "api_step env u (Close_device conn) L = map_option snd (xibridge_close_device_connection env u conn L)"
| "api_step env u (Read_buffer conn n) L = map_option snd (xbc_read_connection_buffer conn n L)"
| "api_step env u (Write_connection conn data) L = map_option snd (xbc_write_connection env conn data L)"
| "api_step env u (Last_version junk addr out) L =
     map_option snd (xibridge_get_server_last_protocol_version env u junk addr out L)"
| "api_step env u (Set_version v) L = Some (snd (xibridge_set_base_protocol_version v L))"
| "api_step env u (Arrived k data) L = callback_data_bindy k data L"

fun api_run :: "'w net_env \<Rightarrow> u32 \<Rightarrow> api_call list \<Rightarrow> 'w lib \<Rightarrow> 'w lib option" where
  "api_run env u [] L = Some L"
| "api_run env u (c # cs) L = Option.bind (api_step env u c L) (api_run env u cs)"

text \<open>Addresses fit their arrays.\<close>

fun fits :: "api_call \<Rightarrow> bool" where
  "fits (Last_version junk addr out) \<longleftrightarrow> length addr \<le> XI_URI_HOST_LEN"
| "fits _ \<longleftrightarrow> True"

lemma reaches_yields: "yields (\<lambda>r. Q) m \<Longrightarrow> reaches Q (map_option snd m)"
  by (auto simp: yields_def reaches_def)

context bindy_network
begin

lemma api_step_ok:
  assumes "lib_ok used {} L" and "fits c"
  shows "reaches (lib_ok used {}) (api_step env u c L)"
proof (cases c)
  case (Set_version v)
  have "lib_ok used {} (L\<lparr>base_version := b\<rparr>)" for b
    using lib_ok_same [OF assms(1)] by (simp add: same_def)
  with Set_version assms(1) show ?thesis
    by (auto simp: xibridge_set_base_protocol_version_def xbc_set_base_protocol_version_def reaches_def)
next
  case (Arrived k data)
  have "goes used L (callback_data_bindy k data L)" using lib_ok_sound [OF assms(1)] by (simp add: goes_callback)
  with Arrived assms(1) show ?thesis
    by (auto simp: goes_def reaches_def intro: lib_ok_same)
qed (use assms in \<open>auto intro!: reaches_yields yields_mono [OF open_call_ok] yields_mono [OF request_call_ok]
    yields_mono [OF close_call_ok] yields_mono [OF read_call_ok] yields_mono [OF write_call_ok] yields_mono [OF version_call_ok]\<close>)

lemma api_run_ok:
  "lib_ok used {} L \<Longrightarrow> \<forall>c\<in>set cs. fits c \<Longrightarrow> reaches (lib_ok used {}) (api_run env u cs L)"
proof (induction cs arbitrary: L)
  case (Cons c cs)
  then obtain L1 where "api_step env u c L = Some L1" "lib_ok used {} L1"
    using api_step_ok [of L c u] by (auto simp: reaches_def)
  with Cons show ?case by simp
qed (simp add: reaches_def)

end

end
