(* ===== verification/Serial.thy ===== *)
theory Serial
  imports Xib_Com "HOL-Library.Monad_Syntax"
begin

text \<open>
  The exchange with a device on a serial port: \<open>server/xib-serial/devserial.c\<close>, \<open>xib_com.c\<close> and
  the clock of \<open>platform-posix.c\<close>. libserialport and the system's clock are the parameter \<open>sp_lib\<close>
  over a state of the world. A buffer that the code hands down is a list of its bytes and comes back
  with what was stored in it. \<open>None\<close> is a loop that does not end, or an undefined operation (an
  \<open>int\<close> that overflows, a read past the end of a buffer).
\<close>

section \<open>Ports and clock\<close>

text \<open>
  A count of bytes or a negative error from reading and writing; reading stores bytes from the
  start of the buffer. \<open>gettimeofday\<close> gives seconds and microseconds.
\<close>

record 'w sp_lib =
  sp_get_port_by_name :: "string \<Rightarrow> 'w \<Rightarrow> int \<times> handle \<times> 'w"
  sp_open :: "handle \<Rightarrow> 'w \<Rightarrow> int \<times> 'w"
  sp_close :: "handle \<Rightarrow> 'w \<Rightarrow> int \<times> 'w"
  sp_free_port :: "handle \<Rightarrow> 'w \<Rightarrow> 'w"
  sp_blocking_write :: "handle \<Rightarrow> bvector \<Rightarrow> nat \<Rightarrow> 'w \<Rightarrow> int \<times> 'w"
  sp_blocking_read :: "handle \<Rightarrow> nat \<Rightarrow> nat \<Rightarrow> 'w \<Rightarrow> int \<times> bvector \<times> 'w"
  sp_flush :: "handle \<Rightarrow> nat \<Rightarrow> 'w \<Rightarrow> int \<times> 'w"
  gettimeofday :: "'w \<Rightarrow> (int \<times> int) \<times> 'w"
  sleep_ms :: "nat \<Rightarrow> 'w \<Rightarrow> 'w"

text \<open>\<open>enum sp_return\<close> and \<open>enum sp_buffer\<close> of libserialport, as far as the code names them.\<close>

definition SP_OK :: int where "SP_OK = 0"
definition SP_ERR_FAIL :: int where "SP_ERR_FAIL = -2"
definition SP_BUF_INPUT :: nat where "SP_BUF_INPUT = 1"
definition SP_BUF_OUTPUT :: nat where "SP_BUF_OUTPUT = 2"
definition SP_BUF_BOTH :: nat where "SP_BUF_BOTH = 3"

text \<open>The constants of \<open>devserial.c\<close> and \<open>platform.h\<close>.\<close>

definition PORT_TIMEOUT :: nat where "PORT_TIMEOUT = 500"
definition URPC_ZEROSYNC_TRIGGER_TIMEOUT :: int where "URPC_ZEROSYNC_TRIGGER_TIMEOUT = 10000"
definition URPC_ZEROSYNC_RETRY_COUNT :: nat where "URPC_ZEROSYNC_RETRY_COUNT = 4"
definition URPC_ZEROSYNC_RETRY_DELAY :: nat where "URPC_ZEROSYNC_RETRY_DELAY = 200"
definition URPC_ZEROSYNC_BURST_SIZE :: nat where "URPC_ZEROSYNC_BURST_SIZE = 64"

definition command_port_send :: "'w sp_lib \<Rightarrow> handle \<Rightarrow> bvector \<Rightarrow> 'w \<Rightarrow> int \<times> 'w" where
  "command_port_send lib port command w =
     (let (result, w) = sp_blocking_write lib port command PORT_TIMEOUT w in
      if result < 0 then
        if result = SP_ERR_FAIL then (xib_result_nodevice, w)
        else let (r, w) = sp_flush lib port SP_BUF_OUTPUT w
             in (if r \<noteq> SP_OK then xib_result_nodevice else xib_result_timeout, w)
      else (xib_result_ok, w))"

text \<open>Any count that is not negative is a success, also one below the length asked for.\<close>

definition command_port_receive ::
    "'w sp_lib \<Rightarrow> handle \<Rightarrow> bvector \<Rightarrow> 'w \<Rightarrow> int \<times> bvector \<times> 'w" where
  "command_port_receive lib port response w =
     (let (result, bs, w) = sp_blocking_read lib port (length response) PORT_TIMEOUT w;
          response = overwrite 0 bs response in
      if result < 0 then
        if result = SP_ERR_FAIL then (xib_result_nodevice, response, w)
        else let (r, w) = sp_flush lib port SP_BUF_INPUT w
             in (if r \<noteq> SP_OK then xib_result_nodevice else xib_result_timeout, response, w)
      else (xib_result_ok, response, w))"

definition urpc_get_wallclock :: "'w sp_lib \<Rightarrow> 'w \<Rightarrow> (int \<times> int) \<times> 'w" where
  "urpc_get_wallclock lib w =
     (case gettimeofday lib w of ((sec, usec), w) \<Rightarrow> ((sec, usec div 1000), w))"

text \<open>A result of \<open>int\<close> arithmetic; one out of range is undefined.\<close>

definition int_result :: "int \<Rightarrow> int option" where
  "int_result x = (if - (2 ^ 31) \<le> x \<and> x < 2 ^ 31 then Some x else None)"

definition wallclock_diff :: "int \<times> int \<Rightarrow> int \<times> int \<Rightarrow> int option" where
  "wallclock_diff beg end =
     (case beg of (sec_beg, msec_beg) \<Rightarrow> case end of (sec_end, msec_end) \<Rightarrow> do {
        let delta = (if sec_end > sec_beg then c_int (sec_end - sec_beg) else 0);
        delta \<leftarrow> int_result (delta * 1000);
        diff \<leftarrow> int_result (msec_end - msec_beg);
        delta \<leftarrow> int_result (delta + diff);
        Some (if delta < 0 then 0 else delta)
      })"

section \<open>The check sum\<close>

definition crc_bit :: "u16 \<Rightarrow> u16" where
  "crc_bit crc =
     (let a = crc; carry_flag = a AND 1; crc = drop_bit 1 crc
      in if carry_flag = 1 then crc XOR 0xA001 else crc)"

definition crc_byte :: "u16 \<Rightarrow> u8 \<Rightarrow> u16" where
  "crc_byte crc b = (crc_bit ^^ 8) (crc XOR ucast b)"

definition get_crc :: "bvector \<Rightarrow> nat \<Rightarrow> u16 option" where
  "get_crc pbuf n = (if n \<le> length pbuf then Some (foldl crc_byte 0xFFFF (take n pbuf)) else None)"

text \<open>The bytes of a 16-bit number in memory, on the little-endian targets.\<close>

definition mem16 :: "u16 \<Rightarrow> bvector" where
  "mem16 x = [ucast x, ucast (drop_bit 8 x)]"

section \<open>Synchronisation with zeroes\<close>

text \<open>The loop with \<open>received\<close> attempts left; \<open>zeroes\<close> is the buffer it reads into.\<close>

fun zeroes_loop :: "'w sp_lib \<Rightarrow> handle \<Rightarrow> nat \<Rightarrow> bvector \<Rightarrow> 'w \<Rightarrow> int \<times> 'w" where
  "zeroes_loop lib port 0 zeroes w = (1, w)"
| "zeroes_loop lib port (Suc received) zeroes w =
     (let (result, b, w) = command_port_receive lib port (take 1 zeroes) w;
          zeroes = b @ drop 1 zeroes in
      if result \<noteq> xib_result_ok then (1, w)
      else if hd zeroes = 0 then (0, w)
      else zeroes_loop lib port received zeroes w)"

definition send_synchronization_zeroes :: "'w sp_lib \<Rightarrow> handle \<Rightarrow> 'w \<Rightarrow> int \<times> 'w" where
  "send_synchronization_zeroes lib port w =
     (let received = URPC_ZEROSYNC_BURST_SIZE;
          zeroes = replicate URPC_ZEROSYNC_BURST_SIZE 0;
          (result, w) = command_port_send lib port zeroes w in
      if result \<noteq> xib_result_ok then (1, w) else zeroes_loop lib port received zeroes w)"

fun zerosync_loop :: "'w sp_lib \<Rightarrow> handle \<Rightarrow> nat \<Rightarrow> 'w \<Rightarrow> int \<times> 'w" where
  "zerosync_loop lib port 0 w = (1, w)"
| "zerosync_loop lib port (Suc retry_counter) w =
     (let (r, w) = send_synchronization_zeroes lib port w
      in if r = 0 then (0, w) else zerosync_loop lib port retry_counter w)"

definition zerosync :: "'w sp_lib \<Rightarrow> handle \<Rightarrow> 'w \<Rightarrow> int \<times> 'w" where
  "zerosync lib port w = zerosync_loop lib port URPC_ZEROSYNC_RETRY_COUNT w"

section \<open>Receiving\<close>

text \<open>
  The loop: a result other than a time-out (\<open>Inl\<close>), or the end of the time (\<open>Inr\<close>); \<open>prev\<close> is set
  to the beginning in each round. The loop may not end.
\<close>

partial_function (option) receive_loop ::
    "'w sp_lib \<Rightarrow> handle \<Rightarrow> int \<times> int \<Rightarrow> int \<times> int \<Rightarrow> bvector \<Rightarrow> 'w \<Rightarrow>
     ((int \<times> bvector \<times> 'w) + (bvector \<times> 'w)) option" where
  "receive_loop lib port beg prev response w =
     (case command_port_receive lib port response w of (result, response, w) \<Rightarrow>
      case urpc_get_wallclock lib w of (cur, w) \<Rightarrow>
      if result \<noteq> xib_result_timeout then Some (Inl (result, response, w))
      else do {
        diff \<leftarrow> wallclock_diff prev cur;
        let w = (if diff < int URPC_ZEROSYNC_RETRY_DELAY then sleep_ms lib URPC_ZEROSYNC_RETRY_DELAY w else w);
        delta_time \<leftarrow> wallclock_diff beg cur;
        if delta_time < URPC_ZEROSYNC_TRIGGER_TIMEOUT then receive_loop lib port beg beg response w
        else Some (Inr (response, w))
      })"

definition receive :: "'w sp_lib \<Rightarrow> handle \<Rightarrow> bvector \<Rightarrow> 'w \<Rightarrow> (int \<times> bvector \<times> 'w) option" where
  "receive lib port response w =
     (case urpc_get_wallclock lib w of (beg, w) \<Rightarrow> do {
        r \<leftarrow> receive_loop lib port beg beg response w;
        case r of
          Inl out \<Rightarrow> Some out
        | Inr (response, w) \<Rightarrow>
            (case zerosync lib port w of (result, w) \<Rightarrow>
               Some (if result \<noteq> 0 then xib_result_nodevice else result, response, w))
      })"

section \<open>Devices\<close>

definition device_serial_create :: "'w sp_lib \<Rightarrow> string \<Rightarrow> 'w \<Rightarrow> handle option \<times> 'w" where
  "device_serial_create lib path w =
     (case sp_get_port_by_name lib path w of (result, psp, w) \<Rightarrow>
      if result \<noteq> SP_OK then (None, w)
      else case sp_open lib psp w of (result, w) \<Rightarrow>
        if result \<noteq> SP_OK then (None, sp_free_port lib psp w) else (Some psp, w))"

definition device_serial_send_request_base ::
    "'w sp_lib \<Rightarrow> handle \<Rightarrow> bvector \<Rightarrow> bvector \<Rightarrow> 'w \<Rightarrow> (int \<times> bvector \<times> 'w) option" where
  "device_serial_send_request_base lib device request response w =
     (case (if length request \<noteq> 0 then command_port_send lib device request w else (xib_result_ok, w)) of
        (result, w) \<Rightarrow>
          if result \<noteq> xib_result_ok then Some (result, response, w)
          else if length response \<noteq> 0 then receive lib device response w
          else Some (xib_result_ok, response, w))"

definition errv_cid :: bvector where "errv_cid = [0x65, 0x72, 0x72, 0x76]"
definition errd_cid :: bvector where "errd_cid = [0x65, 0x72, 0x72, 0x64]"

text \<open>The first byte that is not zero; \<open>b\<close> is what the variable holds before.\<close>

partial_function (option) first_byte ::
    "'w sp_lib \<Rightarrow> handle \<Rightarrow> bvector \<Rightarrow> 'w \<Rightarrow> (int \<times> bvector \<times> 'w) option" where
  "first_byte lib device b w = do {
     (result, b, w) \<leftarrow> receive lib device b w;
     if result \<noteq> xib_result_ok then Some (result, b, w)
     else if hd b = 0 then first_byte lib device b w
     else Some (result, b, w)
   }"

text \<open>What goes to the port: identifier, data and check sum; the data only where there is some.\<close>

definition urpc_send ::
    "'w sp_lib \<Rightarrow> handle \<Rightarrow> bvector \<Rightarrow> bvector \<Rightarrow> 'w \<Rightarrow> (int \<times> 'w) option" where
  "urpc_send lib device request_cid request w =
     (case command_port_send lib device request_cid w of (result, w) \<Rightarrow>
      if result \<noteq> xib_result_ok then Some (result, w)
      else if length request \<noteq> 0 then
        (case command_port_send lib device request w of (result, w) \<Rightarrow>
         if result \<noteq> xib_result_ok then Some (result, w)
         else do {
           request_crc \<leftarrow> get_crc request (length request);
           Some (command_port_send lib device (mem16 request_crc) w)
         })
      else Some (xib_result_ok, w))"

text \<open>After the identifier: the data, two bytes of check sum, and the comparison without effect.\<close>

definition urpc_payload ::
    "'w sp_lib \<Rightarrow> handle \<Rightarrow> bvector \<Rightarrow> 'w \<Rightarrow> (int \<times> bvector \<times> 'w) option" where
  "urpc_payload lib device response w =
     (if length response = 0 then Some (xib_result_ok, response, w)
      else do {
        (result, response, w) \<leftarrow> receive lib device response w;
        if result \<noteq> xib_result_ok then Some (result, response, w)
        else do {
          (result, response_crc, w) \<leftarrow> receive lib device (mem16 0) w;
          if result \<noteq> xib_result_ok then Some (result, response, w)
          else do {
            crc \<leftarrow> get_crc response 2;
            if response_crc \<noteq> mem16 crc then Some (result, response, w)
            else Some (xib_result_ok, response, w)
          }
        }
      })"

text \<open>\<open>junk\<close> is the array for the identifier before it is read.\<close>

definition urpc_device_serial_send_request ::
    "'w sp_lib \<Rightarrow> bvector \<Rightarrow> handle \<Rightarrow> bvector \<Rightarrow> bvector \<Rightarrow> bvector \<Rightarrow> 'w \<Rightarrow> (int \<times> bvector \<times> 'w) option" where
  "urpc_device_serial_send_request lib junk device request_cid request response w = do {
     (result, w) \<leftarrow> urpc_send lib device request_cid request w;
     if result \<noteq> xib_result_ok then Some (result, response, w)
     else do {
       (result, first, w) \<leftarrow> first_byte lib device (take 1 junk) w;
       if result \<noteq> xib_result_ok then Some (result, response, w)
       else do {
         (result, rest, w) \<leftarrow> receive lib device (take 3 (drop 1 junk)) w;
         if result \<noteq> xib_result_ok then Some (result, response, w)
         else
           let response_cid = first @ rest in
           if response_cid = errv_cid then
             Some (xib_result_value_error, response, snd (sp_flush lib device SP_BUF_BOTH w))
           else if response_cid = errd_cid \<or> response_cid \<noteq> request_cid then
             Some (xib_result_error, response,
                   snd (sp_flush lib device SP_BUF_BOTH (snd (zerosync lib device w))))
           else urpc_payload lib device response w
       }
     }
   }"

definition device_serial_destroy :: "'w sp_lib \<Rightarrow> handle option \<Rightarrow> 'w \<Rightarrow> int \<times> 'w" where
  "device_serial_destroy lib device w =
     (case device of
        None \<Rightarrow> (xib_result_nodevice, w)
      | Some psp \<Rightarrow>
          (case sp_close lib psp w of (result, w) \<Rightarrow>
             (if result = SP_OK then xib_result_ok else xib_result_error, sp_free_port lib psp w)))"

section \<open>\<open>xib_com.c\<close>\<close>

definition xib_com_device_create :: "'w sp_lib \<Rightarrow> string \<Rightarrow> 'w \<Rightarrow> handle option \<times> 'w" where
  "xib_com_device_create lib uri w = device_serial_create lib uri w"

definition urpc_device_send_request ::
    "'w sp_lib \<Rightarrow> bvector \<Rightarrow> handle option \<Rightarrow> bvector \<Rightarrow> bvector \<Rightarrow> bvector \<Rightarrow> 'w \<Rightarrow> (int \<times> bvector \<times> 'w) option" where
  "urpc_device_send_request lib junk device cid request response w =
     (case device of
        None \<Rightarrow> Some (xib_result_nodevice, response, w)
      | Some d \<Rightarrow> urpc_device_serial_send_request lib junk d cid request response w)"

definition xib_com_device_send_request ::
    "'w sp_lib \<Rightarrow> handle option \<Rightarrow> bvector \<Rightarrow> bvector \<Rightarrow> 'w \<Rightarrow> (int \<times> bvector \<times> 'w) option" where
  "xib_com_device_send_request lib device request response w =
     (case device of
        None \<Rightarrow> Some (xib_result_nodevice, response, w)
      | Some d \<Rightarrow> device_serial_send_request_base lib d request response w)"

definition xib_com_device_destroy :: "'w sp_lib \<Rightarrow> handle option \<Rightarrow> 'w \<Rightarrow> int \<times> 'w" where
  "xib_com_device_destroy lib device w = device_serial_destroy lib device w"

end
