(* ===== verification/Serial_Properties.thy ===== *)
theory Serial_Properties
  imports Serial
begin

text \<open>
  The properties of the serial layer: what the check sum detects, an exchange with a device that
  answers, a device that is silent, and when waiting ends.
\<close>

section \<open>The check sum\<close>

text \<open>One step of the shift register is linear and loses nothing.\<close>

lemma crc_bit_xor: "crc_bit (x XOR y) = crc_bit x XOR crc_bit y"
  by (auto simp: crc_bit_def Let_def and_one_eq mod_2_eq_odd even_xor_iff xor.assoc xor.left_commute
      xor.commute)

lemma crc_bit_even: "even x \<Longrightarrow> crc_bit x = drop_bit 1 x"
  by (simp add: crc_bit_def Let_def and_one_eq mod_2_eq_odd)

lemma xor_zero_iff: "(x :: u16) XOR y = 0 \<longleftrightarrow> x = y"
  by (metis xor.left_neutral xor.assoc xor_self_eq)

lemma crc_bit_zero: "crc_bit x = 0 \<longleftrightarrow> x = 0"
proof
  assume zero: "crc_bit x = 0"
  have "\<not> bit (drop_bit 1 x) 15" using bit_imp_le_length [of x 16] by (auto simp: bit_drop_bit_eq)
  moreover have "bit (0xA001 :: u16) 15" by simp
  ultimately have "drop_bit 1 x \<noteq> 0xA001" by metis
  with zero have parts: "even x" "drop_bit 1 x = 0"
    by (auto simp: crc_bit_def Let_def and_one_eq mod_2_eq_odd xor_zero_iff split: if_splits)
  show "x = 0"
  proof (rule bit_word_eqI)
    fix n
    show "bit x n = bit (0 :: u16) n"
      using parts(1) arg_cong [OF parts(2), of "\<lambda>y. bit y (n - 1)"]
      by (cases n) (simp_all add: bit_0 bit_drop_bit_eq)
  qed
qed (simp add: crc_bit_def)

lemma crc_bits_xor: "(crc_bit ^^ n) (x XOR y) = (crc_bit ^^ n) x XOR (crc_bit ^^ n) y"
  by (induction n) (simp_all add: crc_bit_xor)

lemma crc_bits_zero: "(crc_bit ^^ n) x = 0 \<longleftrightarrow> x = 0"
  by (induction n) (simp_all add: crc_bit_zero)

lemma crc_bits_eq: "(crc_bit ^^ n) x = (crc_bit ^^ n) y \<longleftrightarrow> x = y"
  using crc_bits_zero [of n "x XOR y"] by (simp add: crc_bits_xor xor_zero_iff)

text \<open>Eight steps move the upper byte down when nothing is in the lower one.\<close>

lemma drop_push_byte: "m < 8 \<Longrightarrow> drop_bit 1 (push_bit (Suc m) (ucast (b :: u8)) :: u16) = push_bit m (ucast b)"
  by (rule bit_word_eqI) (auto simp: bit_push_bit_iff bit_drop_bit_eq bit_ucast_iff not_le Suc_diff_le simp del: push_bit_Suc
      dest: bit_imp_le_length)

lemma crc_bits_push: "k \<le> 8 \<Longrightarrow> (crc_bit ^^ k) (push_bit 8 (ucast (b :: u8))) = push_bit (8 - k) (ucast b)"
proof (induction k)
  case (Suc k)
  then have k: "8 - k = Suc (8 - Suc k)" "8 - Suc k < 8" by simp_all
  have "even (push_bit (Suc (8 - Suc k)) (ucast b :: u16))" by simp
  then have "crc_bit (push_bit (8 - k) (ucast b)) = push_bit (8 - Suc k) (ucast b)"
    unfolding k(1) by (simp only: crc_bit_even drop_push_byte [OF k(2)])
  with Suc show ?case by simp
qed simp

lemma crc_two_bytes:
  "crc_byte (crc_byte c a) b = (crc_bit ^^ 16) (c XOR (ucast a XOR push_bit 8 (ucast b)))"
proof -
  have "(crc_bit ^^ 16) x = (crc_bit ^^ 8) ((crc_bit ^^ 8) x)" for x
    using funpow_add [of 8 8 crc_bit] by simp
  moreover have "(crc_bit ^^ 8) (push_bit 8 (ucast b)) = ucast b" using crc_bits_push [of 8 b] by simp
  ultimately show ?thesis by (simp add: crc_byte_def crc_bits_xor xor.assoc)
qed

lemma pair_word: "ucast (a :: u8) XOR push_bit 8 (ucast (b :: u8)) = (ucast a' XOR push_bit 8 (ucast b') :: u16)
    \<longleftrightarrow> a = a' \<and> b = b'"
proof
  assume eq: "ucast a XOR push_bit 8 (ucast b) = (ucast a' XOR push_bit 8 (ucast b') :: u16)"
  have "bit a n = bit a' n" if "n < 8" for n
    using arg_cong [OF eq, of "\<lambda>x. bit x n"] that by (simp add: bit_simps)
  moreover have "bit b n = bit b' n" if "n < 8" for n
    using arg_cong [OF eq, of "\<lambda>x. bit x (n + 8)"] that by (auto simp: bit_simps dest: bit_imp_le_length)
  ultimately show "a = a' \<and> b = b'" by (auto intro: bit_word_eqI)
qed simp

lemma mem16_word: "ucast (ucast x :: u8) XOR push_bit 8 (ucast (ucast (drop_bit 8 x) :: u8)) = (x :: u16)"
  by (rule bit_word_eqI) (auto simp: bit_simps)

lemma foldl_crc_eq: "foldl crc_byte c bs = foldl crc_byte c' bs \<longleftrightarrow> c = c'"
proof (induction bs arbitrary: c c')
  case (Cons b bs)
  have "crc_byte c b = crc_byte c' b \<longleftrightarrow> c = c'"
    by (simp add: crc_byte_def crc_bits_eq) (metis xor.assoc xor.right_neutral xor_self_eq)
  with Cons show ?case by simp
qed simp

text \<open>
  Appending two bytes to data gives a string with check sum 0 exactly when they are the data's
  own check sum as it lies in memory; so comparing the sum and testing the rest are the same.
\<close>

theorem crc_frame_check:
  "get_crc (data @ mem16 c) (length data + 2) = Some 0 \<longleftrightarrow> get_crc data (length data) = Some c"
proof -
  let ?s = "foldl crc_byte 0xFFFF data"
  have "foldl crc_byte 0xFFFF (data @ mem16 c) = (crc_bit ^^ 16) (?s XOR c)"
    by (simp add: mem16_def crc_two_bytes mem16_word)
  then show ?thesis by (simp add: get_crc_def crc_bits_zero xor_zero_iff mem16_def)
qed

text \<open>
  C27: the check sum detects every error that is confined to two neighbouring bytes.
\<close>

theorem crc_detects_burst:
  assumes "(a, b) \<noteq> (a', b')"
  shows "get_crc (pre @ [a, b] @ post) (length pre + 2 + length post) \<noteq>
    get_crc (pre @ [a', b'] @ post) (length pre + 2 + length post)"
proof -
  have "c XOR x = c XOR y \<longleftrightarrow> x = y" for c x y :: u16
    by (metis xor.assoc xor.left_neutral xor_self_eq)
  then show ?thesis
    using assms by (simp add: get_crc_def foldl_crc_eq crc_two_bytes crc_bits_eq pair_word)
qed

theorem crc_detects_burst_witness:
  "get_crc [2, 3] (0 + 2 + 0) \<noteq> get_crc [7, 8] (0 + 2 + 0)"
proof -
  have "(2 :: u8, 3 :: u8) \<noteq> (7, 8)" by simp
  from crc_detects_burst [OF this, of "[]" "[]"] show ?thesis by (simp only: append_Nil append_Nil2 list.size not_False_eq_True)
qed

section \<open>A silent device\<close>

text \<open>
  A port that takes what is written and has nothing to read: by libserialport's documentation a read
  that times out returns the number of bytes it got, here 0. \<open>ok\<close> is a set of states of the world
  that the operations do not leave.
\<close>

definition silent_port :: "'w sp_lib \<Rightarrow> handle \<Rightarrow> ('w \<Rightarrow> bool) \<Rightarrow> bool" where
  "silent_port lib port ok \<longleftrightarrow>
     (\<forall>bs t w. ok w \<longrightarrow> 0 \<le> fst (sp_blocking_write lib port bs t w) \<and> ok (snd (sp_blocking_write lib port bs t w))) \<and>
     (\<forall>n t w. ok w \<longrightarrow> fst (sp_blocking_read lib port n t w) = 0 \<and>
        fst (snd (sp_blocking_read lib port n t w)) = [] \<and> ok (snd (snd (sp_blocking_read lib port n t w)))) \<and>
     (\<forall>b w. ok w \<longrightarrow> ok (snd (sp_flush lib port b w))) \<and>
     (\<forall>w. ok w \<longrightarrow> ok (snd (gettimeofday lib w)))"

lemma silent_send:
  assumes "silent_port lib port ok" and "ok w"
  shows "\<exists>w'. command_port_send lib port bs w = (xib_result_ok, w') \<and> ok w'"
proof -
  have "0 \<le> fst (sp_blocking_write lib port bs PORT_TIMEOUT w) \<and> ok (snd (sp_blocking_write lib port bs PORT_TIMEOUT w))"
    using assms unfolding silent_port_def by blast
  then show ?thesis by (simp add: command_port_send_def Let_def case_prod_beta)
qed

lemma silent_port_receive:
  assumes "silent_port lib port ok" and "ok w"
  shows "\<exists>w'. command_port_receive lib port bs w = (xib_result_ok, bs, w') \<and> ok w'"
proof -
  let ?r = "sp_blocking_read lib port (length bs) PORT_TIMEOUT w"
  have "fst ?r = 0 \<and> fst (snd ?r) = [] \<and> ok (snd (snd ?r))"
    using assms unfolding silent_port_def by blast
  then show ?thesis by (simp add: command_port_receive_def overwrite_def Let_def case_prod_beta)
qed

lemma silent_clock:
  assumes "silent_port lib port ok" and "ok w"
  shows "\<exists>t w'. urpc_get_wallclock lib w = (t, w') \<and> ok w'"
proof -
  have "ok (snd (gettimeofday lib w))" using assms unfolding silent_port_def by blast
  then show ?thesis by (auto simp: urpc_get_wallclock_def split: prod.splits)
qed

lemma silent_receive:
  assumes "silent_port lib port ok" and "ok w"
  shows "\<exists>w'. receive lib port bs w = Some (xib_result_ok, bs, w') \<and> ok w'"
proof -
  obtain t w1 where 1: "urpc_get_wallclock lib w = (t, w1)" "ok w1" using silent_clock [OF assms] by blast
  obtain w2 where 2: "command_port_receive lib port bs w1 = (xib_result_ok, bs, w2)" "ok w2"
    using silent_port_receive [OF assms(1) 1(2)] by blast
  obtain t' w3 where 3: "urpc_get_wallclock lib w2 = (t', w3)" "ok w3"
    using silent_clock [OF assms(1) 2(2)] by blast
  from 1 2 3 show ?thesis by (simp add: receive_def receive_loop.simps xib_result_defs)
qed

lemma silent_base:
  assumes "silent_port lib port ok" and "ok w"
  shows "\<exists>w'. device_serial_send_request_base lib port request response w = Some (xib_result_ok, response, w') \<and> ok w'"
proof -
  have "\<exists>w1. (if length request \<noteq> 0 then command_port_send lib port request w else (xib_result_ok, w))
      = (xib_result_ok, w1) \<and> ok w1"
    using silent_send [OF assms, of request] assms(2) by auto
  then obtain w1 where 1: "(if length request \<noteq> 0 then command_port_send lib port request w else (xib_result_ok, w))
      = (xib_result_ok, w1)" "ok w1" by blast
  show ?thesis
    using silent_receive [OF assms(1) 1(2), of response] 1
    by (auto simp: device_serial_send_request_base_def)
qed

text \<open>
  The plain exchange with a device that never answers reports success, and the response is what
  the buffer held before: a read that times out returns a count of bytes that the code does not
  compare with the length it asked for.
\<close>

theorem silent_device_reports_ok:
  assumes "silent_port lib port ok" and "ok w"
  shows "\<exists>w'. xib_com_device_send_request lib (Some port) request response w = Some (xib_result_ok, response, w')"
  using silent_base [OF assms, of request response] by (auto simp: xib_com_device_send_request_def)

text \<open>Waiting for a first byte that is not zero, when the variable is zero and nothing comes.\<close>

lemma silent_first_byte:
  assumes "silent_port lib port ok" and "ok w"
  shows "first_byte lib port [0] w = None"
proof (cases "first_byte lib port [0] w")
  case (Some r)
  have "\<not> (lib' = lib \<and> port' = port \<and> b = [0] \<and> ok w')" if "first_byte lib' port' b w' = Some r'" for lib' port' b w' r'
  proof (rule first_byte.raw_induct [where P = "\<lambda>lib' port' b w' r. \<not> (lib' = lib \<and> port' = port \<and> b = [0] \<and> ok w')",
        OF _ that], rule notI, elim conjE)
    fix f lib' port' b w' r
    assume IH: "\<And>lib' port' b w' r. f lib' port' b w' = Some r \<Longrightarrow> \<not> (lib' = lib \<and> port' = port \<and> b = [0] \<and> ok w')"
      and eq: "Option.bind (receive lib' port' b w') (\<lambda>(result, b, w). if result \<noteq> xib_result_ok then Some (result, b, w)
        else if hd b = 0 then f lib' port' b w else Some (result, b, w)) = Some r"
      and start: "lib' = lib" "port' = port" "b = [0]" "ok w'"
    obtain w2 where "receive lib port [0] w' = Some (xib_result_ok, [0], w2)" "ok w2"
      using silent_receive [OF assms(1) start(4)] by blast
    with eq start IH show False by simp
  qed
  with Some assms(2) show ?thesis by blast
qed simp

lemma silent_urpc_send:
  assumes "silent_port lib port ok" and "ok w"
  shows "\<exists>w'. urpc_send lib port cid request w = Some (xib_result_ok, w') \<and> ok w'"
proof -
  obtain w1 where 1: "command_port_send lib port cid w = (xib_result_ok, w1)" "ok w1"
    using silent_send [OF assms] by blast
  obtain w2 where 2: "command_port_send lib port request w1 = (xib_result_ok, w2)" "ok w2"
    using silent_send [OF assms(1) 1(2)] by blast
  obtain w3 where 3: "command_port_send lib port (mem16 (foldl crc_byte 0xFFFF request)) w2 = (xib_result_ok, w3)" "ok w3"
    using silent_send [OF assms(1) 2(2)] by blast
  from 1 2 3 show ?thesis by (simp add: urpc_send_def get_crc_def)
qed

lemma silent_payload:
  assumes "silent_port lib port ok" and "ok w"
  shows "map_option fst (urpc_payload lib port response w) =
    (if length response = 1 then None else Some xib_result_ok)"
proof -
  obtain w1 where 1: "receive lib port response w = Some (xib_result_ok, response, w1)" "ok w1"
    using silent_receive [OF assms] by blast
  obtain w2 where 2: "receive lib port (mem16 0) w1 = Some (xib_result_ok, mem16 0, w2)" "ok w2"
    using silent_receive [OF assms(1) 1(2)] by blast
  have "length response \<noteq> 0 \<Longrightarrow> length response \<noteq> 1 \<Longrightarrow> 2 \<le> length response" by linarith
  with 1 2 show ?thesis by (simp add: urpc_payload_def get_crc_def)
qed

lemma silent_first_byte_junk:
  assumes "silent_port lib port ok" and "ok w" and "a \<noteq> 0"
  shows "\<exists>w'. first_byte lib port [a] w = Some (xib_result_ok, [a], w') \<and> ok w'"
  using silent_receive [OF assms(1,2), of "[a]"] assms(3) by (auto simp: first_byte.simps)

text \<open>
  The exchange of a version 2 command with a device that never answers: when the array for the
  identifier happens to start with a zero the call never returns; otherwise what the array holds is
  taken for the answer's identifier.
\<close>

theorem silent_device_urpc:
  assumes "silent_port lib port ok" and "ok w" and "junk = [a, b, c, d]"
  shows "map_option fst (urpc_device_send_request lib junk (Some port) cid request response w) =
    (if a = 0 then None
     else if junk = errv_cid then Some xib_result_value_error
     else if junk = errd_cid \<or> junk \<noteq> cid then Some xib_result_error
     else if length response = 1 then None else Some xib_result_ok)"
proof -
  obtain w1 where 1: "urpc_send lib port cid request w = Some (xib_result_ok, w1)" "ok w1"
    using silent_urpc_send [OF assms(1,2)] by blast
  show ?thesis
  proof (cases "a = 0")
    case True
    then show ?thesis
      using 1 silent_first_byte [OF assms(1) 1(2)] assms(3)
      by (simp add: urpc_device_send_request_def urpc_device_serial_send_request_def)
  next
    case False
    obtain w2 where 2: "first_byte lib port [a] w1 = Some (xib_result_ok, [a], w2)" "ok w2"
      using silent_first_byte_junk [OF assms(1) 1(2) False] by blast
    obtain w3 where 3: "receive lib port [b, c, d] w2 = Some (xib_result_ok, [b, c, d], w3)" "ok w3"
      using silent_receive [OF assms(1) 2(2)] by blast
    from 1 2 3 False silent_payload [OF assms(1) 3(2), of response] assms(3) show ?thesis
      by (auto simp: urpc_device_send_request_def urpc_device_serial_send_request_def Let_def split: if_splits)
  qed
qed

section \<open>A device that answers\<close>

text \<open>A port as two streams of bytes: \<open>out\<close> has what was written, \<open>inp\<close> what is still to read.\<close>

definition fifo_port :: "'w sp_lib \<Rightarrow> handle \<Rightarrow> ('w \<Rightarrow> bvector) \<Rightarrow> ('w \<Rightarrow> bvector) \<Rightarrow> bool" where
  "fifo_port lib port inp out \<longleftrightarrow>
     (\<forall>bs t w. \<exists>w'. sp_blocking_write lib port bs t w = (int (length bs), w') \<and> out w' = out w @ bs \<and> inp w' = inp w) \<and>
     (\<forall>n t w. \<exists>w'. sp_blocking_read lib port n t w = (int (min n (length (inp w))), take n (inp w), w') \<and>
        inp w' = drop n (inp w) \<and> out w' = out w) \<and>
     (\<forall>w. \<exists>t w'. gettimeofday lib w = (t, w') \<and> inp w' = inp w \<and> out w' = out w)"

lemma fifo_send:
  assumes "fifo_port lib port inp out"
  shows "\<exists>w'. command_port_send lib port bs w = (xib_result_ok, w') \<and> out w' = out w @ bs \<and> inp w' = inp w"
proof -
  obtain w' where "sp_blocking_write lib port bs PORT_TIMEOUT w = (int (length bs), w')"
    "out w' = out w @ bs" "inp w' = inp w" using assms unfolding fifo_port_def by blast
  then show ?thesis by (simp add: command_port_send_def)
qed

lemma fifo_clock:
  assumes "fifo_port lib port inp out"
  shows "\<exists>t w'. urpc_get_wallclock lib w = (t, w') \<and> inp w' = inp w \<and> out w' = out w"
proof -
  obtain t w' where "gettimeofday lib w = (t, w')" "inp w' = inp w" "out w' = out w"
    using assms unfolding fifo_port_def by blast
  then show ?thesis by (cases t) (simp add: urpc_get_wallclock_def)
qed

lemma fifo_receive:
  assumes "fifo_port lib port inp out" and "inp w = bs @ rest" and "length bs = length buf"
  shows "\<exists>w'. receive lib port buf w = Some (xib_result_ok, bs, w') \<and> inp w' = rest \<and> out w' = out w"
proof -
  obtain t w1 where 1: "urpc_get_wallclock lib w = (t, w1)" "inp w1 = bs @ rest" "out w1 = out w"
    using fifo_clock [OF assms(1), of w] assms(2) by auto
  obtain w2 where 2: "sp_blocking_read lib port (length buf) PORT_TIMEOUT w1 =
      (int (min (length buf) (length (inp w1))), take (length buf) (inp w1), w2)"
    "inp w2 = drop (length buf) (inp w1)" "out w2 = out w1" using assms(1) unfolding fifo_port_def by blast
  obtain t' w3 where 3: "urpc_get_wallclock lib w2 = (t', w3)" "inp w3 = inp w2" "out w3 = out w2"
    using fifo_clock [OF assms(1), of w2] by blast
  have "command_port_receive lib port buf w1 = (xib_result_ok, bs, w2)"
    using 1 2(1) by (simp add: command_port_receive_def overwrite_def flip: assms(3))
  with 1 2 3 show ?thesis
    by (simp add: receive_def receive_loop.simps xib_result_defs flip: assms(3))
qed

lemma fifo_first_byte:
  assumes "fifo_port lib port inp out" and "c \<noteq> 0"
  shows "inp w = replicate k 0 @ c # rest \<Longrightarrow>
    \<exists>w'. first_byte lib port [b] w = Some (xib_result_ok, [c], w') \<and> inp w' = rest \<and> out w' = out w"
proof (induction k arbitrary: b w)
  case 0
  then show ?case
    using fifo_receive [OF assms(1), of w "[c]" rest "[b]"] assms(2) by (auto simp: first_byte.simps)
next
  case (Suc k)
  obtain w1 where 1: "receive lib port [b] w = Some (xib_result_ok, [0], w1)"
    "inp w1 = replicate k 0 @ c # rest" "out w1 = out w"
    using fifo_receive [OF assms(1), of w "[0]" "replicate k 0 @ c # rest" "[b]"] Suc.prems by auto
  from Suc.IH [OF 1(2), of 0] 1 show ?case by (auto simp: first_byte.simps [of lib port "[b]" w])
qed

lemma fifo_urpc_send:
  assumes "fifo_port lib port inp out"
  shows "\<exists>w'. urpc_send lib port cid request w = Some (xib_result_ok, w') \<and> inp w' = inp w \<and>
    out w' = out w @ cid @ (if request = [] then [] else request @ mem16 (foldl crc_byte 0xFFFF request))"
proof -
  obtain w1 where 1: "command_port_send lib port cid w = (xib_result_ok, w1)" "out w1 = out w @ cid" "inp w1 = inp w"
    using fifo_send [OF assms, of cid w] by blast
  obtain w2 where 2: "command_port_send lib port request w1 = (xib_result_ok, w2)" "out w2 = out w1 @ request"
    "inp w2 = inp w1" using fifo_send [OF assms, of request w1] by blast
  obtain w3 where 3: "command_port_send lib port (mem16 (foldl crc_byte 0xFFFF request)) w2 = (xib_result_ok, w3)"
    "out w3 = out w2 @ mem16 (foldl crc_byte 0xFFFF request)" "inp w3 = inp w2"
    using fifo_send [OF assms, of _ w2] by blast
  from 1 2 3 show ?thesis by (auto simp: urpc_send_def get_crc_def)
qed

text \<open>
  C26: the exchange of a version 2 command with a device that answers: the port gets the identifier
  and, where there are any, the data with their check sum; zeroes before the answer are skipped; the
  caller gets the answer's data, whatever the two bytes of the answer's check sum are.
\<close>

theorem urpc_exchange:
  assumes "fifo_port lib port inp out" and "inp w = replicate k 0 @ cid @ resp @ [x, y] @ rest"
    and "length cid = 4" "hd cid \<noteq> 0" "cid \<noteq> errv_cid" "cid \<noteq> errd_cid"
    and "length resp = length response" "2 \<le> length resp" and "length junk = 4"
  shows "\<exists>w'. urpc_device_send_request lib junk (Some port) cid request response w = Some (xib_result_ok, resp, w') \<and>
    inp w' = rest \<and>
    out w' = out w @ cid @ (if request = [] then [] else request @ mem16 (the (get_crc request (length request))))"
proof -
  obtain c0 cs where cid: "cid = c0 # cs" "length cs = 3" "c0 \<noteq> 0"
    using assms(3,4) by (cases cid) auto
  obtain j0 js where junk: "junk = j0 # js" "length js = 3" using assms(9) by (cases junk) auto
  obtain w1 where 1: "urpc_send lib port cid request w = Some (xib_result_ok, w1)" "inp w1 = inp w"
    "out w1 = out w @ cid @ (if request = [] then [] else request @ mem16 (foldl crc_byte 0xFFFF request))"
    using fifo_urpc_send [OF assms(1), of cid request w] by blast
  obtain w2 where 2: "first_byte lib port [j0] w1 = Some (xib_result_ok, [c0], w2)"
    "inp w2 = cs @ resp @ [x, y] @ rest" "out w2 = out w1"
    using fifo_first_byte [OF assms(1) cid(3), of w1 k "cs @ resp @ [x, y] @ rest" j0] 1(2) assms(2) cid(1) by auto
  obtain w3 where 3: "receive lib port js w2 = Some (xib_result_ok, cs, w3)"
    "inp w3 = resp @ [x, y] @ rest" "out w3 = out w2"
    using fifo_receive [OF assms(1) 2(2), of js] cid(2) junk(2) by auto
  obtain w4 where 4: "receive lib port response w3 = Some (xib_result_ok, resp, w4)"
    "inp w4 = [x, y] @ rest" "out w4 = out w3"
    using fifo_receive [OF assms(1) 3(2), of response] assms(7) by auto
  obtain w5 where 5: "receive lib port (mem16 0) w4 = Some (xib_result_ok, [x, y], w5)"
    "inp w5 = rest" "out w5 = out w4"
    using fifo_receive [OF assms(1) 4(2), of "mem16 0"] by (auto simp: mem16_def)
  have "urpc_payload lib port response w3 = Some (xib_result_ok, resp, w5)"
    using 4(1) 5(1) assms(7,8) by (auto simp: urpc_payload_def get_crc_def)
  with 1 2 3 4(3) 5(2,3) junk cid assms(5,6) show ?thesis
    by (simp add: urpc_device_send_request_def urpc_device_serial_send_request_def Let_def get_crc_def)
qed

section \<open>Waiting ends\<close>

text \<open>
  The clock in milliseconds, \<open>now\<close>: reading a port takes at least one and no call more than a
  thousand seconds.
\<close>

definition timed_port :: "'w sp_lib \<Rightarrow> handle \<Rightarrow> ('w \<Rightarrow> int) \<Rightarrow> bool" where
  "timed_port lib port now \<longleftrightarrow>
     (\<forall>w. \<exists>s us w'. gettimeofday lib w = ((s, us), w') \<and> 0 \<le> us \<and> us < 1000000 \<and> now w = 1000 * s + us div 1000 \<and>
        now w \<le> now w' \<and> now w' \<le> now w + 1000000) \<and>
     (\<forall>n t w r bs w'. sp_blocking_read lib port n t w = (r, bs, w') \<longrightarrow> now w < now w' \<and> now w' \<le> now w + 1000000) \<and>
     (\<forall>b w r w'. sp_flush lib port b w = (r, w') \<longrightarrow> now w \<le> now w' \<and> now w' \<le> now w + 1000000) \<and>
     (\<forall>w. now w \<le> now (sleep_ms lib URPC_ZEROSYNC_RETRY_DELAY w) \<and>
        now (sleep_ms lib URPC_ZEROSYNC_RETRY_DELAY w) \<le> now w + 1000000)"

lemma timed_receive:
  assumes "timed_port lib port now" and "command_port_receive lib port bs w = (r, bs', w')"
  shows "now w < now w' \<and> now w' \<le> now w + 2000000"
proof -
  obtain r1 b1 w1 where 1: "sp_blocking_read lib port (length bs) PORT_TIMEOUT w = (r1, b1, w1)"
    by (metis prod_cases3)
  obtain r2 w2 where 2: "sp_flush lib port SP_BUF_INPUT w1 = (r2, w2)" by fastforce
  have "now w < now w1 \<and> now w1 \<le> now w + 1000000" "now w1 \<le> now w2 \<and> now w2 \<le> now w1 + 1000000"
    using assms(1) 1 2 unfolding timed_port_def by blast+
  with assms(2) 1 2 show ?thesis by (auto simp: command_port_receive_def Let_def split: if_splits)
qed

lemma timed_clock:
  assumes "timed_port lib port now"
  shows "\<exists>s ms w'. urpc_get_wallclock lib w = ((s, ms), w') \<and> 0 \<le> ms \<and> ms < 1000 \<and> now w = 1000 * s + ms \<and>
    now w \<le> now w' \<and> now w' \<le> now w + 1000000"
proof -
  obtain s us w' where "gettimeofday lib w = ((s, us), w')" "0 \<le> us" "us < 1000000" "now w = 1000 * s + us div 1000"
    "now w \<le> now w'" "now w' \<le> now w + 1000000" using assms unfolding timed_port_def by blast
  then show ?thesis by (auto simp: urpc_get_wallclock_def)
qed

lemma wallclock_diff_span:
  assumes "0 \<le> ms" "ms < 1000" "0 \<le> ms'" "ms' < 1000"
    and "1000 * s + ms \<le> 1000 * s' + ms'" and "1000 * s' + ms' \<le> 1000 * s + ms + 100000000"
  shows "wallclock_diff (s, ms) (s', ms') = Some (1000 * s' + ms' - (1000 * s + ms))"
proof -
  have "s \<le> s'" "s' - s \<le> 100001" using assms by linarith+
  with assms show ?thesis by (auto simp: wallclock_diff_def int_result_def Let_def)
qed

lemma receive_loop_returns:
  assumes "timed_port lib port now" and "0 \<le> ms" "ms < 1000"
  shows "1000 * s + ms \<le> now w \<Longrightarrow> now w \<le> 1000 * s + ms + 10000000 \<Longrightarrow>
    \<exists>r. receive_loop lib port (s, ms) (s, ms) response w = Some r"
proof (induction "nat (1000 * s + ms + 10000 - now w)" arbitrary: response w rule: less_induct)
  case less
  obtain r bs w1 where 1: "command_port_receive lib port response w = (r, bs, w1)" by (metis prod_cases3)
  have now1: "now w < now w1" "now w1 \<le> now w + 2000000" using timed_receive [OF assms(1) 1] by auto
  obtain s' ms' w2 where 2: "urpc_get_wallclock lib w1 = ((s', ms'), w2)" "0 \<le> ms'" "ms' < 1000"
    "now w1 = 1000 * s' + ms'" "now w1 \<le> now w2" "now w2 \<le> now w1 + 1000000"
    using timed_clock [OF assms(1), of w1] by blast
  have diff: "wallclock_diff (s, ms) (s', ms') = Some (now w1 - (1000 * s + ms))"
    using wallclock_diff_span [OF assms(2,3) 2(2,3)] less.prems now1 2(4) by simp
  define w3 where "w3 = (if now w1 - (1000 * s + ms) < 200 then sleep_ms lib URPC_ZEROSYNC_RETRY_DELAY w2 else w2)"
  have now3: "now w2 \<le> now w3" "now w3 \<le> now w2 + 1000000"
    using assms(1) unfolding timed_port_def w3_def by auto
  show ?case
  proof (cases "r = xib_result_timeout \<and> now w1 - (1000 * s + ms) < 10000")
    case True
    have "\<exists>r. receive_loop lib port (s, ms) (s, ms) bs w3 = Some r"
      by (rule less.hyps) (use True less.prems now1 now3 2(5,6) in linarith)+
    with True 1 2(1) diff show ?thesis
      by (auto simp: receive_loop.simps [of lib port "(s, ms)" "(s, ms)" response w] w3_def
          URPC_ZEROSYNC_RETRY_DELAY_def URPC_ZEROSYNC_TRIGGER_TIMEOUT_def)
  next
    case False
    with 1 2(1) diff show ?thesis
      by (auto simp: receive_loop.simps [of lib port "(s, ms)" "(s, ms)" response w]
          URPC_ZEROSYNC_RETRY_DELAY_def URPC_ZEROSYNC_TRIGGER_TIMEOUT_def)
  qed
qed


section \<open>Ports to run on\<close>

text \<open>A port over two lists with a clock, and one whose reads all fail in the way that is retried.\<close>

definition fifo_lib :: "(bvector \<times> bvector \<times> int) sp_lib" where
  "fifo_lib = \<lparr>sp_get_port_by_name = (\<lambda>p w. (SP_OK, 1, w)), sp_open = (\<lambda>h w. (SP_OK, w)), sp_close = (\<lambda>h w. (SP_OK, w)),
     sp_free_port = (\<lambda>h w. w),
     sp_blocking_write = (\<lambda>h bs t (i, q, c). (int (length bs), (i, q @ bs, c + 1))),
     sp_blocking_read = (\<lambda>h n t (i, q, c). (int (min n (length i)), take n i, (drop n i, q, c + 1))),
     sp_flush = (\<lambda>h b w. (SP_OK, w)),
     gettimeofday = (\<lambda>(i, q, c). ((c div 1000, c mod 1000 * 1000), (i, q, c))),
     sleep_ms = (\<lambda>n (i, q, c). (i, q, c + int n))\<rparr>"

definition deaf_lib :: "(bvector \<times> bvector \<times> int) sp_lib" where
  "deaf_lib = fifo_lib\<lparr>sp_blocking_read := (\<lambda>h n t (i, q, c). (-1, [], (i, q, c + 500)))\<rparr>"

lemma fifo_lib_silent: "silent_port fifo_lib port (\<lambda>(i, q, c). i = [])"
  by (auto simp: silent_port_def fifo_lib_def)

lemma fifo_lib_fifo: "fifo_port fifo_lib port fst (\<lambda>w. fst (snd w))"
  by (auto simp: fifo_port_def fifo_lib_def)

lemma deaf_lib_timed: "timed_port deaf_lib port (\<lambda>w. snd (snd w))"
  by (auto simp: timed_port_def deaf_lib_def fifo_lib_def URPC_ZEROSYNC_RETRY_DELAY_def)

theorem silent_device_reports_ok_witness:
  "\<exists>w'. xib_com_device_send_request fifo_lib (Some 1) [1, 2] [9, 9] ([], [], 0) = Some (xib_result_ok, [9, 9], w')"
  using silent_device_reports_ok [OF fifo_lib_silent, of "([], [], 0)" 1 "[1, 2]" "[9, 9]"] by simp

theorem silent_device_urpc_witness:
  "urpc_device_send_request fifo_lib [0, 0, 0, 0] (Some 1) [1, 2, 3, 4] [] [] ([], [], 0) = None"
  using silent_device_urpc [OF fifo_lib_silent, of "([], [], 0)" "[0, 0, 0, 0]" 0 0 0 0 1 "[1, 2, 3, 4]" "[]" "[]"]
  by simp

theorem urpc_exchange_witness:
  "\<exists>w'. urpc_device_send_request fifo_lib [7, 7, 7, 7] (Some 1) [1, 2, 3, 4] [] [0, 0]
      ([0, 1, 2, 3, 4, 8, 9, 0, 0], [], 0) = Some (xib_result_ok, [8, 9], w') \<and> fst (snd w') = [1, 2, 3, 4]"
  using urpc_exchange [OF fifo_lib_fifo, where w = "([0, 1, 2, 3, 4, 8, 9, 0, 0], [], 0)" and k = 1
      and cid = "[1, 2, 3, 4]" and resp = "[8, 9]" and x = 0 and y = 0 and rest = "[]" and response = "[0, 0]"
      and junk = "[7, 7, 7, 7]" and port = 1 and request = "[]"]
  by (auto simp: errv_cid_def errd_cid_def)


end
