(* ===== verification/System.thy ===== *)
theory System
  imports Client_Network Serial_Properties
begin

text \<open>
  The client library linked to the server: what the client needs of the network as the locale
  \<open>exchange_link\<close>, with the client's operations over it, and the network that is this repository's
  server, its interpretation.
\<close>

section \<open>What the client needs\<close>

text \<open>
  \<open>answer c d w\<close> is the packet that comes back on connection \<open>c\<close> for the packet \<open>d\<close>, while the
  sender waits, with the world after it.
\<close>

locale exchange_link =
  fixes env :: "'w net_env"
    and answer :: "conn_id_t \<Rightarrow> bvector \<Rightarrow> 'w \<Rightarrow> (bvector \<times> 'w) option"
  assumes link_answer: "answer c d w = Some (r, w') \<Longrightarrow>
    \<exists>w1 w2. net_send env c d w = (True, w1) \<and> net_early env w1 = ([], w2) \<and> net_wait env w2 = ([(c, r)], w')"
begin

lemma send_and_receive_answer:
  assumes "heap L p = Some c" and "bmap L (conn_id c) = Some p" and "answer (conn_id c) d (net L) = Some (r, w)"
  shows "send_and_receive env p d L =
    Some (True, L\<lparr>heap := (heap L)(p \<mapsto> c\<lparr>is_really_recv := True, recv_message := r\<rparr>), net := w\<rparr>)"
proof -
  obtain w1 w2 where "net_send env (conn_id c) d (net L) = (True, w1)" "net_early env w1 = ([], w2)"
    "net_wait env w2 = ([(conn_id c, r)], w)" using link_answer [OF assms(3)] by blast
  with assms(1,2) show ?thesis
    by (simp add: send_and_receive_def send_bindy_data_def bh_is_connected_def callback_data_bindy_def
        client_order lib_order)
qed

text \<open>Opening against a server that speaks another version, and against one of version 3.\<close>

lemma open_device_other:
  assumes "heap L p = Some c" and "bmap L (conn_id c) = Some p"
    and "answer (conn_id c) (create_open_request (class_of (server_protocol_version c)) (client_dev_id c) 3000)
      (net L) = Some (r, w)"
    and "server_protocol_version c \<in> {1, 2, 3}" and "get_version_of_cmd r \<noteq> server_protocol_version c"
  shows "\<exists>c'. open_device env u p L = Some (False, L\<lparr>heap := (heap L)(p \<mapsto> c'), net := w\<rparr>) \<and>
    server_protocol_version c' = get_version_of_cmd r \<and> last_error c' = ERR_ANOTHER_PROTOCOL \<and>
    client_dev_id c' = client_dev_id c \<and> conn_id c' = conn_id c"
proof -
  let ?L0 = "L\<lparr>heap := (heap L)(p \<mapsto> c\<lparr>last_error := 0\<rparr>)\<rparr>"
  have "send_and_receive env p (create_open_request (class_of (server_protocol_version c)) (client_dev_id c) 3000) ?L0 =
      Some (True, L\<lparr>heap := (heap L)(p \<mapsto> c\<lparr>last_error := 0, is_really_recv := True, recv_message := r\<rparr>), net := w\<rparr>)"
    using send_and_receive_answer [of ?L0 p "c\<lparr>last_error := 0\<rparr>"] assms(2,3) by simp
  moreover have "make_protocol u (c\<lparr>last_error := 0\<rparr>) = Some (class_of (server_protocol_version c),
      \<lparr>is_server = False, res_err = u, perror = 0\<rparr>)"
    using make_protocol_class [of "c\<lparr>last_error := 0\<rparr>" u] assms(4) by simp
  ultimately show ?thesis
    using assms(1,5) by (simp add: open_device_def clr_errors_def set_error_def open_request_not_empty
        other_version_def Let_def client_order lib_order) (auto intro!: exI)
qed

lemma open_device_3:
  assumes "heap L p = Some c" and "bmap L (conn_id c) = Some p"
    and "answer (conn_id c) (Protocol3_create_open_request (client_dev_id c) 3000) (net L) =
      Some (Protocol3_create_open_response d (if added then 1 else 0), w)"
    and "server_protocol_version c = 3"
  shows "\<exists>c'. open_device env u p L = Some (added, L\<lparr>heap := (heap L)(p \<mapsto> c'), net := w\<rparr>) \<and>
    server_protocol_version c' = 3 \<and> last_error c' = (if added then 0 else ERR_DEVICE_OPEN) \<and>
    client_dev_id c' = client_dev_id c \<and> conn_id c' = conn_id c"
proof -
  let ?L0 = "L\<lparr>heap := (heap L)(p \<mapsto> c\<lparr>last_error := 0\<rparr>)\<rparr>"
  let ?r = "Protocol3_create_open_response d (if added then 1 else 0)"
  have sent: "send_and_receive env p (Protocol3_create_open_request (client_dev_id c) 3000) ?L0 =
      Some (True, L\<lparr>heap := (heap L)(p \<mapsto> c\<lparr>last_error := 0, is_really_recv := True, recv_message := ?r\<rparr>), net := w\<rparr>)"
    using send_and_receive_answer [of ?L0 p "c\<lparr>last_error := 0\<rparr>"] assms(2,3) by simp
  have proto: "make_protocol u (c\<lparr>last_error := 0\<rparr>) = Some (Proto3, \<lparr>is_server = False, res_err = u, perror = 0\<rparr>)"
    using make_protocol_class [of "c\<lparr>last_error := 0\<rparr>" u] assms(4) by (simp add: class_of_def)
  have version: "get_version_of_cmd ?r = 3"
    by (simp add: Protocol3_response_bytes head3_def be32_def get_version_of_cmd_def)
  have parse: "get_data_from_bindy_callback Proto3 \<lparr>is_server = False, res_err = u, perror = 0\<rparr> (MBuf_data ?r True) u =
      accepted \<lparr>is_server = False, res_err = u, perror = 0\<rparr> (if added then 1 else 0) [] 0xFF"
    by (simp add: Protocol3_response_bytes client_result3)
  have "open_request_ok": "Protocol3_create_open_request (client_dev_id c) 3000 \<noteq> []"
    using open_request_not_empty [of Proto3] by simp
  show ?thesis
    using assms(1,4) sent proto version parse "open_request_ok"
    by (simp add: open_device_def clr_errors_def set_error_def other_version_def parse_received_def
        Protocol3_translate_response_def fail_with_def Let_def client_order lib_order) (auto intro!: exI)
qed

lemma send_data_and_receive_3:
  assumes "heap L p = Some c" and "bmap L (conn_id c) = Some p" and "conn_id c \<noteq> cl_invalid"
    and "server_protocol_version c = 3" and "short data"
    and "answer (conn_id c) (Protocol3_create_cmd_request (client_dev_id c) 3000 (Some data) n) (net L) = Some (r, w)"
    and "get_data_from_bindy_callback Proto3 \<lparr>is_server = False, res_err = u, perror = 0\<rparr> (MBuf_data r True) u = Some x"
    and "cd_ok x"
  shows "\<exists>c'. send_data_and_receive env u p data n L = Some (cd_data x, L\<lparr>heap := (heap L)(p \<mapsto> c'), net := w\<rparr>) \<and>
    last_error c' = perror (cd_proto x) \<and> server_protocol_version c' = 3 \<and>
    client_dev_id c' = client_dev_id c \<and> conn_id c' = conn_id c"
proof -
  let ?L0 = "L\<lparr>heap := (heap L)(p \<mapsto> c\<lparr>last_error := 0\<rparr>)\<rparr>"
  let ?req = "Protocol3_create_cmd_request (client_dev_id c) 3000 (Some data) n"
  have sent: "send_and_receive env p ?req ?L0 =
      Some (True, L\<lparr>heap := (heap L)(p \<mapsto> c\<lparr>last_error := 0, is_really_recv := True, recv_message := r\<rparr>), net := w\<rparr>)"
    using send_and_receive_answer [of ?L0 p "c\<lparr>last_error := 0\<rparr>"] assms(2,6) by simp
  have proto: "make_protocol u (c\<lparr>last_error := 0\<rparr>) = Some (Proto3, \<lparr>is_server = False, res_err = u, perror = 0\<rparr>)"
    using make_protocol_class [of "c\<lparr>last_error := 0\<rparr>" u] assms(4) by (simp add: class_of_def)
  have "length ?req \<noteq> 0" using assms(5) by (simp add: Protocol3_cmd_request_bytes)
  then show ?thesis
    using assms(1-4,7,8) sent proto
    by (simp add: send_data_and_receive_def clr_errors_def set_error_def is_connected_def bh_is_connected_def
        parse_received_def client_order lib_order) (auto intro!: exI)
qed

end

section \<open>The server as the network\<close>

text \<open>
  The server of this repository behind bindy: connections have the same numbers on both sides, a
  packet is handled when it is sent, what the server sends waits until the client waits, and the end
  of a connection is reported to the server. Numbers are given out once. \<open>down\<close>: the server threw or ran into undefined behaviour.
\<close>

record 'w sys =
  srv :: "'w msu"
  inbox :: "(conn_id_t \<times> bvector) list"
  next_conn :: conn_id_t
  down :: bool

definition sys_serve :: "'w dev_env \<Rightarrow> u32 \<Rightarrow> conn_id_t \<Rightarrow> bvector \<Rightarrow> 'w sys \<Rightarrow> 'w sys" where
  "sys_serve env u c d S =
     (if down S then S
      else case callback_data env u c d (srv S) of
             Some (Done pkts n s) \<Rightarrow> S\<lparr>srv := s, inbox := inbox S @ pkts\<rparr>
           | _ \<Rightarrow> S\<lparr>down := True\<rparr>)"

definition sys_leave :: "'w dev_env \<Rightarrow> conn_id_t \<Rightarrow> 'w sys \<Rightarrow> 'w sys" where
  "sys_leave env c S =
     (if down S then S
      else case callback_disc env c (srv S) of
             Some s \<Rightarrow> S\<lparr>srv := s\<rparr>
           | None \<Rightarrow> S\<lparr>down := True\<rparr>)"

definition sys_net :: "'w dev_env \<Rightarrow> u32 \<Rightarrow> 'w sys net_env" where
  "sys_net env u =
     \<lparr>net_init = (\<lambda>S. (True, S)),
      net_connect = (\<lambda>h a S. if next_conn S = cl_invalid then (None, S)
                             else (Some (next_conn S), S\<lparr>next_conn := next_conn S + 1\<rparr>)),
      net_disconnect = (\<lambda>c S. (True, sys_leave env c S)),
      net_send = (\<lambda>c d S. (\<not> down S, sys_serve env u c d S)),
      net_early = (\<lambda>S. ([], S)),
      net_wait = (\<lambda>S. (inbox S, S\<lparr>inbox := []\<rparr>))\<rparr>"

text \<open>The one packet that the server answers a packet with, when nothing else is under way.\<close>

definition sys_answer :: "'w dev_env \<Rightarrow> u32 \<Rightarrow> conn_id_t \<Rightarrow> bvector \<Rightarrow> 'w sys \<Rightarrow> (bvector \<times> 'w sys) option" where
  "sys_answer env u c d S =
     (if down S \<or> inbox S \<noteq> [] then None
      else case callback_data env u c d (srv S) of
             Some (Done [(c', pkt)] n s) \<Rightarrow> if c' = c then Some (pkt, S\<lparr>srv := s\<rparr>) else None
           | _ \<Rightarrow> None)"

lemma sys_answers:
  assumes "sys_answer env u c d S = Some (r, S')"
  shows "\<exists>S1 S2. net_send (sys_net env u) c d S = (True, S1) \<and> net_early (sys_net env u) S1 = ([], S2) \<and>
    net_wait (sys_net env u) S2 = ([(c, r)], S')"
  using assms by (cases S) (auto simp: sys_answer_def sys_net_def sys_serve_def
      split: if_splits option.splits outcome.splits list.splits)

interpretation sys: exchange_link "sys_net env u" "sys_answer env u" for env u
  by unfold_locales (rule sys_answers)

text \<open>Numbers below the next one have been given out; after the last one comes 0, and no more.\<close>

definition sys_used :: "'w sys \<Rightarrow> conn_id_t set" where
  "sys_used S = {k. next_conn S = cl_invalid \<or> k < next_conn S}"

lemma next_number: "n + 1 = 0 \<or> (n :: u32) < n + 1"
proof (cases "uint n + 1 < 2 ^ 32")
  case True
  then have "(uint n + 1) mod 2 ^ 32 = uint n + 1" using uint_ge_0 [of n] by (intro mod_pos_pos_trivial) simp_all
  then show ?thesis by (simp add: word_less_def uint_word_ariths)
next
  case False
  then have "uint n + 1 = 2 ^ 32" using uint_lt2p [of n] by simp
  then have "uint (n + 1) = 0" by (simp add: uint_word_ariths)
  then show ?thesis by (simp add: word_uint_eq_iff)
qed

lemma next_below: "n + 1 \<noteq> 0 \<Longrightarrow> k \<le> n \<Longrightarrow> k < n + 1" for n :: u32
  using next_number [of n] by (auto intro: le_less_trans)

lemma next_conn_serve: "next_conn (sys_serve env u c d S) = next_conn S" "next_conn (sys_leave env c S) = next_conn S"
  by (auto simp: sys_serve_def sys_leave_def split: option.splits outcome.splits)

interpretation sysn: bindy_network "sys_net env u" sys_used for env u
  by unfold_locales (auto simp: sys_net_def sys_used_def next_conn_serve cl_invalid_def split: if_splits
      intro: next_below less_imp_le)

text \<open>A server at rest.\<close>

definition sys_ready :: "usb_confor \<Rightarrow> 'w sys \<Rightarrow> bool" where
  "sys_ready cf S \<longleftrightarrow> server_ready cf (srv S) \<and> \<not> down S \<and> inbox S = []"

lemma sys_answer_done:
  assumes "sys_ready cf S" and "callback_data env u c d (srv S) = Some (Done [(c, r)] n s)"
  shows "sys_answer env u c d S = Some (r, S\<lparr>srv := s\<rparr>)"
  using assms by (simp add: sys_answer_def sys_ready_def)

lemma erase_conn_absent: "find_conn c cs = None \<Longrightarrow> erase_conn c cs = cs"
  by (induction cs) (auto simp: find_conn_def split: if_splits)

text \<open>
  The end of a connection that the server does not know leaves its table alone, unless the device
  with number 0 is open: that is the device it takes an unknown connection for.
\<close>

definition no_device_0 :: "'w sys \<Rightarrow> bool" where
  "no_device_0 S \<longleftrightarrow> map_find (devid_of_id 0) (devices (srv S)) = None"

lemma sys_leave_unknown:
  assumes "sys_ready cf S" and "no_device_0 S" and "find_conn c (conns (srv S)) = None"
  shows "\<exists>s. sys_leave env c S = S\<lparr>srv := s\<rparr> \<and> view s = view (srv S) \<and> server_ready cf s"
proof -
  have idle: "idle (srv S)" "confor (srv S) = Some cf" using assms(1) by (auto simp: sys_ready_def server_ready_def)
  have "spec_remove env c (devid_of_id UINT32_MAX) False (view (srv S)) = view (srv S)"
    using assms(2,3) by (simp add: spec_remove_def spec_remove_known_def meant_def view_def no_device_0_def
        mk_devid_def UINT32_MAX_def erase_conn_absent)
  then obtain s where s: "callback_disc env c (srv S) = Some s" "view s = view (srv S)" "idle s" "confor s = Some cf"
    using remove_ends [OF idle(1), of env c "devid_of_id UINT32_MAX" False] idle(2)
    by (auto simp: callback_disc_def)
  from s(1) have "sys_leave env c S = S\<lparr>srv := s\<rparr>"
    using assms(1) by (simp add: sys_leave_def sys_ready_def)
  with s(2-4) show ?thesis by (auto simp: server_ready_def)
qed

section \<open>The client on this network\<close>

lemma sys_open_connection:
  assumes "heap L p = Some c" and "next_conn (net L) \<noteq> cl_invalid" and "bmap L (next_conn (net L)) = None"
  shows "open_connection (sys_net env u) p L = Some (True,
    L\<lparr>bindy := True, bmap := (bmap L)(next_conn (net L) \<mapsto> p),
      heap := (heap L)(p \<mapsto> c\<lparr>conn_id := next_conn (net L), last_error := 0\<rparr>),
      net := (net L)\<lparr>next_conn := next_conn (net L) + 1\<rparr>\<rparr>)"
  using assms
  by (cases "bindy L") (simp_all add: open_connection_def clr_errors_def set_error_def bh_connect_def
      instance_bindy_def sys_net_def client_order lib_order)

lemma sys_disconnect:
  assumes "heap L p = Some c" and "conn_id c \<noteq> cl_invalid" and "bindy L"
  shows "disconnect (sys_net env u) p L = Some (
    L\<lparr>bmap := (bmap L)(conn_id c := None), heap := (heap L)(p \<mapsto> c\<lparr>conn_id := cl_invalid\<rparr>),
      net := sys_leave env (conn_id c) (net L)\<rparr>)"
  using assms
  by (simp add: disconnect_def bh_disconnect_def instance_bindy_def sys_net_def client_order lib_order)

lemma callback_unknown_version:
  assumes "16 \<le> length d" and "length d < 2 ^ 30" and "word_at d 0 \<notin> {2, 3}"
  shows "callback_data env u c d s = Some (Done [(c, Protocol3_create_error_response ERR_NO_PROTOCOL)] 0 s)"
  using callback_dispatch [OF assms(1,2)] assms(3) by (simp add: send_error_pckt_proto3_def)

lemma callback_open3:
  assumes "server_ready cf s"
  shows "\<exists>s'. callback_data env u c (Protocol3_create_open_request d t) s =
      Some (Done [(c, Protocol3_create_open_response d (if fst (spec_open env cf c d (view s)) then 1 else 0))] 1 s') \<and>
    view s' = snd (spec_open env cf c d (view s)) \<and> server_ready cf s'"
proof -
  have ready: "idle s" "confor s = Some cf" using assms by (simp_all add: server_ready_def)
  obtain s' where s': "open_if_not env c d s = Some (fst (spec_open env cf c d (view s)), s')"
    "view s' = snd (spec_open env cf c d (view s))" "server_ready cf s'"
    using open_ends [OF ready, of env c d] ready by (auto simp: ends_def server_ready_def)
  have words: "word_at (head3 1 0 d) 0 = 3" "word_at (head3 1 0 d) 4 = 1" by (simp_all add: head3_def)
  have "callback_data env u c (head3 1 0 d) s = callback_data3 env u c (MBuf_data (head3 1 0 d) True) 1 s"
    using callback_dispatch [of "head3 1 0 d" env u c s] words by simp
  with s' show ?thesis
    by (simp add: Protocol3_request_bytes callback_data3_def server_plain3 server_proto_def Let_def)
qed

text \<open>Two connections that neither side knows, numbered next.\<close>

definition fresh_pair :: "'w sys lib \<Rightarrow> bool" where
  "fresh_pair L \<longleftrightarrow>
     (let k = next_conn (net L); cs = conns (srv (net L)) in
      k \<noteq> cl_invalid \<and> k + 1 \<noteq> cl_invalid \<and> bmap L k = None \<and> bmap L (k + 1) = None \<and>
      find_conn k cs = None \<and> find_conn (k + 1) cs = None)"

lemma open_request_1: "create_open_request (class_of 1) d t = head12 1 1 (dev_id d)"
  by (simp add: class_of_def Protocol1_request_bytes)

text \<open>The first part of the round: version 1 is refused, the client turns to version 3 and leaves.\<close>

lemma sys_first_try:
  assumes "heap L p = Some c" and "server_protocol_version c = 1" and "fresh_pair L"
    and "sys_ready cf (net L)" and "no_device_0 (net L)"
  shows "\<exists>L1 L2 L3 c3. open_connection (sys_net env u) p L = Some (True, L1) \<and>
    Option.bind (clr_errors p L1) (open_device (sys_net env u) u p) = Some (False, L2) \<and>
    get_last_error p L2 = Some ERR_ANOTHER_PROTOCOL \<and>
    Option.bind (clr_errors p L2) (disconnect (sys_net env u) p) = Some L3 \<and>
    heap L3 p = Some c3 \<and> server_protocol_version c3 = 3 \<and> client_dev_id c3 = client_dev_id c \<and>
    bmap L3 (next_conn (net L) + 1) = None \<and> bindy L3 \<and>
    next_conn (net L3) = next_conn (net L) + 1 \<and> view (srv (net L3)) = view (srv (net L)) \<and> sys_ready cf (net L3)"
proof -
  let ?k = "next_conn (net L)" and ?S = "(net L)\<lparr>next_conn := next_conn (net L) + 1\<rparr>"
  let ?r = "Protocol3_create_error_response ERR_NO_PROTOCOL"
  have fresh: "?k \<noteq> cl_invalid" "?k + 1 \<noteq> cl_invalid" "bmap L ?k = None" "bmap L (?k + 1) = None"
    "find_conn ?k (conns (srv (net L))) = None"
    using assms(3) by (simp_all add: fresh_pair_def Let_def)
  define c1 where "c1 = c\<lparr>conn_id := ?k, last_error := 0\<rparr>"
  define L1 where "L1 = L\<lparr>bindy := True, bmap := (bmap L)(?k \<mapsto> p), heap := (heap L)(p \<mapsto> c1), net := ?S\<rparr>"
  have L1: "open_connection (sys_net env u) p L = Some (True, L1)"
    using sys_open_connection [OF assms(1) fresh(1,3)] by (simp add: L1_def c1_def)
  have c1: "heap L1 p = Some c1" "bmap L1 (conn_id c1) = Some p" "net L1 = ?S" "bindy L1"
    by (simp_all add: L1_def c1_def)
  have clr: "clr_errors p L1 = Some L1"
    by (simp add: clr_errors_def set_error_def upd_def L1_def c1_def)
  have ready: "sys_ready cf ?S" using assms(4) by (simp add: sys_ready_def)
  have "callback_data env u ?k (head12 1 1 (dev_id (client_dev_id c))) (srv ?S) = Some (Done [(?k, ?r)] 0 (srv ?S))"
    by (rule callback_unknown_version) (simp_all add: head12_def)
  from sys_answer_done [OF ready this]
  have answer: "sys_answer env u (conn_id c1) (create_open_request (class_of (server_protocol_version c1)) (client_dev_id c1) 3000)
      (net L1) = Some (?r, ?S)"
    using assms(2) by (simp add: c1_def c1(3) open_request_1)
  have version: "get_version_of_cmd ?r = 3"
    by (simp add: Protocol3_response_bytes head3_def be32_def get_version_of_cmd_def)
  obtain c2 where c2: "open_device (sys_net env u) u p L1 = Some (False, L1\<lparr>heap := (heap L1)(p \<mapsto> c2), net := ?S\<rparr>)"
    "server_protocol_version c2 = 3" "last_error c2 = ERR_ANOTHER_PROTOCOL" "client_dev_id c2 = client_dev_id c"
    "conn_id c2 = ?k"
    using sys.open_device_other [OF c1(1,2) answer] assms(2) version by (auto simp: c1_def)
  define L2 where "L2 = L1\<lparr>heap := (heap L1)(p \<mapsto> c2), net := ?S\<rparr>"
  have L2: "heap L2 p = Some c2" "bindy L2" "net L2 = ?S" "bmap L2 = (bmap L)(?k \<mapsto> p)"
    using c1 by (simp_all add: L2_def L1_def)
  obtain s where s: "sys_leave env ?k ?S = ?S\<lparr>srv := s\<rparr>" "view s = view (srv ?S)" "server_ready cf s"
    using sys_leave_unknown [OF ready, of ?k env] assms(5) fresh(5) by (auto simp: no_device_0_def)
  define L3 where "L3 = L2\<lparr>heap := (heap L2)(p \<mapsto> c2\<lparr>last_error := 0\<rparr>)\<rparr>"
  have clr2: "clr_errors p L2 = Some L3" using L2(1) by (simp add: clr_errors_def set_error_def L3_def)
  define c4 where "c4 = c2\<lparr>last_error := 0, conn_id := cl_invalid\<rparr>"
  define L4 where "L4 = L3\<lparr>bmap := (bmap L3)(?k := None), heap := (heap L3)(p \<mapsto> c4), net := ?S\<lparr>srv := s\<rparr>\<rparr>"
  have L4: "disconnect (sys_net env u) p L3 = Some L4"
    using sys_disconnect [of L3 p "c2\<lparr>last_error := 0\<rparr>" env u] c2(5) fresh(1) L2(2,3) s(1)
    by (simp add: L3_def L4_def c4_def)
  have "heap L4 p = Some c4" "server_protocol_version c4 = 3" "client_dev_id c4 = client_dev_id c"
    "bmap L4 (?k + 1) = None" "bindy L4" "next_conn (net L4) = ?k + 1" "view (srv (net L4)) = view (srv (net L))"
    "sys_ready cf (net L4)"
    using c2 fresh s assms(4) L2 by (simp_all add: L4_def L3_def c4_def sys_ready_def)
  moreover have "Option.bind (clr_errors p L1) (open_device (sys_net env u) u p) = Some (False, L2)"
    "get_last_error p L2 = Some ERR_ANOTHER_PROTOCOL" "Option.bind (clr_errors p L2) (disconnect (sys_net env u) p) = Some L4"
    using clr c2 L2 clr2 L4 by (simp_all add: L2_def [symmetric] get_last_error_def)
  ultimately show ?thesis using L1 by blast
qed

text \<open>The second part: a new connection and the open request of version 3.\<close>

lemma sys_second_try:
  assumes "heap L p = Some c" and "server_protocol_version c = 3" and "k = next_conn (net L)" "k \<noteq> cl_invalid"
    and "bmap L k = None" and "sys_ready cf (net L)"
    and spec: "spec_open env cf k (client_dev_id c) (view (srv (net L))) = (added, tb)"
  shows "\<exists>L1 L2 c2. open_connection (sys_net env u) p L = Some (True, L1) \<and>
    open_device (sys_net env u) u p L1 = Some (added, L2) \<and> heap L2 p = Some c2 \<and>
    last_error c2 = (if added then 0 else ERR_DEVICE_OPEN) \<and> server_protocol_version c2 = 3 \<and>
    client_dev_id c2 = client_dev_id c \<and> conn_id c2 = k \<and> bmap L2 k = Some p \<and> bindy L2 \<and>
    view (srv (net L2)) = tb \<and> sys_ready cf (net L2)"
proof -
  let ?S = "(net L)\<lparr>next_conn := k + 1\<rparr>"
  define c1 where "c1 = c\<lparr>conn_id := k, last_error := 0\<rparr>"
  define L1 where "L1 = L\<lparr>bindy := True, bmap := (bmap L)(k \<mapsto> p), heap := (heap L)(p \<mapsto> c1), net := ?S\<rparr>"
  have L1: "open_connection (sys_net env u) p L = Some (True, L1)"
    using sys_open_connection [OF assms(1)] assms(3-5) by (simp add: L1_def c1_def)
  have c1: "heap L1 p = Some c1" "bmap L1 (conn_id c1) = Some p" "net L1 = ?S" "bindy L1"
    by (simp_all add: L1_def c1_def)
  have ready: "sys_ready cf ?S" "server_ready cf (srv ?S)" using assms(6) by (simp_all add: sys_ready_def)
  obtain s where s: "callback_data env u k (Protocol3_create_open_request (client_dev_id c) 3000) (srv ?S) =
      Some (Done [(k, Protocol3_create_open_response (client_dev_id c) (if added then 1 else 0))] 1 s)"
    "view s = tb" "server_ready cf s"
    using callback_open3 [OF ready(2), of env u k "client_dev_id c" 3000] spec by auto
  have answer: "sys_answer env u (conn_id c1) (Protocol3_create_open_request (client_dev_id c1) 3000) (net L1) =
      Some (Protocol3_create_open_response (client_dev_id c) (if added then 1 else 0), ?S\<lparr>srv := s\<rparr>)"
    using sys_answer_done [OF ready(1) s(1)] by (simp add: c1_def c1(3))
  obtain c2 where "open_device (sys_net env u) u p L1 = Some (added, L1\<lparr>heap := (heap L1)(p \<mapsto> c2), net := ?S\<lparr>srv := s\<rparr>\<rparr>)"
    "server_protocol_version c2 = 3" "last_error c2 = (if added then 0 else ERR_DEVICE_OPEN)"
    "client_dev_id c2 = client_dev_id c" "conn_id c2 = k"
    using sys.open_device_3 [OF c1(1,2) answer] assms(2) by (auto simp: c1_def)
  moreover have "sys_ready cf (?S\<lparr>srv := s\<rparr>)" using assms(6) s(3) by (simp add: sys_ready_def)
  ultimately show ?thesis
    using L1 c1(2,4) s(2)
    by (intro exI [of _ L1] exI [of _ "L1\<lparr>heap := (heap L1)(p \<mapsto> c2), net := ?S\<lparr>srv := s\<rparr>\<rparr>"] exI [of _ c2])
      (simp add: c1_def)
qed

text \<open>A library connected to an open device.\<close>

definition linked_to :: "conn_id_t \<Rightarrow> devid \<Rightarrow> 'w lib \<Rightarrow> bool" where
  "linked_to k d L \<longleftrightarrow>
     k \<noteq> cl_invalid \<and>
     (case bmap L k of
        None \<Rightarrow> False
      | Some p \<Rightarrow>
          (case heap L p of
             None \<Rightarrow> False
           | Some c \<Rightarrow> conn_id c = k \<and> client_dev_id c = d \<and> server_protocol_version c = 3))"

lemma sys_open_device_connection:
  fixes L :: "'w sys lib"
  assumes "sys_ready cf (net L)" and "no_device_0 (net L)" and "fresh_pair L" and "base_version L = 1"
    and "xibridge_parse_uri_dev12 uri True = (0, Some parsed)"
    and spec: "spec_open env cf (next_conn (net L) + 1) (uri_device_id parsed) (view (srv (net L))) = (added, tb)"
  shows "\<exists>L'. xibridge_open_device_connection (sys_net env u) u junk uri True L =
      Some (if added then (0, Some \<lparr>ct_conn_id = next_conn (net L) + 1,
                                    ct_proto_ver = \<lparr>major = 3, minor = 0, bagfix = 0\<rparr>\<rparr>)
            else (ERR_DEVICE_OPEN, None), L') \<and>
    view (srv (net L')) = tb \<and> sys_ready cf (net L') \<and>
    (added \<longrightarrow> linked_to (next_conn (net L) + 1) (uri_device_id parsed) L')"
proof -
  let ?p = "next_ptr L" and ?k = "next_conn (net L) + 1" and ?env = "sys_net env u"
  obtain c where c: "new_client u junk uri None L =
      Some (?p, L\<lparr>heap := (heap L)(?p \<mapsto> c), next_ptr := ?p + 1\<rparr>)"
    "server_protocol_version c = base_version L" "client_dev_id c = uri_device_id parsed"
    using new_client_device [OF assms(5)] by blast
  define L0 where "L0 = L\<lparr>heap := (heap L)(?p \<mapsto> c), next_ptr := ?p + 1\<rparr>"
  have L0: "heap L0 ?p = Some c" "server_protocol_version c = 1" "fresh_pair L0" "net L0 = net L"
    "sys_ready cf (net L0)" "no_device_0 (net L0)"
    using assms(1-4) c(2) by (simp_all add: L0_def fresh_pair_def)
  obtain L1 L2 L3 c3 where first: "open_connection ?env ?p L0 = Some (True, L1)"
    "Option.bind (clr_errors ?p L1) (open_device ?env u ?p) = Some (False, L2)"
    "get_last_error ?p L2 = Some ERR_ANOTHER_PROTOCOL"
    "Option.bind (clr_errors ?p L2) (disconnect ?env ?p) = Some L3"
    "heap L3 ?p = Some c3" "server_protocol_version c3 = 3" "client_dev_id c3 = client_dev_id c"
    "bmap L3 ?k = None" "next_conn (net L3) = ?k" "view (srv (net L3)) = view (srv (net L))" "sys_ready cf (net L3)"
    using sys_first_try [OF L0(1-3,5,6), of env u] L0(4) by auto
  have k: "?k \<noteq> cl_invalid" using assms(3) by (simp add: fresh_pair_def Let_def)
  have "spec_open env cf ?k (client_dev_id c3) (view (srv (net L3))) = (added, tb)"
    using spec c(3) first(7,10) by simp
  then obtain L4 L5 c5 where second: "open_connection ?env ?p L3 = Some (True, L4)"
    "open_device ?env u ?p L4 = Some (added, L5)" "heap L5 ?p = Some c5"
    "last_error c5 = (if added then 0 else ERR_DEVICE_OPEN)" "server_protocol_version c5 = 3"
    "client_dev_id c5 = client_dev_id c3" "conn_id c5 = ?k" "bmap L5 ?k = Some ?p" "bindy L5"
    "view (srv (net L5)) = tb" "sys_ready cf (net L5)"
    using sys_second_try [OF first(5,6) first(9) [symmetric] k first(8,11), of env added tb u] by blast
  define code where "code = (if added then 0 else ERR_DEVICE_OPEN)"
  obtain L1' where clr1: "clr_errors ?p L1 = Some L1'" "open_device ?env u ?p L1' = Some (False, L2)"
    using first(2) by (cases "clr_errors ?p L1") auto
  obtain L2' where clr2: "clr_errors ?p L2 = Some L2'" "disconnect ?env ?p L2' = Some L3"
    using first(4) by (cases "clr_errors ?p L2") auto
  have "get_last_error ?p L5 = Some code" using second(3,4) by (simp add: get_last_error_def code_def)
  then have round: "open_round ?env u ?p L0 = Some (Stop code (), L5)"
    using first(1,3) clr1 clr2 second(1,2) by (simp add: open_round_def)
  have three: "unat (major xbc_get_last_protocol_version) = Suc 2"
    by (simp add: xbc_get_last_protocol_version_def DEFAULT_PROTO_VERSION_def)
  have rounds: "rounds (Suc 2) (open_round ?env u ?p) (u, ()) L0 = Some (Stop code (), L5)"
    by (subst rounds.simps) (simp add: round)
  have call: "xibridge_open_device_connection ?env u junk uri True L =
      (if code \<noteq> 0 then Option.bind (disconnect ?env ?p L5) (\<lambda>L. Some ((code, None), delete_client ?p L))
       else Some ((code, Some (to_xibridge_conn_t c5)), L5))"
    unfolding xibridge_open_device_connection_def three using c(1) rounds second(3) by (simp add: L0_def)
  show ?thesis
  proof (cases added)
    case True
    then have "linked_to ?k (uri_device_id parsed) L5"
      using second first(7) c(3) k by (simp add: linked_to_def)
    with True call second show ?thesis by (simp add: code_def to_xibridge_conn_t_def)
  next
    case False
    have "tdev tb = devices (srv (net L))" "tconn tb = conns (srv (net L))"
      using spec False by (auto simp: spec_open_def view_def Let_def split: if_splits prod.splits)
    then have "find_conn ?k (conns (srv (net L5))) = None" "no_device_0 (net L5)"
      using second(10) assms(2,3) by (auto simp: view_def no_device_0_def fresh_pair_def Let_def)
    then obtain s where "sys_leave env ?k (net L5) = (net L5)\<lparr>srv := s\<rparr>" "view s = tb" "server_ready cf s"
      using sys_leave_unknown [OF second(11)] second(10) by auto
    with False call second sys_disconnect [OF second(3), of env u] k show ?thesis
      by (simp add: code_def delete_client_def ERR_DEVICE_OPEN_def sys_ready_def)
  qed
qed

text \<open>A request over a connected library: the device's answer, or the code for its failure.\<close>

lemma sys_request:
  fixes L :: "'w sys lib"
  assumes "linked_to k d L" and "sys_ready cf (net L)" and "medium data"
    and "map_find d (devices (srv (net L))) = Some (Some h)"
    and "com_request env h (take (length data mod 256) data) (ucast n) (world (srv (net L))) = (r, bs, w)"
    and "length bs \<le> unat n" and "unat n < 2 ^ 31 - 8192"
  shows "\<exists>L'. xibridge_device_request_response (sys_net env u) u (Some \<lparr>ct_conn_id = k, ct_proto_ver = v\<rparr>) data True n L =
      Some (if r = xib_result_ok then (0, bs @ replicate (unat n - length bs) 0)
            else (xib_errors_to_xibridge r, []), L') \<and>
    linked_to k d L' \<and> sys_ready cf (net L')"
proof -
  obtain p c where p: "bmap L k = Some p" "heap L p = Some c" "conn_id c = k" "client_dev_id c = d"
    "server_protocol_version c = 3" "k \<noteq> cl_invalid"
    using assms(1) by (auto simp: linked_to_def split: option.splits)
  define pl where "pl = bs @ replicate (unat n - length bs) 0"
  let ?r = "if r = xib_result_ok then Protocol3_create_cmd_response d pl
      else Protocol3_create_error_response (xib_errors_to_xibridge r)"
  let ?obj = "\<lparr>is_server = False, res_err = u, perror = 0\<rparr>"
  let ?out = "if r = xib_result_ok then accepted ?obj 0 pl 0xFD
      else accepted (?obj\<lparr>perror := xib_errors_to_xibridge r\<rparr>) (xib_errors_to_xibridge r) [] 0xFA"
  have fill: "fill bs (replicate (unat n) 0) = pl" by (simp add: pl_def fill_def overwrite_def)
  obtain s where s: "callback_data env u k (Protocol3_create_cmd_request d 3000 (Some data) n) (srv (net L)) =
      Some (Done [(k, ?r)] 0 s)" "server_ready cf s"
    using callback_cmd3 [OF _ assms(3-5), of cf u k 3000] assms(2) fill by (auto simp: sys_ready_def)
  have answer: "sys_answer env u (conn_id c) (Protocol3_create_cmd_request (client_dev_id c) 3000 (Some data) n) (net L) =
      Some (?r, (net L)\<lparr>srv := s\<rparr>)"
    using sys_answer_done [OF assms(2) s(1)] p(3,4) by simp
  have len: "length pl = unat n" using assms(6) by (simp add: pl_def)
  then have short: "short pl" using assms(7) by simp
  have parse: "get_data_from_bindy_callback Proto3 ?obj (MBuf_data ?r True) u = ?out"
    using short by (simp add: Protocol3_response_bytes client_data3 client_error3)
  then obtain x where x: "get_data_from_bindy_callback Proto3 ?obj (MBuf_data ?r True) u = Some x" "cd_ok x"
    "cd_data x = (if r = xib_result_ok then pl else [])"
    "perror (cd_proto x) = (if r = xib_result_ok then 0 else xib_errors_to_xibridge r)"
    by (cases "r = xib_result_ok") auto
  have "short data" using assms(3) by simp
  obtain c' where c': "send_data_and_receive (sys_net env u) u p data n L =
      Some (cd_data x, L\<lparr>heap := (heap L)(p \<mapsto> c'), net := (net L)\<lparr>srv := s\<rparr>\<rparr>)"
    "last_error c' = perror (cd_proto x)" "server_protocol_version c' = 3" "client_dev_id c' = d" "conn_id c' = k"
    using sys.send_data_and_receive_3 [OF p(2) _ _ p(5) \<open>short data\<close> answer x(1,2)] p by auto
  have vec: "to_vector (MBuf_data data True) False = data" by (simp add: to_vector_def MBuf_data_def)
  have "linked_to k d (L\<lparr>heap := (heap L)(p \<mapsto> c'), net := (net L)\<lparr>srv := s\<rparr>\<rparr>)"
    using p c' by (simp add: linked_to_def)
  moreover have "sys_ready cf ((net L)\<lparr>srv := s\<rparr>)" using assms(2) s(2) by (simp add: sys_ready_def)
  moreover have "take (unat n) pl = pl" using len by simp
  ultimately show ?thesis
    using p(1) c' vec x(3,4) len
    by (auto simp: pl_def [symmetric] xibridge_device_request_response_def xbc_request_response_def get_client_as_free_def
        get_last_error_def unat_eq_zero split: if_splits)
qed

section \<open>The serial layer below\<close>

text \<open>The table's device layer is the serial one: its requests get a response buffer full of zeroes.\<close>

definition over_serial :: "'w sp_lib \<Rightarrow> 'w dev_env \<Rightarrow> bool" where
  "over_serial lib env \<longleftrightarrow>
     (\<forall>h req n w r buf w'. xib_com_device_send_request lib (Some h) req (replicate (unat n) 0) w = Some (r, buf, w') \<longrightarrow>
        com_request env h req n w = (r, buf, w'))"

end
