(* ===== verification/Supervisor.thy ===== *)
theory Supervisor
  imports C_Text
begin

text \<open>
  The supervisor of the server's handler, \<open>server/supervisor.cpp\<close>: every call of the handler takes a
  resource and gives it back, a thread looks for resources taken too often, restarts their slot and
  sets their count to 0. The calls and the thread's steps come in any order; each step that holds
  the mutex of the map is one event.
\<close>

section \<open>State and operations\<close>

text \<open>
  \<open>resources\<close> is the map of counts, \<open>commands\<close> what was given to \<open>system\<close>. The field \<open>limit\<close> is set
  and not read: the thread compares with \<open>LIMIT\<close>.
\<close>

record supervisor =
  resources :: "string \<rightharpoonup> int"
  work :: bool
  limit :: int
  commands :: "string list"

definition LIMIT :: int where
  "LIMIT = 30"

definition supervisor_init :: supervisor where
  "supervisor_init = \<lparr>resources = Map.empty, work = True, limit = LIMIT, commands = []\<rparr>"

text \<open>An exception is its text.\<close>

definition set_limit :: "int \<Rightarrow> supervisor \<Rightarrow> string + supervisor" where
  "set_limit new_limit s =
     (if new_limit < 2 then Inl ''Invalid supervisor limit value'' else Inr (s\<lparr>limit := new_limit\<rparr>))"

definition stop :: "supervisor \<Rightarrow> supervisor" where
  "stop s = s\<lparr>work := False\<rparr>"

definition acquire_resource :: "string \<Rightarrow> supervisor \<Rightarrow> supervisor" where
  "acquire_resource resource s =
     (if \<not> work s then s
      else case resources s resource of
             None \<Rightarrow> s\<lparr>resources := (resources s)(resource \<mapsto> 0)\<rparr>
           | Some n \<Rightarrow> s\<lparr>resources := (resources s)(resource \<mapsto> n + 1)\<rparr>)"

definition release_resource :: "string \<Rightarrow> supervisor \<Rightarrow> string + supervisor" where
  "release_resource resource s =
     (if \<not> work s then Inr s
      else case resources s resource of
             Some n \<Rightarrow>
               let s = s\<lparr>resources := (resources s)(resource \<mapsto> n - 1)\<rparr> in
               Inr (if n - 1 < 0 then s\<lparr>resources := (resources s)(resource := None)\<rparr> else s)
           | None \<Rightarrow> Inl (''Resource '' @ resource @ '' not acquired''))"

text \<open>The thread on an entry: whether it is over the limit; off, on again, and the count reset.\<close>

definition over_limit :: "string \<Rightarrow> supervisor \<Rightarrow> bool" where
  "over_limit resource s \<longleftrightarrow> (case resources s resource of None \<Rightarrow> False | Some n \<Rightarrow> n > LIMIT)"

fun dec_string :: "nat \<Rightarrow> string" where
  "dec_string n = (if n < 10 then [hex_digits ! n] else dec_string (n div 10) @ [hex_digits ! (n mod 10)])"

declare dec_string.simps [simp del]

definition to_string :: "int \<Rightarrow> string" where
  "to_string i = (if i < 0 then CHR ''-'' # dec_string (nat (- i)) else dec_string (nat i))"

text \<open>\<open>std::stoi\<close> throws on a text without a number and on a number outside \<open>int\<close>.\<close>

definition stoi :: "string \<Rightarrow> int option" where
  "stoi s = map_option fst (scan_d s)"

definition switch_slot :: "string \<Rightarrow> string \<Rightarrow> supervisor \<Rightarrow> string + supervisor" where
  "switch_slot value resource s =
     (case stoi resource of
        None \<Rightarrow> Inl ''stoi''
      | Some slot \<Rightarrow>
          Inr (s\<lparr>commands := commands s @ [''echo '' @ value @ '' > /opt/gpio/slot'' @ to_string slot @ ''/value'']\<rparr>))"

definition reset_counter :: "string \<Rightarrow> supervisor \<Rightarrow> supervisor" where
  "reset_counter resource s =
     (if resources s resource \<noteq> None then s\<lparr>resources := (resources s)(resource \<mapsto> 0)\<rparr> else s)"

section \<open>Events\<close>

text \<open>
  The constructor and the destructor of \<open>SupervisorLock\<close>, and the steps of the thread on an entry.
  An exception leaves a destructor or the thread's function: the program ends there.
\<close>

datatype event = Lock string | Unlock string | Off string | On string | Reset string

fun sv_event :: "event \<Rightarrow> supervisor \<Rightarrow> string + supervisor" where
  "sv_event (Lock r) s = Inr (acquire_resource r s)"
| "sv_event (Unlock r) s = release_resource r s"
| "sv_event (Off r) s = switch_slot ''0'' r s"
| "sv_event (On r) s = switch_slot ''1'' r s"
| "sv_event (Reset r) s = Inr (reset_counter r s)"

fun sv_run :: "event list \<Rightarrow> supervisor \<Rightarrow> string + supervisor" where
  "sv_run [] s = Inr s"
| "sv_run (e # es) s = (case sv_event e s of Inl x \<Rightarrow> Inl x | Inr s \<Rightarrow> sv_run es s)"

text \<open>
  How many locks on a resource live after the events, and that only living locks end. \<open>calm\<close> events
  are those of the handler.
\<close>

fun held :: "event list \<Rightarrow> string \<Rightarrow> int" where
  "held [] r = 0"
| "held (e # es) r = held es r + (if e = Lock r then 1 else if e = Unlock r then -1 else 0)"

definition disciplined :: "event list \<Rightarrow> bool" where
  "disciplined es \<longleftrightarrow> (\<forall>n r. 0 \<le> held (take n es) r)"

fun is_lock :: "event \<Rightarrow> bool" where
  "is_lock (Lock r) = True"
| "is_lock (Unlock r) = True"
| "is_lock e = False"

definition calm :: "event list \<Rightarrow> bool" where
  "calm es \<longleftrightarrow> list_all is_lock es"

section \<open>Counts\<close>

lemma sv_run_append:
  "sv_run (es @ es') s = (case sv_run es s of Inl x \<Rightarrow> Inl x | Inr s \<Rightarrow> sv_run es' s)"
  by (induction es arbitrary: s) (auto split: sum.splits)

lemma held_append: "held (es @ es') r = held es r + held es' r"
  by (induction es) auto

definition counts :: "(string \<Rightarrow> int) \<Rightarrow> supervisor \<Rightarrow> bool" where
  "counts h s \<longleftrightarrow> work s \<and> (\<forall>r. resources s r = (if h r = 0 then None else Some (h r - 1)))"

lemma disciplined_snoc: "disciplined (es @ [e]) \<longleftrightarrow> disciplined es \<and> (\<forall>r. 0 \<le> held (es @ [e]) r)"
proof
  assume d: "disciplined (es @ [e])"
  have "0 \<le> held (take n es) r" for n r
    using d unfolding disciplined_def by (cases "n \<le> length es") (metis take_append diff_is_0_eq take_0 append_Nil2,
      metis take_all nat_le_linear append_eq_conv_conj)
  moreover have "0 \<le> held (es @ [e]) r" for r
    using d unfolding disciplined_def by (metis take_all order_refl)
  ultimately show "disciplined es \<and> (\<forall>r. 0 \<le> held (es @ [e]) r)" by (simp add: disciplined_def)
next
  assume d: "disciplined es \<and> (\<forall>r. 0 \<le> held (es @ [e]) r)"
  have "0 \<le> held (take n (es @ [e])) r" for n r
    using d by (cases "n \<le> length es") (auto simp: disciplined_def)
  then show "disciplined (es @ [e])" by (simp add: disciplined_def)
qed

lemma disciplined_held: "disciplined es \<Longrightarrow> 0 \<le> held es r"
  unfolding disciplined_def by (metis take_all order_refl)

lemma counts_event:
  assumes "counts h s" and "\<And>r. 0 \<le> h r" and "is_lock e" and "\<And>r. 0 \<le> h r + held [e] r"
  shows "\<exists>s'. sv_event e s = Inr s' \<and> counts (\<lambda>r. h r + held [e] r) s'"
proof (cases e)
  case (Lock r)
  have "h q + 1 \<noteq> 0" for q using assms(2) [of q] by simp
  with Lock assms(1) show ?thesis by (auto simp: counts_def acquire_resource_def)
next
  case (Unlock r)
  have "h r \<noteq> 0" using assms(4) [of r] Unlock by auto
  moreover from this have "h r < 2 \<longleftrightarrow> h r = 1" using assms(2) [of r] by arith
  ultimately show ?thesis using Unlock assms(1)
    by (auto simp: counts_def release_resource_def Let_def)
qed (use assms(3) in auto)

lemma sv_run_counts:
  "disciplined es \<Longrightarrow> calm es \<Longrightarrow> \<exists>s. sv_run es supervisor_init = Inr s \<and> counts (held es) s"
proof (induction es rule: rev_induct)
  case Nil
  then show ?case by (simp add: supervisor_init_def counts_def)
next
  case (snoc e es)
  have d: "disciplined es" "0 \<le> held (es @ [e]) r" for r using snoc.prems(1) by (auto simp: disciplined_snoc)
  have calm: "calm es" "is_lock e" using snoc.prems(2) by (auto simp: calm_def)
  obtain s where s: "sv_run es supervisor_init = Inr s" "counts (held es) s"
    using snoc.IH [OF d(1) calm(1)] by blast
  obtain s' where "sv_event e s = Inr s'" "counts (\<lambda>r. held es r + held [e] r) s'"
    using counts_event [OF s(2) disciplined_held [OF d(1)] calm(2)] d(2) by (auto simp: held_append)
  moreover have "held (es @ [e]) = (\<lambda>r. held es r + held [e] r)" by (rule ext) (rule held_append)
  ultimately show ?case using s(1) by (simp add: sv_run_append)
qed

text \<open>
  C31: as long as the thread resets nothing, no end of a lock throws, the count of a resource is the
  number of living locks less one, and the thread acts on a resource exactly from 32 living locks on.
\<close>

theorem supervisor_counts:
  assumes "disciplined es" and "calm es"
  shows "\<exists>s. sv_run es supervisor_init = Inr s \<and>
    (\<forall>r. resources s r = (if held es r = 0 then None else Some (held es r - 1)) \<and>
         (over_limit r s \<longleftrightarrow> 32 \<le> held es r))"
proof -
  obtain s where s: "sv_run es supervisor_init = Inr s" "counts (held es) s"
    using sv_run_counts [OF assms] by blast
  then have "over_limit r s \<longleftrightarrow> 32 \<le> held es r" for r by (auto simp: over_limit_def LIMIT_def counts_def)
  with s show ?thesis by (auto simp: counts_def)
qed

text \<open>
  C32: a restart of a slot while two locks live ends the server: the count is set to 0, the first of
  the locks to end takes it below zero and the entry away, the second finds no entry and throws out
  of a destructor.
\<close>

theorem supervisor_restart_ends_server:
  assumes "disciplined es" and "calm es" and "2 \<le> held es r" and "stoi r = Some slot"
  shows "sv_run (es @ [Off r, On r, Reset r, Unlock r, Unlock r]) supervisor_init =
      Inl (''Resource '' @ r @ '' not acquired'') \<and>
    disciplined (es @ [Off r, On r, Reset r, Unlock r, Unlock r])"
proof
  obtain s where "sv_run es supervisor_init = Inr s" "counts (held es) s"
    using sv_run_counts [OF assms(1,2)] by blast
  with assms(3,4) show "sv_run (es @ [Off r, On r, Reset r, Unlock r, Unlock r]) supervisor_init =
      Inl (''Resource '' @ r @ '' not acquired'')"
    by (simp add: sv_run_append counts_def switch_slot_def reset_counter_def release_resource_def)
  have split: "es @ [Off r, On r, Reset r, Unlock r, Unlock r] =
      ((((es @ [Off r]) @ [On r]) @ [Reset r]) @ [Unlock r]) @ [Unlock r]" by simp
  show "disciplined (es @ [Off r, On r, Reset r, Unlock r, Unlock r])"
    using assms(1,3) disciplined_held [OF assms(1)]
    unfolding split disciplined_snoc by (auto simp: held_append)
qed

text \<open>Thirty-two calls of the handler at once, for one resource.\<close>

lemma held_locks: "held (replicate n (Lock r)) q = (if q = r then int n else 0)"
  by (induction n) auto

lemma locks_disciplined: "disciplined (replicate n (Lock r))" "calm (replicate n (Lock r))"
  by (auto simp: disciplined_def calm_def held_locks list_all_iff)

theorem supervisor_counts_witness:
  "\<exists>s. sv_run (replicate 32 (Lock ''0'')) supervisor_init = Inr s \<and> resources s ''0'' = Some 31 \<and> over_limit ''0'' s"
  using supervisor_counts [OF locks_disciplined [of 32 "''0''"]] by (auto simp: held_locks)

theorem supervisor_restart_ends_server_witness:
  "sv_run (replicate 32 (Lock ''0'') @ [Off ''0'', On ''0'', Reset ''0'', Unlock ''0'', Unlock ''0'']) supervisor_init =
    Inl ''Resource 0 not acquired''"
proof -
  have "stoi ''0'' = Some 0"
    by (simp add: stoi_def scan_d_def scan_sign_def c_isspace_def is_digit_def digit_val_def digits_val_def)
  then show ?thesis
    using supervisor_restart_ends_server [OF locks_disciplined [of 32 "''0''"], of "''0''" 0] by (simp add: held_locks)
qed

end
