(* ===== verification/Server_Main.thy ===== *)
theory Server_Main
  imports Server_Properties
begin

text \<open>
  The start of the server: the options of the console program (\<open>main\<close> of
  \<open>server/xibridge_server.cpp\<close>) and \<open>server_main\<close> with its variant for a thread
  (\<open>server/xibridge_server_lib.cpp\<close>), on a build without a supervisor for an operating system other
  than macOS. Whether another server runs and the network initialises, and bindy's start, are
  parameters; output on the console and the log are not modelled.
\<close>

section \<open>Options\<close>

definition tolower_char :: "char \<Rightarrow> char" where
  "tolower_char c =
     (let n = (of_char c :: nat) in if 65 \<le> n \<and> n \<le> 90 then char_of (n + 32) else c)"

definition strlwr_portable :: "string \<Rightarrow> string" where
  "strlwr_portable str = map tolower_char str"

definition wants_help :: "string list \<Rightarrow> bool" where
  "wants_help args \<longleftrightarrow>
     (\<exists>s \<in> set (map strlwr_portable args). s \<in> {''-help'', ''help'', ''--help'', ''-h'', ''--h''})"

definition mode_names :: "string list" where
  "mode_names = [''by_com_addr'', ''by_serial'', ''by_serialpidvid'', ''bvvu'']"

text \<open>
  The mode (and the arguments before it), from the last argument, which the search for help has
  turned into lower case.
\<close>

definition select_mode :: "string list \<Rightarrow> string \<times> string list" where
  "select_mode args =
     (if args = [] then (''bvvu'', args)
      else
        let s = last args in
        if s = ''urpc'' then (''by_com_addr'', butlast args)
        else if s = ''ximc'' then (''by_serial'', butlast args)
        else if s = ''ximc_ext'' then (''by_serialpidvid'', butlast args)
        else if s \<in> set mode_names then (s, butlast args)
        else (''bvvu'', args))"

definition select_debug :: "string list \<Rightarrow> string option" where
  "select_debug args =
     (if args \<noteq> [] \<and> (hd args = ''debug'' \<or> (length args > 1 \<and> args ! 1 = ''debug''))
      then Some ''debug'' else None)"

text \<open>Key file, debug option and mode as \<open>main\<close> passes them on; \<open>None\<close> is the help.\<close>

definition console_options :: "string list \<Rightarrow> (string option \<times> string option \<times> string) option" where
  "console_options args =
     (if wants_help args then None
      else let args = map strlwr_portable args;
               (mode, args) = select_mode args;
               keyfile = None
           in Some (keyfile, select_debug args, mode))"

section \<open>Start\<close>

text \<open>Return codes, or the server at work: key file, log level, "devices rescanned" calls, table.\<close>

datatype 'w started = Sm_err_allstarted | Sm_err_initfailed | Sm_running string bool nat "'w msu"

definition sm_err_allstarted :: int where "sm_err_allstarted = 1"
definition sm_err_initfailed :: int where "sm_err_initfailed = 2"

text \<open>The static objects before: an empty table, no mutexes, no configurator, no list of ports.\<close>

definition msu_init :: "'w \<Rightarrow> 'w msu" where
  "msu_init w = \<lparr>devices = [], conns = [], rwl = ReadWriteLock, pool = [], pool_rwl = ReadWriteLock,
     confor = None, pports = None, world = w\<rparr>"

definition select_confor :: "string option \<Rightarrow> usb_confor option" where
  "select_confor dev2usb_mode =
     (case dev2usb_mode of
        None \<Rightarrow> None
      | Some s \<Rightarrow>
          let susb_m = (if s \<in> set mode_names then s else ''bvvu'')
          in create_appropriate_dev_id_2_usb_configurator susb_m)"

definition server_main ::
    "'w dev_env \<Rightarrow> bool \<Rightarrow> int \<Rightarrow> string option \<Rightarrow> string option \<Rightarrow> string option \<Rightarrow> 'w msu \<Rightarrow> 'w started" where
  "server_main env already init keyfile debug dev2usb_mode s =
     (if already then Sm_err_allstarted
      else if init \<noteq> 0 then Sm_err_initfailed
      else
        let s = s\<lparr>confor := select_confor dev2usb_mode\<rparr>;
            (scan, w) = com_scan env (world s);
            s = s\<lparr>pports := list_sp_ports False scan (pports s), world := w\<rparr>
        in Sm_running (case keyfile of None \<Rightarrow> [] | Some k \<Rightarrow> k) (debug = Some ''debug'') 1 s)"

definition server_main_as_dev2usb_by_spv_min ::
    "'w dev_env \<Rightarrow> bool \<Rightarrow> int \<Rightarrow> bool \<Rightarrow> 'w msu \<Rightarrow> 'w started" where
  "server_main_as_dev2usb_by_spv_min env already init debug s =
     server_main env already init None (if debug then Some ''debug'' else None) (Some ''by_serialpidvid'') s"

definition ret_code :: "'w started \<Rightarrow> int" where
  "ret_code r = (case r of Sm_err_allstarted \<Rightarrow> sm_err_allstarted | Sm_err_initfailed \<Rightarrow> sm_err_initfailed
                 | Sm_running k d n s \<Rightarrow> 0)"

text \<open>\<open>main\<close>: help ends the program with 0.\<close>

definition console_main :: "'w dev_env \<Rightarrow> bool \<Rightarrow> int \<Rightarrow> string list \<Rightarrow> 'w msu \<Rightarrow> int \<times> 'w started option" where
  "console_main env already init args s =
     (case console_options args of
        None \<Rightarrow> (0, None)
      | Some (keyfile, debug, mode) \<Rightarrow>
          let r = server_main env already init keyfile debug (Some mode) s in (ret_code r, Some r))"

section \<open>Properties\<close>

lemma select_mode_known: "fst (select_mode args) \<in> set mode_names"
  by (simp add: select_mode_def mode_names_def Let_def)

lemma mode_confor: "m \<in> set mode_names \<Longrightarrow> \<exists>cf. select_confor (Some m) = Some cf"
  by (auto simp: mode_names_def select_confor_def create_appropriate_dev_id_2_usb_configurator_def)

text \<open>
  Whatever its arguments are, the console program either shows its help, or refuses to start for
  one of two reasons with their codes, or runs with an empty table that is ready for requests, with
  the configurator that the last argument names (in any case, or by its old name) and by default
  that of bvvu. The key file it runs with is always empty, also when one is named.
\<close>

theorem console_start:
  "case console_main env already init args (msu_init w) of
     (code, None) \<Rightarrow> wants_help args \<and> code = 0
   | (code, Some r) \<Rightarrow>
       if already then r = Sm_err_allstarted \<and> code = 1
       else if init \<noteq> 0 then r = Sm_err_initfailed \<and> code = 2
       else \<exists>debug s cf. r = Sm_running [] debug 1 s \<and> code = 0 \<and> server_ready cf s \<and> devices s = [] \<and>
         cf = (let m = (if args = [] then [] else strlwr_portable (last args)) in
               if m = ''urpc'' \<or> m = ''by_com_addr'' then DevId2UsbByComOrAddr
               else if m = ''ximc'' \<or> m = ''by_serial'' then DevId2UsbBySerial
               else if m = ''ximc_ext'' \<or> m = ''by_serialpidvid'' then DevId2UsbBySerialPidVid
               else DevId2UsbBvvu)"
proof (cases "wants_help args")
  case True
  then show ?thesis by (simp add: console_main_def console_options_def)
next
  case False
  let ?args = "map strlwr_portable args"
  let ?m = "if args = [] then [] else strlwr_portable (last args)"
  obtain mode rest where mode: "select_mode ?args = (mode, rest)" by fastforce
  have known: "mode \<in> set mode_names" using select_mode_known [of ?args] mode by simp
  have confor: "select_confor (Some mode) = Some (
      if ?m = ''urpc'' \<or> ?m = ''by_com_addr'' then DevId2UsbByComOrAddr
      else if ?m = ''ximc'' \<or> ?m = ''by_serial'' then DevId2UsbBySerial
      else if ?m = ''ximc_ext'' \<or> ?m = ''by_serialpidvid'' then DevId2UsbBySerialPidVid
      else DevId2UsbBvvu)"
    using mode by (auto simp: select_mode_def mode_names_def last_map Let_def select_confor_def
        create_appropriate_dev_id_2_usb_configurator_def split: if_splits)
  have "console_options args = Some (None, select_debug rest, mode)"
    using False mode by (simp add: console_options_def Let_def)
  then show ?thesis
    using confor
    by (auto simp: console_main_def server_main_def ret_code_def sm_err_allstarted_def sm_err_initfailed_def
        server_ready_def idle_def msu_init_def Let_def split: prod.splits)
qed

end
