(* ===== verification/Server_Thread.thy ===== *)
theory Server_Thread
  imports Server_Main
begin

text \<open>
  The server inside a graphical program (\<open>server/xibridge_server_lib.cpp\<close>): the thread that runs
  \<open>server_main_as_dev2usb_by_spv_min\<close>, the calls \<open>start_server_thread_spv\<close> and
  \<open>stop_server_thread\<close> of the program's own thread, which share \<open>wait_st\<close>, \<open>ret_code\<close> and the
  text of the last exception, and the log that both sides use. What \<open>server_main\<close> meets (another
  server at work, a network that does not initialise, a bindy that throws) is a parameter.
\<close>

section \<open>The log for the program\<close>

text \<open>
  \<open>_actual_log_data\<close> under \<open>_log_lock\<close>: a message is the bytes from \<open>msg->buf\<close> up to \<open>msg->p\<close>,
  where the end of line is put.
\<close>

definition ZF_LOG_EOL :: string where
  "ZF_LOG_EOL = [char_of (10::nat)]"

definition zf_log_out_buffer_callback :: "string \<Rightarrow> string \<Rightarrow> string" where
  "zf_log_out_buffer_callback msg actual_log_data = actual_log_data @ ZF_LOG_EOL @ msg @ ZF_LOG_EOL"

definition get_last_log :: "string \<Rightarrow> string \<times> string" where
  "get_last_log actual_log_data = (actual_log_data, [])"

datatype log_event = Message string | Read_log

text \<open>What the readings returned, and what is left, after a sequence of messages and readings.\<close>

fun log_run :: "log_event list \<Rightarrow> string \<Rightarrow> string list \<times> string" where
  "log_run [] d = ([], d)"
| "log_run (Message m # es) d = log_run es (zf_log_out_buffer_callback m d)"
| "log_run (Read_log # es) d =
     (let (ret, d) = get_last_log d; (rets, d) = log_run es d in (ret # rets, d))"

fun messages :: "log_event list \<Rightarrow> string list" where
  "messages [] = []"
| "messages (Message m # es) = m # messages es"
| "messages (Read_log # es) = messages es"

section \<open>The two threads\<close>

text \<open>
  How far the server's thread is: cleared the buffers; refused to start; at bindy; about to set
  \<open>wait_st\<close>, after the handlers; in the loop \<open>while (wait_st)\<close>; about to store the return code;
  finished. The program: without a server; in the pause of \<open>start_server_thread_spv\<close>; at work; in
  \<open>join\<close>.
\<close>

datatype server_pos = S_begin | S_connect | S_set | S_wait | S_return int | S_done
datatype program_pos = P_off | P_sleep | P_on | P_join

record threads =
  wait_st :: bool
  shared_ret_code :: int
  except_buffer :: string
  server_at :: server_pos
  program_at :: program_pos
  told :: "(int \<times> bool) list"

text \<open>Already started, result of \<open>initialization\<close>, text of bindy's exception.\<close>

record meets =
  m_already :: bool
  m_init :: int
  m_throws :: "string option"

definition EXCEPT_BUFFER_SIZE :: nat where
  "EXCEPT_BUFFER_SIZE = 1024"

text \<open>\<open>ex.what()\<close> into the buffer, which the start has filled with zeroes.\<close>

definition store_exception :: "string \<Rightarrow> string" where
  "store_exception ex_text =
     (let ex_len = length ex_text;
          ex_len = (if ex_len > EXCEPT_BUFFER_SIZE - 1 then EXCEPT_BUFFER_SIZE - 1 else ex_len)
      in take ex_len ex_text)"

definition server_step :: "meets \<Rightarrow> threads \<Rightarrow> threads option" where
  "server_step m s =
     (case server_at s of
        S_begin \<Rightarrow>
          Some (s\<lparr>except_buffer := [],
                  server_at := (if m_already m then S_return sm_err_allstarted
                                else if m_init m \<noteq> 0 then S_return sm_err_initfailed else S_connect)\<rparr>)
      | S_connect \<Rightarrow>
          Some (case m_throws m of
                  None \<Rightarrow> s\<lparr>server_at := S_set\<rparr>
                | Some ex_text \<Rightarrow> s\<lparr>except_buffer := store_exception ex_text, server_at := S_return 0\<rparr>)
      | S_set \<Rightarrow> Some (s\<lparr>wait_st := True, server_at := S_wait\<rparr>)
      | S_wait \<Rightarrow> Some (if wait_st s then s else s\<lparr>server_at := S_return 0\<rparr>)
      | S_return r \<Rightarrow> Some (s\<lparr>shared_ret_code := r, server_at := S_done\<rparr>)
      | S_done \<Rightarrow> None)"

text \<open>
  The program's steps: \<open>start_server_thread_spv\<close> up to its pause, the rest of it (return code, and
  whether \<open>cb_exprc_val\<close> is called), \<open>stop_server_thread\<close> up to \<open>join\<close>, the rest of it.
\<close>

definition start_server_thread_spv :: "threads \<Rightarrow> threads option" where
  "start_server_thread_spv s =
     (if program_at s = P_off
      then Some (s\<lparr>shared_ret_code := 0, server_at := S_begin, program_at := P_sleep\<rparr>) else None)"

definition start_returns :: "threads \<Rightarrow> threads option" where
  "start_returns s =
     (if program_at s = P_sleep
      then Some (s\<lparr>told := (shared_ret_code s, except_buffer s \<noteq> []) # told s, program_at := P_on\<rparr>) else None)"

definition stop_server_thread :: "threads \<Rightarrow> threads option" where
  "stop_server_thread s =
     (if program_at s = P_on then Some (s\<lparr>wait_st := False, program_at := P_join\<rparr>) else None)"

definition stop_returns :: "threads \<Rightarrow> threads option" where
  "stop_returns s =
     (if program_at s = P_join \<and> server_at s = S_done then Some (s\<lparr>program_at := P_off\<rparr>) else None)"

inductive thread_step :: "meets \<Rightarrow> threads \<Rightarrow> threads \<Rightarrow> bool" for m where
  Server: "server_step m s = Some s' \<Longrightarrow> thread_step m s s'"
| Start: "start_server_thread_spv s = Some s' \<Longrightarrow> thread_step m s s'"
| Started: "start_returns s = Some s' \<Longrightarrow> thread_step m s s'"
| Stop: "stop_server_thread s = Some s' \<Longrightarrow> thread_step m s s'"
| Stopped: "stop_returns s = Some s' \<Longrightarrow> thread_step m s s'"

definition no_threads :: threads where
  "no_threads = \<lparr>wait_st = False, shared_ret_code = 0, except_buffer = [], server_at = S_done,
     program_at = P_off, told = []\<rparr>"

inductive_cases thread_stepE: "thread_step m s s'"

section \<open>Properties\<close>

text \<open>
  Nothing of the log is lost, doubled or out of order: what the readings returned, with what is
  left, is the sequence of the messages, each between two ends of line.
\<close>

theorem log_complete:
  "case log_run es d of (rets, d') \<Rightarrow>
     concat rets @ d' = d @ concat (map (\<lambda>m. ZF_LOG_EOL @ m @ ZF_LOG_EOL) (messages es))"
  by (induction es d rule: log_run.induct)
    (auto simp: zf_log_out_buffer_callback_def get_last_log_def split: prod.splits)

text \<open>The server will come to its waiting loop, or is in it with the flag set.\<close>

definition will_wait :: "meets \<Rightarrow> threads \<Rightarrow> bool" where
  "will_wait m s \<longleftrightarrow>
     (server_at s = S_begin \<and> \<not> m_already m \<and> m_init m = 0 \<and> m_throws m = None) \<or>
     (server_at s = S_connect \<and> m_throws m = None) \<or> server_at s = S_set \<or> (server_at s = S_wait \<and> wait_st s)"

lemma joining_step:
  assumes "thread_step m s s'" and "program_at s = P_join" and "will_wait m s"
  shows "program_at s' = P_join \<and> will_wait m s'"
  using assms
  by (cases rule: thread_step.cases)
    (auto simp: server_step_def start_server_thread_spv_def start_returns_def stop_server_thread_def stop_returns_def
      will_wait_def split: server_pos.splits option.splits if_splits)

lemma joining_steps:
  assumes "(thread_step m)\<^sup>*\<^sup>* s s'" and "program_at s = P_join" and "will_wait m s"
  shows "program_at s' = P_join \<and> will_wait m s'"
  using assms by (induction rule: rtranclp_induct) (auto dest: joining_step)

text \<open>How many steps the server's thread needs when nothing sets the flag again.\<close>

fun server_left :: "server_pos \<Rightarrow> nat" where
  "server_left S_begin = 3"
| "server_left S_connect = 2"
| "server_left S_set = 0"
| "server_left S_wait = 2"
| "server_left (S_return r) = 1"
| "server_left S_done = 0"

fun server_run :: "meets \<Rightarrow> nat \<Rightarrow> threads \<Rightarrow> threads" where
  "server_run m 0 s = s"
| "server_run m (Suc n) s = (case server_step m s of None \<Rightarrow> s | Some s' \<Rightarrow> server_run m n s')"

lemma server_run_steps: "(thread_step m)\<^sup>*\<^sup>* s (server_run m n s)"
  by (induction m n s rule: server_run.induct)
    (auto split: option.splits intro: thread_step.Server converse_rtranclp_into_rtranclp)

lemma server_finishes:
  assumes "\<not> will_wait m s"
  shows "server_at (server_run m 3 s) = S_done \<and> program_at (server_run m 3 s) = program_at s"
  using assms
  by (cases "server_at s") (auto simp: numeral_3_eq_3 server_step_def will_wait_def split: option.splits)

text \<open>
  C18: \<open>stop_server_thread\<close> returns exactly when the server's thread is not on its way to the waiting
  loop. A stop before \<open>wait_st = true\<close> is overwritten: then no step of anybody lets its \<open>join\<close>
  return; otherwise three more steps of the server's thread suffice.
\<close>

theorem stop_returns_iff:
  assumes "program_at s = P_join"
  shows "(\<exists>s'. (thread_step m)\<^sup>*\<^sup>* s s' \<and> program_at s' = P_off) \<longleftrightarrow> \<not> will_wait m s"
proof
  show "\<not> will_wait m s" if "\<exists>s'. (thread_step m)\<^sup>*\<^sup>* s s' \<and> program_at s' = P_off"
    using that joining_steps [OF _ assms] by fastforce
next
  assume "\<not> will_wait m s"
  then have "stop_returns (server_run m 3 s) = Some ((server_run m 3 s)\<lparr>program_at := P_off\<rparr>)"
    using server_finishes assms by (simp add: stop_returns_def)
  then have last: "thread_step m (server_run m 3 s) ((server_run m 3 s)\<lparr>program_at := P_off\<rparr>)"
    by (rule thread_step.Stopped)
  have "(thread_step m)\<^sup>*\<^sup>* s ((server_run m 3 s)\<lparr>program_at := P_off\<rparr>)"
    by (rule rtranclp.rtrancl_into_rtrancl [OF server_run_steps last])
  then show "\<exists>s'. (thread_step m)\<^sup>*\<^sup>* s s' \<and> program_at s' = P_off"
    by (intro exI [of _ "(server_run m 3 s)\<lparr>program_at := P_off\<rparr>"]) simp
qed

text \<open>A program that stops the server right after a start for which the pause was too short.\<close>

definition stopped_early :: threads where
  "stopped_early = \<lparr>wait_st = False, shared_ret_code = 0, except_buffer = [], server_at = S_connect,
     program_at = P_join, told = [(0, False)]\<rparr>"

definition all_well :: meets where
  "all_well = \<lparr>m_already = False, m_init = 0, m_throws = None\<rparr>"

lemma stopped_early_reached: "(thread_step all_well)\<^sup>*\<^sup>* no_threads stopped_early"
proof -
  let ?s1 = "no_threads\<lparr>server_at := S_begin, program_at := P_sleep\<rparr>"
  let ?s2 = "no_threads\<lparr>server_at := S_connect, program_at := P_sleep\<rparr>"
  let ?s3 = "no_threads\<lparr>server_at := S_connect, program_at := P_on, told := [(0, False)]\<rparr>"
  have "thread_step all_well no_threads ?s1"
    by (rule thread_step.Start) (simp add: start_server_thread_spv_def no_threads_def)
  moreover have "thread_step all_well ?s1 ?s2"
    by (rule thread_step.Server) (simp add: server_step_def no_threads_def all_well_def)
  moreover have "thread_step all_well ?s2 ?s3"
    by (rule thread_step.Started) (simp add: start_returns_def no_threads_def)
  moreover have "thread_step all_well ?s3 stopped_early"
    by (rule thread_step.Stop) (simp add: stop_server_thread_def no_threads_def stopped_early_def)
  ultimately show ?thesis by (meson converse_rtranclp_into_rtranclp rtranclp.rtrancl_refl)
qed

theorem stop_returns_iff_witness:
  "(thread_step all_well)\<^sup>*\<^sup>* no_threads stopped_early \<and>
   \<not> (\<exists>s'. (thread_step all_well)\<^sup>*\<^sup>* stopped_early s' \<and> program_at s' = P_off)"
  using stopped_early_reached stop_returns_iff [of stopped_early all_well]
  by (simp add: will_wait_def stopped_early_def all_well_def)

text \<open>What \<open>start_server_thread_spv\<close> should report.\<close>

definition start_code :: "meets \<Rightarrow> int" where
  "start_code m = (if m_already m then 1 else if m_init m \<noteq> 0 then 2 else 0)"

definition start_text :: "meets \<Rightarrow> string" where
  "start_text m =
     (if start_code m \<noteq> 0 then [] else case m_throws m of None \<Rightarrow> [] | Some t \<Rightarrow> store_exception t)"

definition starting :: "meets \<Rightarrow> threads \<Rightarrow> bool" where
  "starting m s \<longleftrightarrow>
     (case server_at s of
        S_begin \<Rightarrow> shared_ret_code s = 0
      | S_connect \<Rightarrow> shared_ret_code s = 0 \<and> start_code m = 0 \<and> except_buffer s = []
      | S_set \<Rightarrow> shared_ret_code s = 0 \<and> start_code m = 0 \<and> m_throws m = None \<and> except_buffer s = []
      | S_wait \<Rightarrow> shared_ret_code s = 0 \<and> start_code m = 0 \<and> m_throws m = None \<and> except_buffer s = []
      | S_return r \<Rightarrow> shared_ret_code s = 0 \<and> r = start_code m \<and> except_buffer s = start_text m
      | S_done \<Rightarrow> shared_ret_code s = start_code m \<and> except_buffer s = start_text m)"

lemma server_starting:
  assumes "server_step m s = Some s'" and "starting m s"
  shows "starting m s'"
proof (cases "server_at s")
  case S_connect
  then show ?thesis using assms
    by (cases "m_throws m") (auto simp: server_step_def starting_def start_text_def)
qed (use assms in \<open>auto simp: server_step_def starting_def start_code_def start_text_def
    sm_err_allstarted_def sm_err_initfailed_def split: if_splits\<close>)

lemma starting_step:
  assumes "thread_step m s s'" and "program_at s = P_sleep \<longrightarrow> starting m s"
  shows "program_at s' = P_sleep \<longrightarrow> starting m s'"
  using assms(1)
proof (cases rule: thread_step.cases)
  case Server
  then have "program_at s' = program_at s"
    by (auto simp: server_step_def split: server_pos.splits option.splits if_splits)
  with Server assms(2) show ?thesis using server_starting by simp
next
  case Start
  then show ?thesis by (auto simp: start_server_thread_spv_def starting_def split: if_splits)
next
  case Started
  then show ?thesis by (auto simp: start_returns_def split: if_splits)
next
  case Stop
  then show ?thesis by (auto simp: stop_server_thread_def split: if_splits)
next
  case Stopped
  then show ?thesis by (auto simp: stop_returns_def split: if_splits)
qed

lemma starting_reached:
  assumes "(thread_step m)\<^sup>*\<^sup>* no_threads s"
  shows "program_at s = P_sleep \<longrightarrow> starting m s"
  using assms
proof (induction rule: rtranclp_induct)
  case base
  show ?case by (simp add: no_threads_def)
next
  case (step s s')
  from step(2,3) show ?case by (rule starting_step)
qed

text \<open>
  C22: when the pause of \<open>start_server_thread_spv\<close> ends it reports the refusal, or calls the exception
  call-back, exactly for what the server's thread has met, provided that the thread has come to its end
  or to its waiting loop by then; 0 and no call-back is also what a slow thread looks like.
\<close>

theorem start_reports:
  assumes "(thread_step m)\<^sup>*\<^sup>* no_threads s" and "program_at s = P_sleep"
    and "server_at s = S_done \<or> server_at s = S_wait"
  shows "\<exists>s'. start_returns s = Some s' \<and> hd (told s') = (start_code m, start_text m \<noteq> [])"
proof -
  have "starting m s" using starting_reached [OF assms(1)] assms(2) by blast
  then show ?thesis using assms(2,3) by (auto simp: starting_def start_returns_def start_text_def)
qed

definition thrown_start :: threads where
  "thrown_start = \<lparr>wait_st = False, shared_ret_code = 0, except_buffer = ''bind'', server_at = S_done,
     program_at = P_sleep, told = []\<rparr>"

definition port_taken :: meets where
  "port_taken = \<lparr>m_already = False, m_init = 0, m_throws = Some ''bind''\<rparr>"

lemma thrown_start_reached: "(thread_step port_taken)\<^sup>*\<^sup>* no_threads thrown_start"
proof -
  let ?s1 = "no_threads\<lparr>server_at := S_begin, program_at := P_sleep\<rparr>"
  have "server_run port_taken 3 ?s1 = thrown_start"
    by (simp add: numeral_3_eq_3 server_step_def no_threads_def port_taken_def thrown_start_def store_exception_def
        EXCEPT_BUFFER_SIZE_def)
  then have "(thread_step port_taken)\<^sup>*\<^sup>* ?s1 thrown_start" by (metis server_run_steps)
  moreover have "thread_step port_taken no_threads ?s1"
    by (rule thread_step.Start) (simp add: start_server_thread_spv_def no_threads_def)
  ultimately show ?thesis by (rule converse_rtranclp_into_rtranclp [rotated])
qed

theorem start_reports_witness:
  "\<exists>s'. start_returns thrown_start = Some s' \<and> hd (told s') = (0, True)"
  using start_reports [OF thrown_start_reached]
  by (simp add: thrown_start_def port_taken_def start_code_def start_text_def store_exception_def EXCEPT_BUFFER_SIZE_def)

end
