(* ===== verification/Concurrent_Table.thy ===== *)
theory Concurrent_Table
  imports Table_Properties
begin

text \<open>
  The table of open devices as several handler threads run it at the same time: every method of
  \<open>MapDevIdPHandle\<close> (\<open>server/mapdevidphnd.cpp\<close>) cut at its lock operations, at its calls of the
  device layer and at its accesses without a lock. A thread's position says where in which method it
  is; \<open>cstep\<close> is its next step. Between two cuts a thread works on what its locks give it, so a
  position that holds a lock stands for the accesses before the release.
\<close>

section \<open>State\<close>

text \<open>
  A read-write lock as its threads see it (\<open>RW_Lock\<close> shows that the class keeps readers and writers
  apart); a mutex of the pool with the thread that holds it. \<open>live\<close> are the handles that the device
  layer has open; \<open>lost\<close> records the devices that reported to be gone or were taken away by force.
\<close>

record rw =
  readers :: "nat set"
  writer :: "nat option"

record shared =
  cdevices :: "handle option dev_map"
  cconns :: "(conn_id_t \<times> devid) list"
  crw :: rw
  cpool :: "nat option dev_map"
  cpool_rw :: rw
  live :: "handle set"
  lost :: "devid list"

text \<open>
  The positions. \<open>Locking\<close> is inside \<open>lock_create_device_mutex\<close> and \<open>Unlocking\<close> inside
  \<open>unlock_device_mutex\<close>, each with what follows. \<open>Crashed\<close>: the thread used a handle that is not
  open, an entry that is gone, or unlocked a mutex that is not its own.
\<close>

datatype lstage = LRead | LFind | LWrite | LInsert | LMutex
datatype ustage = URead | UFind | UIndex
datatype ostage = O_read | O_actual | O_write | O_find | O_create | O_rewrite "handle option" | O_store "handle option"
datatype rstage = R_read | R_actual | R_write | R_erase | R_reread | R_others | R_destroy | R_rewrite | R_drop
datatype gstage = G_read | G_list
datatype qstage = Q_read | Q_find | Q_index | Q_call | Q_result int

datatype pos =
    At_rest
  | Crashed
  | Opening ostage conn_id_t devid
  | Removing rstage conn_id_t devid bool
  | Requesting qstage devid
  | Logging gstage
  | Locking lstage devid pos
  | Unlocking ustage devid pos

text \<open>What a step needs from outside: a call to begin with, a new handle, a device's result.\<close>

datatype choice = Call_open conn_id_t devid | Call_remove conn_id_t devid | Call_request devid | Call_log
  | New_handle "handle option" | Device_result int | Go

section \<open>Lock operations\<close>

definition rd_enter :: "nat \<Rightarrow> rw \<Rightarrow> rw option" where
  "rd_enter t l = (if writer l = None then Some (l\<lparr>readers := insert t (readers l)\<rparr>) else None)"

definition rd_leave :: "nat \<Rightarrow> rw \<Rightarrow> rw" where
  "rd_leave t l = l\<lparr>readers := readers l - {t}\<rparr>"

definition wr_enter :: "nat \<Rightarrow> rw \<Rightarrow> rw option" where
  "wr_enter t l = (if writer l = None \<and> readers l = {} then Some (l\<lparr>writer := Some t\<rparr>) else None)"

definition wr_leave :: "rw \<Rightarrow> rw" where
  "wr_leave l = l\<lparr>writer := None\<rparr>"

section \<open>The steps of the methods\<close>

text \<open>\<open>lock_create_device_mutex\<close>; \<open>m.lock()\<close> waits while another thread has the mutex.\<close>

fun lock_step :: "nat \<Rightarrow> lstage \<Rightarrow> devid \<Rightarrow> pos \<Rightarrow> shared \<Rightarrow> (pos \<times> shared) option" where
  "lock_step t LRead d k S =
     map_option (\<lambda>l. (Locking LFind d k, S\<lparr>cpool_rw := l\<rparr>)) (rd_enter t (cpool_rw S))"
| "lock_step t LFind d k S =
     (let S' = S\<lparr>cpool_rw := rd_leave t (cpool_rw S)\<rparr>
      in Some (Locking (if map_find d (cpool S) = None then LWrite else LMutex) d k, S'))"
| "lock_step t LWrite d k S =
     map_option (\<lambda>l. (Locking LInsert d k, S\<lparr>cpool_rw := l\<rparr>)) (wr_enter t (cpool_rw S))"
| "lock_step t LInsert d k S =
     Some (Locking LMutex d k, S\<lparr>cpool := map_index None d (cpool S), cpool_rw := wr_leave (cpool_rw S)\<rparr>)"
| "lock_step t LMutex d k S =
     (case map_find d (cpool S) of
        None \<Rightarrow> Some (Crashed, S)
      | Some None \<Rightarrow> Some (k, S\<lparr>cpool := map_store d (Some t) (cpool S)\<rparr>)
      | Some (Some u) \<Rightarrow> None)"

text \<open>\<open>unlock_device_mutex\<close>, whose last access is not under the pool's lock.\<close>

fun unlock_step :: "nat \<Rightarrow> ustage \<Rightarrow> devid \<Rightarrow> pos \<Rightarrow> shared \<Rightarrow> (pos \<times> shared) option" where
  "unlock_step t URead d k S =
     map_option (\<lambda>l. (Unlocking UFind d k, S\<lparr>cpool_rw := l\<rparr>)) (rd_enter t (cpool_rw S))"
| "unlock_step t UFind d k S =
     (let S' = S\<lparr>cpool_rw := rd_leave t (cpool_rw S)\<rparr>
      in Some (if map_find d (cpool S) = None then k else Unlocking UIndex d k, S'))"
| "unlock_step t UIndex d k S =
     (let pool = map_index None d (cpool S)
      in if map_find d pool = Some (Some t) then Some (k, S\<lparr>cpool := map_store d None pool\<rparr>)
         else Some (Crashed, S))"

text \<open>\<open>open_if_not\<close>\<close>

fun open_step :: "nat \<Rightarrow> choice \<Rightarrow> ostage \<Rightarrow> conn_id_t \<Rightarrow> devid \<Rightarrow> shared \<Rightarrow> (pos \<times> shared) option" where
  "open_step t ch O_read c d S =
     map_option (\<lambda>l. (Opening O_actual c d, S\<lparr>crw := l\<rparr>)) (rd_enter t (crw S))"
| "open_step t ch O_actual c d S =
     Some (if find_conn c (cconns S) \<noteq> None then At_rest else Locking LRead d (Opening O_write c d),
           S\<lparr>crw := rd_leave t (crw S)\<rparr>)"
| "open_step t ch O_write c d S =
     map_option (\<lambda>l. (Opening O_find c d, S\<lparr>crw := l\<rparr>)) (wr_enter t (crw S))"
| "open_step t ch O_find c d S =
     (if map_find d (cdevices S) \<noteq> None
      then Some (Unlocking URead d At_rest, S\<lparr>cconns := cconns S @ [(c, d)], crw := wr_leave (crw S)\<rparr>)
      else let S = S\<lparr>cdevices := map_index None d (cdevices S), crw := wr_leave (crw S)\<rparr>
           in Some (if map_find d (cdevices S) = Some None then Opening O_create c d
                    else Unlocking URead d At_rest, S))"
| "open_step t ch O_create c d S =
     (case ch of
        New_handle (Some h) \<Rightarrow>
          if h \<in> live S then None else Some (Opening (O_rewrite (Some h)) c d, S\<lparr>live := insert h (live S)\<rparr>)
      | New_handle None \<Rightarrow> Some (Opening (O_rewrite None) c d, S)
      | _ \<Rightarrow> None)"
| "open_step t ch (O_rewrite purpc) c d S =
     map_option (\<lambda>l. (Opening (O_store purpc) c d, S\<lparr>crw := l\<rparr>)) (wr_enter t (crw S))"
| "open_step t ch (O_store purpc) c d S =
     (let S = (if purpc \<noteq> None \<and> map_find d (cdevices S) \<noteq> None
               then S\<lparr>cdevices := map_store d purpc (cdevices S), cconns := cconns S @ [(c, d)]\<rparr> else S);
          devs = map_index None d (cdevices S);
          devs = (if map_find d devs = Some None then map_erase d devs else devs)
      in Some (Unlocking URead d At_rest, S\<lparr>cdevices := devs, crw := wr_leave (crw S)\<rparr>))"

text \<open>\<open>remove_conn_or_remove_device\<close>; \<open>destroy_device_h\<close> runs without the table's lock.\<close>

fun remove_step :: "nat \<Rightarrow> rstage \<Rightarrow> conn_id_t \<Rightarrow> devid \<Rightarrow> bool \<Rightarrow> shared \<Rightarrow> (pos \<times> shared) option" where
  "remove_step t R_read c d force S =
     map_option (\<lambda>l. (Removing R_actual c d force, S\<lparr>crw := l\<rparr>)) (rd_enter t (crw S))"
| "remove_step t R_actual c d force S =
     (let devid_real = (case find_conn c (cconns S) of None \<Rightarrow> devid_of_id conn_id_invalid | Some item \<Rightarrow> snd item);
          devid_known = (if dev_id d = UINT32_MAX then devid_real else d)
      in Some (if dev_id devid_known = UINT32_MAX then At_rest
               else Locking LRead devid_known (Removing R_write c devid_known force),
               S\<lparr>crw := rd_leave t (crw S)\<rparr>))"
| "remove_step t R_write c d force S =
     map_option (\<lambda>l. (Removing R_erase c d force, S\<lparr>crw := l\<rparr>)) (wr_enter t (crw S))"
| "remove_step t R_erase c d force S =
     Some (Removing R_reread c d force, S\<lparr>cconns := erase_conn c (cconns S), crw := wr_leave (crw S)\<rparr>)"
| "remove_step t R_reread c d force S =
     map_option (\<lambda>l. (Removing R_others c d force, S\<lparr>crw := l\<rparr>)) (rd_enter t (crw S))"
| "remove_step t R_others c d force S =
     Some (if map_find d (cdevices S) \<noteq> None \<and> (force \<or> \<not> any_serial d (cconns S))
           then Removing R_destroy c d force else Unlocking URead d At_rest,
           S\<lparr>crw := rd_leave t (crw S), lost := (if force then d # lost S else lost S)\<rparr>)"
| "remove_step t R_destroy c d force S =
     (case map_find d (cdevices S) of
        None \<Rightarrow> Some (Crashed, S)
      | Some None \<Rightarrow> Some (Removing R_rewrite c d force, S)
      | Some (Some h) \<Rightarrow>
          if h \<in> live S
          then Some (Removing R_rewrite c d force,
                     S\<lparr>cdevices := map_store d None (cdevices S), live := live S - {h}\<rparr>)
          else Some (Crashed, S))"
| "remove_step t R_rewrite c d force S =
     map_option (\<lambda>l. (Removing R_drop c d force, S\<lparr>crw := l\<rparr>)) (wr_enter t (crw S))"
| "remove_step t R_drop c d force S =
     Some (Unlocking URead d At_rest, S\<lparr>cdevices := map_erase d (cdevices S), crw := wr_leave (crw S)\<rparr>)"

text \<open>
  The two request operations: \<open>(*this)[devid]\<close> without the table's lock, then the call on the entry
  it refers to.
\<close>

fun request_step :: "nat \<Rightarrow> choice \<Rightarrow> qstage \<Rightarrow> devid \<Rightarrow> shared \<Rightarrow> (pos \<times> shared) option" where
  "request_step t ch Q_read d S =
     map_option (\<lambda>l. (Requesting Q_find d, S\<lparr>crw := l\<rparr>)) (rd_enter t (crw S))"
| "request_step t ch Q_find d S =
     Some (if map_find d (cdevices S) \<noteq> None then Locking LRead d (Requesting Q_index d) else At_rest,
           S\<lparr>crw := rd_leave t (crw S)\<rparr>)"
| "request_step t ch Q_index d S =
     Some (Requesting Q_call d, S\<lparr>cdevices := map_index None d (cdevices S)\<rparr>)"
| "request_step t ch Q_call d S =
     (case map_find d (cdevices S) of
        None \<Rightarrow> Some (Crashed, S)
      | Some None \<Rightarrow> Some (Unlocking URead d (Requesting (Q_result xib_result_nodevice) d), S\<lparr>lost := d # lost S\<rparr>)
      | Some (Some h) \<Rightarrow>
          if h \<notin> live S then Some (Crashed, S)
          else case ch of
                 Device_result r \<Rightarrow>
                   Some (Unlocking URead d (Requesting (Q_result r) d),
                         S\<lparr>lost := (if r = xib_result_nodevice then d # lost S else lost S)\<rparr>)
               | _ \<Rightarrow> None)"
| "request_step t ch (Q_result r) d S =
     Some (if r = xib_result_nodevice then Removing R_read UINT32_MAX d True else At_rest, S)"

text \<open>\<open>log\<close> goes through all entries and connections under the read lock.\<close>

fun log_step :: "nat \<Rightarrow> gstage \<Rightarrow> shared \<Rightarrow> (pos \<times> shared) option" where
  "log_step t G_read S = map_option (\<lambda>l. (Logging G_list, S\<lparr>crw := l\<rparr>)) (rd_enter t (crw S))"
| "log_step t G_list S = Some (At_rest, S\<lparr>crw := rd_leave t (crw S)\<rparr>)"

text \<open>The next step of thread \<open>t\<close>.\<close>

fun cstep :: "nat \<Rightarrow> choice \<Rightarrow> pos \<Rightarrow> shared \<Rightarrow> (pos \<times> shared) option" where
  "cstep t ch At_rest S =
     (case ch of
        Call_open c d \<Rightarrow> Some (Opening O_read c d, S)
      | Call_remove c d \<Rightarrow> Some (Removing R_read c d False, S)
      | Call_request d \<Rightarrow> Some (Requesting Q_read d, S)
      | Call_log \<Rightarrow> Some (Logging G_read, S)
      | _ \<Rightarrow> None)"
| "cstep t ch Crashed S = None"
| "cstep t ch (Opening st c d) S = open_step t ch st c d S"
| "cstep t ch (Removing st c d force) S = remove_step t st c d force S"
| "cstep t ch (Requesting st d) S = request_step t ch st d S"
| "cstep t ch (Logging st) S = log_step t st S"
| "cstep t ch (Locking st d k) S = lock_step t st d k S"
| "cstep t ch (Unlocking st d k) S = unlock_step t st d k S"

section \<open>Interleavings\<close>

text \<open>Positions of all threads and the shared state; an event is a thread with its choice.\<close>

type_synonym cstate = "(nat \<Rightarrow> pos) \<times> shared"

definition crun1 :: "nat \<times> choice \<Rightarrow> cstate \<Rightarrow> cstate option" where
  "crun1 e s = (case e of (t, ch) \<Rightarrow> case s of (ps, S) \<Rightarrow>
     map_option (\<lambda>(p, S'). (ps(t := p), S')) (cstep t ch (ps t) S))"

fun crun :: "(nat \<times> choice) list \<Rightarrow> cstate \<Rightarrow> cstate option" where
  "crun [] s = Some s"
| "crun (e # es) s = Option.bind (crun1 e s) (crun es)"

definition unlocked_rw :: rw where
  "unlocked_rw = \<lparr>readers = {}, writer = None\<rparr>"

definition cstart :: cstate where
  "cstart = (\<lambda>t. At_rest, \<lparr>cdevices = [], cconns = [], crw = unlocked_rw, cpool = [], cpool_rw = unlocked_rw,
     live = {}, lost = []\<rparr>)"

end
