(* ===== verification/Concurrent_Properties.thy ===== *)
theory Concurrent_Properties
  imports Concurrent_Table
begin

section \<open>Positions\<close>

text \<open>The mutex and the locks that a thread holds at a position, and the handle it carries.\<close>

fun mutex_of :: "pos \<Rightarrow> devid option" where
  "mutex_of (Opening st c d) = (if st = O_read \<or> st = O_actual then None else Some d)"
| "mutex_of (Removing st c d force) = (if st = R_read \<or> st = R_actual then None else Some d)"
| "mutex_of (Requesting st d) = (if st = Q_index \<or> st = Q_call then Some d else None)"
| "mutex_of (Unlocking st d k) = Some d"
| "mutex_of _ = None"

datatype mode = Free | Rd | Wr

fun table_mode :: "pos \<Rightarrow> mode" where
  "table_mode (Opening O_actual c d) = Rd"
| "table_mode (Opening O_find c d) = Wr"
| "table_mode (Opening (O_store h) c d) = Wr"
| "table_mode (Removing R_actual c d force) = Rd"
| "table_mode (Removing R_erase c d force) = Wr"
| "table_mode (Removing R_others c d force) = Rd"
| "table_mode (Removing R_drop c d force) = Wr"
| "table_mode (Requesting Q_find d) = Rd"
| "table_mode (Logging G_list) = Rd"
| "table_mode _ = Free"

fun pool_mode :: "pos \<Rightarrow> mode" where
  "pool_mode (Locking LFind d k) = Rd"
| "pool_mode (Locking LInsert d k) = Wr"
| "pool_mode (Unlocking UFind d k) = Rd"
| "pool_mode _ = Free"

fun wf_pos :: "pos \<Rightarrow> bool" where
  "wf_pos (Locking st d k) \<longleftrightarrow>
     (case k of
        Opening st' c d' \<Rightarrow> st' = O_write \<and> d' = d
      | Removing st' c d' force \<Rightarrow> st' = R_write \<and> d' = d
      | Requesting st' d' \<Rightarrow> st' = Q_index \<and> d' = d
      | _ \<Rightarrow> False)"
| "wf_pos (Unlocking st d k) \<longleftrightarrow>
     (case k of
        At_rest \<Rightarrow> True
      | Requesting st' d' \<Rightarrow> d' = d \<and> (case st' of Q_result r \<Rightarrow> True | _ \<Rightarrow> False)
      | _ \<Rightarrow> False)"
| "wf_pos _ \<longleftrightarrow> True"

fun_cases step_E: "cstep t ch p S = Some r"

lemmas stage_splits = lstage.splits ustage.splits ostage.splits rstage.splits qstage.splits choice.splits
  option.splits if_splits pos.splits

lemma wf_step:
  assumes "cstep t ch p S = Some (p', S')" and "wf_pos p"
  shows "wf_pos p'"
proof (cases p)
  case (Opening st c d)
  then show ?thesis using assms by (cases st) (auto simp: Let_def split: option.splits choice.splits if_splits)
next
  case (Removing st c d f)
  then show ?thesis using assms by (cases st) (auto simp: Let_def split: option.splits if_splits)
next
  case (Requesting st d)
  then show ?thesis using assms by (cases st) (auto simp: Let_def split: option.splits choice.splits if_splits)
next
  case (Logging st)
  then show ?thesis using assms by (cases st) auto
next
  case (Locking st d k)
  then show ?thesis using assms by (cases st) (auto simp: Let_def split: option.splits pos.splits if_splits)
next
  case (Unlocking st d k)
  then show ?thesis using assms by (cases st) (auto simp: Let_def split: option.splits pos.splits if_splits)
qed (use assms in \<open>auto split: choice.splits\<close>)

section \<open>Mutexes\<close>

text \<open>What a step does to the mutexes: nothing but a new free one, or it takes or releases one.\<close>

definition mutex_effect :: "nat \<Rightarrow> pos \<Rightarrow> shared \<Rightarrow> pos \<Rightarrow> shared \<Rightarrow> bool" where
  "mutex_effect t p S p' S' \<longleftrightarrow>
     (mutex_of p' = mutex_of p \<and>
      (\<forall>d. map_find d (cpool S') = map_find d (cpool S) \<or>
           map_find d (cpool S) = None \<and> map_find d (cpool S') = Some None)) \<or>
     (\<exists>d. mutex_of p = None \<and> mutex_of p' = Some d \<and> map_find d (cpool S) = Some None \<and>
          cpool S' = map_store d (Some t) (cpool S)) \<or>
     (\<exists>d. mutex_of p = Some d \<and> mutex_of p' = None \<and> cpool S' = map_store d None (cpool S))"

definition mutexes_ok :: "(nat \<Rightarrow> pos) \<Rightarrow> shared \<Rightarrow> bool" where
  "mutexes_ok ps S \<longleftrightarrow>
     (\<forall>d t. map_find d (cpool S) = Some (Some t) \<longleftrightarrow> (\<exists>e. mutex_of (ps t) = Some e \<and> devid_equiv d e)) \<and>
     (\<forall>t d k. ps t = Locking LMutex d k \<longrightarrow> map_find d (cpool S) \<noteq> None)"

lemma step_mutex:
  assumes "cstep t ch p S = Some (p', S')" and "wf_pos p" and "p' \<noteq> Crashed"
    and "\<forall>d. mutex_of p = Some d \<longrightarrow> map_find d (cpool S) = Some (Some t)"
  shows "mutex_effect t p S p' S'"
proof (cases p)
  case (Opening st c d)
  then show ?thesis using assms
    by (cases st) (auto simp: Let_def mutex_effect_def split: option.splits choice.splits if_splits)
next
  case (Removing st c d f)
  then show ?thesis using assms
    by (cases st) (auto simp: Let_def mutex_effect_def split: option.splits if_splits)
next
  case (Requesting st d)
  then show ?thesis using assms
    by (cases st) (auto simp: Let_def mutex_effect_def split: option.splits choice.splits if_splits)
next
  case (Logging st)
  then show ?thesis using assms by (cases st) (auto simp: mutex_effect_def split: option.splits)
next
  case (Locking st d k)
  then show ?thesis using assms
    by (cases st; cases k) (auto simp: Let_def mutex_effect_def dm.find_index split: option.splits if_splits)
next
  case (Unlocking st d k)
  then show ?thesis using assms
    by (cases st; cases k) (auto simp: Let_def mutex_effect_def map_index_def split: option.splits qstage.splits if_splits)
qed (use assms in \<open>auto simp: mutex_effect_def split: choice.splits\<close>)

lemma equiv_subst: "devid_equiv d e \<Longrightarrow> devid_equiv d f \<longleftrightarrow> devid_equiv e f"
  by (auto simp: devid_equiv_alt)

lemma mutexesD:
  assumes "mutexes_ok ps S"
  shows "map_find d (cpool S) = Some (Some t) \<longleftrightarrow> (\<exists>e. mutex_of (ps t) = Some e \<and> devid_equiv d e)"
    and "ps t = Locking LMutex d k \<Longrightarrow> map_find d (cpool S) \<noteq> None"
  using assms unfolding mutexes_ok_def by blast+

lemma mutexes_own: "mutexes_ok ps S \<Longrightarrow> mutex_of (ps t) = Some d \<Longrightarrow> map_find d (cpool S) = Some (Some t)"
  by (simp add: mutexesD(1))

text \<open>Two threads never hold the mutex of one device.\<close>

lemma mutexes_same:
  assumes "mutexes_ok ps S" and "mutex_of (ps t) = Some d" and "mutex_of (ps u) = Some e" and "devid_equiv d e"
  shows "t = u"
proof -
  have "map_find d (cpool S) = Some (Some t)" by (rule mutexes_own [OF assms(1,2)])
  moreover have "map_find d (cpool S) = Some (Some u)" using mutexesD(1) [OF assms(1), of d u] assms(3,4) by simp
  ultimately show ?thesis by simp
qed

lemma mutexes_step:
  assumes ok: "mutexes_ok ps S" and eff: "mutex_effect t (ps t) S p' S'"
    and new: "\<forall>d k. p' = Locking LMutex d k \<longrightarrow> map_find d (cpool S') \<noteq> None"
  shows "mutexes_ok (ps(t := p')) S'"
proof -
  have hold: "map_find d (cpool S) = Some (Some u) \<longleftrightarrow> (\<exists>e. mutex_of (ps u) = Some e \<and> devid_equiv d e)" for d u
    by (rule mutexesD(1) [OF ok])
  have there: "map_find d (cpool S) \<noteq> None" if "ps u = Locking LMutex d k" for d u k
    by (rule mutexesD(2) [OF ok that])
  consider (same) "mutex_of p' = mutex_of (ps t)" "\<forall>d. map_find d (cpool S') = map_find d (cpool S) \<or>
        map_find d (cpool S) = None \<and> map_find d (cpool S') = Some None"
    | (take) d where "mutex_of (ps t) = None" "mutex_of p' = Some d" "map_find d (cpool S) = Some None"
        "cpool S' = map_store d (Some t) (cpool S)"
    | (release) d where "mutex_of (ps t) = Some d" "mutex_of p' = None" "cpool S' = map_store d None (cpool S)"
    using eff unfolding mutex_effect_def by blast
  then have "(map_find d (cpool S') = Some (Some u) \<longleftrightarrow> (\<exists>e. mutex_of ((ps(t := p')) u) = Some e \<and> devid_equiv d e)) \<and>
      (map_find d (cpool S) \<noteq> None \<longrightarrow> map_find d (cpool S') \<noteq> None)" for d u
  proof cases
    case same
    have "mutex_of ((ps(t := p')) u) = mutex_of (ps u)" using same(1) by simp
    moreover have "map_find d (cpool S') = map_find d (cpool S) \<or>
        map_find d (cpool S) = None \<and> map_find d (cpool S') = Some None" using same(2) by blast
    ultimately show ?thesis using hold [of d u] by auto
  next
    case (take d')
    have "\<not> devid_equiv d d'" if "map_find d (cpool S) = Some (Some v)" for v
      using that take(3) dm.find_same [of d d' "cpool S"] by auto
    then show ?thesis using hold [of d u] hold [of d t] take by (auto simp: dm.find_store)
  next
    case (release d')
    have "map_find d (cpool S) = Some (Some t)" if "devid_equiv d d'" using hold [of d t] that release(1) by blast
    then show ?thesis using hold [of d u] hold [of d t] release by (auto simp: dm.find_store)
  qed
  with there new show ?thesis unfolding mutexes_ok_def by (auto split: if_splits)
qed

section \<open>Entries and handles\<close>

text \<open>What a thread can rely on at its position, as long as it has the mutex.\<close>

fun here :: "shared \<Rightarrow> pos \<Rightarrow> bool" where
  "here S (Opening O_create c d) \<longleftrightarrow> map_find d (cdevices S) = Some None"
| "here S (Opening (O_rewrite h) c d) \<longleftrightarrow> map_find d (cdevices S) = Some None"
| "here S (Opening (O_store h) c d) \<longleftrightarrow> map_find d (cdevices S) = Some None"
| "here S (Removing R_destroy c d force) \<longleftrightarrow> map_find d (cdevices S) \<noteq> None"
| "here S (Removing R_rewrite c d force) \<longleftrightarrow> map_find d (cdevices S) = Some None"
| "here S (Removing R_drop c d force) \<longleftrightarrow> map_find d (cdevices S) = Some None"
| "here S (Requesting Q_call d) \<longleftrightarrow> map_find d (cdevices S) \<noteq> None"
| "here S _ \<longleftrightarrow> True"

lemma here_frame:
  assumes "here S p" and "\<And>d. mutex_of p = Some d \<Longrightarrow> map_find d (cdevices S') = map_find d (cdevices S)"
  shows "here S' p"
  using assms by (induction S p rule: here.induct) auto

text \<open>A step touches the entry of its mutex only.\<close>

lemma dev_frame:
  assumes "cstep t ch p S = Some (p', S')" and "\<And>d. mutex_of p = Some d \<Longrightarrow> \<not> devid_equiv e d"
  shows "map_find e (cdevices S') = map_find e (cdevices S)"
proof (cases p)
  case (Opening st c d)
  then show ?thesis using assms
    by (cases st) (auto simp: Let_def dm.find_index dm.find_store dm.find_erase split: option.splits choice.splits if_splits)
next
  case (Removing st c d f)
  then show ?thesis using assms
    by (cases st) (auto simp: Let_def dm.find_store dm.find_erase split: option.splits if_splits)
next
  case (Requesting st d)
  then show ?thesis using assms
    by (cases st) (auto simp: Let_def dm.find_index split: option.splits choice.splits if_splits)
next
  case (Logging st)
  then show ?thesis using assms by (cases st) (auto split: option.splits)
next
  case (Locking st d k)
  then show ?thesis using assms by (cases st) (auto simp: Let_def split: option.splits if_splits)
next
  case (Unlocking st d k)
  then show ?thesis using assms by (cases st) (auto simp: Let_def split: option.splits if_splits)
qed (use assms in \<open>auto split: choice.splits\<close>)

lemma here_step:
  assumes "cstep t ch p S = Some (p', S')" and "here S p" and "wf_pos p"
  shows "here S' p'"
proof (cases p)
  case (Opening st c d)
  then show ?thesis using assms
    by (cases st) (auto simp: Let_def dm.find_index split: option.splits choice.splits if_splits)
next
  case (Removing st c d f)
  then show ?thesis using assms
    by (cases st) (auto simp: Let_def dm.find_store split: option.splits if_splits)
next
  case (Requesting st d)
  then show ?thesis using assms
    by (cases st) (auto simp: Let_def dm.find_index split: option.splits choice.splits if_splits)
next
  case (Logging st)
  then show ?thesis using assms by (cases st) (auto split: option.splits)
next
  case (Locking st d k)
  then show ?thesis using assms by (cases st; cases k) (auto simp: Let_def split: option.splits if_splits)
next
  case (Unlocking st d k)
  then show ?thesis using assms by (cases st; cases k) (auto simp: Let_def split: option.splits qstage.splits if_splits)
qed (use assms in \<open>auto split: choice.splits\<close>)

fun carried :: "pos \<Rightarrow> handle option" where
  "carried (Opening (O_rewrite h) c d) = h"
| "carried (Opening (O_store h) c d) = h"
| "carried _ = None"

definition entry :: "shared \<Rightarrow> devid \<Rightarrow> handle \<Rightarrow> bool" where
  "entry S d h \<longleftrightarrow> map_find d (cdevices S) = Some (Some h)"

definition handle_effect :: "pos \<Rightarrow> shared \<Rightarrow> pos \<Rightarrow> shared \<Rightarrow> bool" where
  "handle_effect p S p' S' \<longleftrightarrow>
     (live S' = live S \<and> carried p' = carried p \<and> (\<forall>d h. entry S' d h = entry S d h)) \<or>
     (\<exists>h. h \<notin> live S \<and> live S' = insert h (live S) \<and> carried p = None \<and> carried p' = Some h \<and>
          (\<forall>d h. entry S' d h = entry S d h)) \<or>
     (\<exists>d h. live S' = live S \<and> carried p = Some h \<and> carried p' = None \<and> map_find d (cdevices S) = Some None \<and>
          (\<forall>e g. entry S' e g = (if devid_equiv e d then g = h else entry S e g))) \<or>
     (\<exists>d h. entry S d h \<and> live S' = live S - {h} \<and> carried p = None \<and> carried p' = None \<and>
          (\<forall>e g. entry S' e g = (\<not> devid_equiv e d \<and> entry S e g)))"

lemma handle_effect_same:
  "live S' = live S \<Longrightarrow> carried p' = carried p \<Longrightarrow> (\<And>d h. entry S' d h = entry S d h) \<Longrightarrow> handle_effect p S p' S'"
  by (simp add: handle_effect_def)

lemma handle_effect_new:
  "h \<notin> live S \<Longrightarrow> live S' = insert h (live S) \<Longrightarrow> carried p = None \<Longrightarrow> carried p' = Some h \<Longrightarrow>
   (\<And>d h. entry S' d h = entry S d h) \<Longrightarrow> handle_effect p S p' S'"
  unfolding handle_effect_def by blast

lemma handle_effect_store:
  "live S' = live S \<Longrightarrow> carried p = Some h \<Longrightarrow> carried p' = None \<Longrightarrow> map_find d (cdevices S) = Some None \<Longrightarrow>
   (\<And>e g. entry S' e g = (if devid_equiv e d then g = h else entry S e g)) \<Longrightarrow> handle_effect p S p' S'"
  unfolding handle_effect_def by blast

lemma handle_effect_close:
  "entry S d h \<Longrightarrow> live S' = live S - {h} \<Longrightarrow> carried p = None \<Longrightarrow> carried p' = None \<Longrightarrow>
   (\<And>e g. entry S' e g = (\<not> devid_equiv e d \<and> entry S e g)) \<Longrightarrow> handle_effect p S p' S'"
  unfolding handle_effect_def by blast

lemma entry_index [simp]: "entry (S\<lparr>cdevices := map_index None d (cdevices S)\<rparr>) e h = entry S e h"
  by (auto simp: entry_def dm.find_index)

lemmas quiet = handle_effect_same [OF _ _ refl]

lemma entry_fields [simp]:
  "entry (S\<lparr>crw := l\<rparr>) d h = entry S d h" "entry (S\<lparr>cpool_rw := l\<rparr>) d h = entry S d h"
  "entry (S\<lparr>cpool := m\<rparr>) d h = entry S d h" "entry (S\<lparr>cconns := cs\<rparr>) d h = entry S d h"
  "entry (S\<lparr>lost := ds\<rparr>) d h = entry S d h" "entry (S\<lparr>live := hs\<rparr>) d h = entry S d h"
  by (simp_all add: entry_def)

lemma entry_erase_null:
  assumes "map_find d (cdevices S) = Some None"
  shows "entry (S\<lparr>cdevices := map_erase d (cdevices S)\<rparr>) e g = entry S e g"
  using dm.find_same [of e d "cdevices S"] assms by (auto simp: entry_def dm.find_erase)

lemma indexed_entry: "map_find d m \<noteq> None \<Longrightarrow> map_index v d m = m"
  by (auto simp: map_index_def)

lemma open_handles:
  assumes "open_step t ch st c d S = Some (p', S')" and "here S (Opening st c d)"
  shows "handle_effect (Opening st c d) S p' S'"
proof (cases st)
  case O_find
  show ?thesis
  proof (cases "map_find d (cdevices S)")
    case None
    with O_find assms have "p' = Opening O_create c d"
      "S' = S\<lparr>cdevices := map_index None d (cdevices S), crw := wr_leave (crw S)\<rparr>"
      by (simp_all add: Let_def dm.find_index)
    with O_find show ?thesis by (intro handle_effect_same) simp_all
  next
    case (Some v)
    with O_find assms have "p' = Unlocking URead d At_rest"
      "S' = S\<lparr>cconns := cconns S @ [(c, d)], crw := wr_leave (crw S)\<rparr>" by simp_all
    with O_find show ?thesis by (intro handle_effect_same) simp_all
  qed
next
  case O_create
  with assms(1) have "(p' = Opening (O_rewrite None) c d \<and> S' = S) \<or>
    (\<exists>h. h \<notin> live S \<and> p' = Opening (O_rewrite (Some h)) c d \<and> S' = S\<lparr>live := insert h (live S)\<rparr>)"
    by (cases ch) (auto split: option.split_asm if_split_asm)
  then consider "p' = Opening (O_rewrite None) c d" "S' = S"
    | h where "h \<notin> live S" "p' = Opening (O_rewrite (Some h)) c d" "S' = S\<lparr>live := insert h (live S)\<rparr>"
    by blast
  then show ?thesis
  proof cases
    case 1
    with O_create show ?thesis by (intro handle_effect_same) auto
  next
    case (2 h)
    with O_create show ?thesis by (intro handle_effect_new [of h]) auto
  qed
next
  case (O_store purpc)
  have null: "map_find d (cdevices S) = Some None" using assms(2) O_store by simp
  show ?thesis
  proof (cases purpc)
    case None
    then have "p' = Unlocking URead d At_rest"
      "S' = S\<lparr>cdevices := map_erase d (cdevices S), crw := wr_leave (crw S)\<rparr>"
      using O_store assms null by (simp_all add: Let_def indexed_entry)
    with O_store None show ?thesis
      by (intro handle_effect_same) (simp_all add: entry_erase_null [OF null])
  next
    case (Some h)
    then have "p' = Unlocking URead d At_rest"
      "S' = S\<lparr>cdevices := map_store d (Some h) (cdevices S), cconns := cconns S @ [(c, d)], crw := wr_leave (crw S)\<rparr>"
      using O_store assms null by (auto simp: Let_def indexed_entry dm.find_store)
    with O_store Some null show ?thesis
      by (intro handle_effect_store [of _ _ _ h _ d]) (auto simp: entry_def dm.find_store)
  qed
next
  case O_read
  with assms show ?thesis by (intro handle_effect_same) auto
next
  case O_actual
  with assms show ?thesis by (intro handle_effect_same) (auto split: if_splits)
next
  case O_write
  with assms show ?thesis by (intro handle_effect_same) auto
next
  case (O_rewrite h)
  with assms show ?thesis by (intro handle_effect_same) auto
qed

lemma remove_handles:
  assumes "remove_step t st c d f S = Some (p', S')" and "here S (Removing st c d f)" and "p' \<noteq> Crashed"
  shows "handle_effect (Removing st c d f) S p' S'"
proof (cases st)
  case R_destroy
  then consider "map_find d (cdevices S) = Some None" "p' = Removing R_rewrite c d f" "S' = S"
    | h where "map_find d (cdevices S) = Some (Some h)" "p' = Removing R_rewrite c d f"
        "S' = S\<lparr>cdevices := map_store d None (cdevices S), live := live S - {h}\<rparr>"
    using assms by (auto split: option.splits if_splits)
  then show ?thesis
  proof cases
    case 1
    with R_destroy show ?thesis by (intro handle_effect_same) auto
  next
    case (2 h)
    with R_destroy show ?thesis
      by (intro handle_effect_close [of S d h]) (auto simp: entry_def dm.find_store)
  qed
next
  case R_drop
  with assms show ?thesis by (intro handle_effect_same) (auto simp: entry_erase_null)
next
  case R_actual
  show ?thesis using assms(1) unfolding R_actual
    by (intro handle_effect_same) (auto simp: Let_def split: if_splits option.splits)
next
  case R_others
  show ?thesis using assms(1) unfolding R_others
    by (intro handle_effect_same) (auto split: if_splits)
qed (use assms in \<open>auto intro!: handle_effect_same\<close>)

lemma request_handles:
  assumes "request_step t ch st d S = Some (p', S')" and "p' \<noteq> Crashed"
  shows "handle_effect (Requesting st d) S p' S'"
  using assms
  by (cases st) (auto intro!: handle_effect_same split: option.splits choice.splits if_splits)

lemma lock_handles:
  assumes "lock_step t st d k S = Some (p', S')" and "wf_pos (Locking st d k)"
  shows "handle_effect (Locking st d k) S p' S'"
  using assms
  by (cases st; cases k) (auto simp: Let_def intro!: handle_effect_same split: option.splits if_splits)

lemma unlock_handles:
  assumes "unlock_step t st d k S = Some (p', S')" and "wf_pos (Unlocking st d k)"
  shows "handle_effect (Unlocking st d k) S p' S'"
  using assms
  by (cases st; cases k) (auto simp: Let_def intro!: handle_effect_same split: option.splits if_splits)

lemma step_handles:
  assumes "cstep t ch p S = Some (p', S')" and "wf_pos p" and "here S p" and "p' \<noteq> Crashed"
  shows "handle_effect p S p' S'"
proof (cases p)
  case At_rest
  then show ?thesis using assms by (auto intro!: handle_effect_same split: choice.splits)
next
  case (Logging st)
  then show ?thesis using assms by (cases st) (auto intro!: handle_effect_same)
qed (use assms in \<open>simp_all add: open_handles remove_handles request_handles lock_handles unlock_handles del: wf_pos.simps here.simps\<close>)

text \<open>
  Handles in the table are open, no two devices share one, a handle on its way into the table is
  open and nowhere else, and no open handle is forgotten. \<open>C\<close>: what each thread carries.
\<close>

definition handles_ok :: "(nat \<Rightarrow> handle option) \<Rightarrow> shared \<Rightarrow> bool" where
  "handles_ok C S \<longleftrightarrow>
     (\<forall>d h. entry S d h \<longrightarrow> h \<in> live S) \<and>
     (\<forall>d e h. entry S d h \<longrightarrow> entry S e h \<longrightarrow> devid_equiv d e) \<and>
     (\<forall>t h. C t = Some h \<longrightarrow> h \<in> live S \<and> (\<forall>d. \<not> entry S d h)) \<and>
     (\<forall>t u h. C t = Some h \<longrightarrow> C u = Some h \<longrightarrow> t = u) \<and>
     (\<forall>h \<in> live S. (\<exists>d. entry S d h) \<or> (\<exists>t. C t = Some h))"

lemma handles_okD:
  assumes "handles_ok C S"
  shows "entry S d h \<Longrightarrow> h \<in> live S" and "entry S d h \<Longrightarrow> entry S e h \<Longrightarrow> devid_equiv d e"
    and "C t = Some h \<Longrightarrow> h \<in> live S" and "C t = Some h \<Longrightarrow> \<not> entry S d h"
    and "C t = Some h \<Longrightarrow> C u = Some h \<Longrightarrow> t = u"
    and "h \<in> live S \<Longrightarrow> (\<exists>d. entry S d h) \<or> (\<exists>t. C t = Some h)"
  using assms unfolding handles_ok_def by blast+

lemma handles_okI:
  assumes "\<And>d h. entry S d h \<Longrightarrow> h \<in> live S" and "\<And>d e h. entry S d h \<Longrightarrow> entry S e h \<Longrightarrow> devid_equiv d e"
    and "\<And>t h. C t = Some h \<Longrightarrow> h \<in> live S" and "\<And>t h d. C t = Some h \<Longrightarrow> \<not> entry S d h"
    and "\<And>t u h. C t = Some h \<Longrightarrow> C u = Some h \<Longrightarrow> t = u"
    and "\<And>h. h \<in> live S \<Longrightarrow> (\<exists>d. entry S d h) \<or> (\<exists>t. C t = Some h)"
  shows "handles_ok C S"
  using assms unfolding handles_ok_def by blast

lemma handles_step:
  assumes ok: "handles_ok C S" and "handle_effect p S p' S'" and C: "C t = carried p"
  shows "handles_ok (C(t := carried p')) S'"
  using assms(2) unfolding handle_effect_def
proof (elim disjE exE conjE, goal_cases)
  case 1
  then have "C(t := carried p') = C" using C by auto
  with 1 ok show ?case unfolding handles_ok_def by simp
next
  case (2 h)
  then have *: "\<not> entry S d h" "C u \<noteq> Some h" for d u using handles_okD(1,3) [OF ok] by blast+
  show ?case
  proof (rule handles_okI)
    show "h' \<in> live S'" if "entry S' d h'" for d h'
      using that 2 handles_okD(1) [OF ok] by auto
    show "devid_equiv d e" if "entry S' d h'" "entry S' e h'" for d e h'
      using that 2 handles_okD(2) [OF ok] by auto
    show "h' \<in> live S'" if "(C(t := carried p')) u = Some h'" for u h'
      using that 2 handles_okD(3) [OF ok] by (auto split: if_splits)
    show "\<not> entry S' d h'" if "(C(t := carried p')) u = Some h'" for u h' d
      using that 2 handles_okD(4) [OF ok] *(1) by (auto split: if_splits)
    show "u = v" if "(C(t := carried p')) u = Some h'" "(C(t := carried p')) v = Some h'" for u v h'
      using that 2 handles_okD(5) [OF ok] *(2) by (auto split: if_splits)
    show "(\<exists>d. entry S' d h') \<or> (\<exists>u. (C(t := carried p')) u = Some h')" if "h' \<in> live S'" for h'
    proof (cases "h' = h")
      case True
      then have "(C(t := carried p')) t = Some h'" using 2 by simp
      then show ?thesis by blast
    next
      case False
      from that False 2 have "h' \<in> live S" by simp
      then consider d where "entry S d h'" | u where "C u = Some h'"
        using handles_okD(6) [OF ok] by blast
      then show ?thesis
      proof cases
        case 1
        with 2 show ?thesis by auto
      next
        case (2 u)
        then have "(C(t := carried p')) u = Some h'" using C \<open>carried p = None\<close> by auto
        then show ?thesis by blast
      qed
    qed
  qed
next
  case (3 d h)
  have old: "entry S e h = False" "entry S d g = False" for e g
    using handles_okD(4) [OF ok, of t h e] C 3 by (auto simp: entry_def)
  have eq: "map_find e (cdevices S) = Some None" if "devid_equiv e d" for e using dm.find_same [OF that, of "cdevices S"] 3 by simp
  show ?case
  proof (rule handles_okI)
    show "h' \<in> live S'" if "entry S' e h'" for e h'
      using that 3 handles_okD(1) [OF ok] handles_okD(3) [OF ok, of t h] C by (auto split: if_splits)
    show "devid_equiv e e'" if "entry S' e h'" "entry S' e' h'" for e e' h'
    proof -
      have ent: "entry S' x h' \<longleftrightarrow> (if devid_equiv x d then h' = h else entry S x h')" for x using 3 by blast
      show ?thesis
      proof (cases "h' = h")
        case True
        then have "devid_equiv e d" "devid_equiv e' d" using that old ent by (metis (full_types))+
        then show ?thesis by (auto simp: devid_equiv_alt)
      next
        case False
        then have "entry S e h'" "entry S e' h'" using that ent by (metis (full_types))+
        then show ?thesis by (rule handles_okD(2) [OF ok])
      qed
    qed
    show "h' \<in> live S'" if "(C(t := carried p')) u = Some h'" for u h'
      using that 3 handles_okD(3) [OF ok] by (auto split: if_splits)
    show "\<not> entry S' e h'" if "(C(t := carried p')) u = Some h'" for u h' e
      using that 3 handles_okD(4,5) [OF ok] C by (auto split: if_splits)
    show "u = v" if "(C(t := carried p')) u = Some h'" "(C(t := carried p')) v = Some h'" for u v h'
      using that 3 handles_okD(5) [OF ok] by (auto split: if_splits)
    show "(\<exists>e. entry S' e h') \<or> (\<exists>u. (C(t := carried p')) u = Some h')" if "h' \<in> live S'" for h'
    proof (cases "h' = h")
      case True
      then have "entry S' d h'" using 3 by simp
      then show ?thesis by blast
    next
      case False
      from that 3 have "h' \<in> live S" by simp
      then consider e where "entry S e h'" | u where "C u = Some h'" using handles_okD(6) [OF ok] by blast
      then show ?thesis
      proof cases
        case 1
        then have "\<not> devid_equiv e d" using eq by (auto simp: entry_def)
        with 1 3 have "entry S' e h'" by simp
        then show ?thesis by blast
      next
        case 2
        with False C 3 have "(C(t := carried p')) u = Some h'" by auto
        then show ?thesis by blast
      qed
    qed
  qed
next
  case (4 d h)
  have C': "C(t := carried p') = C" using C 4 by auto
  have only: "devid_equiv e d" if "entry S e h" for e using handles_okD(2) [OF ok that] 4 by blast
  have not: "C u \<noteq> Some h" for u using handles_okD(4) [OF ok] 4 by blast
  show ?case unfolding C'
  proof (rule handles_okI)
    show "(\<exists>e. entry S' e g) \<or> (\<exists>u. C u = Some g)" if "g \<in> live S'" for g
    proof -
      have "entry S d' g \<Longrightarrow> \<not> devid_equiv d' d" for d'
        using dm.find_same [of d' d "cdevices S"] 4 that by (auto simp: entry_def)
      with handles_okD(6) [OF ok, of g] that 4 show ?thesis by blast
    qed
  qed (use 4 not only handles_okD [OF ok] in auto)
qed

end
