(* ===== verification/Concurrent_Invariant.thy ===== *)
theory Concurrent_Invariant
  imports Concurrent_Properties
begin

section \<open>Locks\<close>

definition rw_ok :: "(nat \<Rightarrow> mode) \<Rightarrow> rw \<Rightarrow> bool" where
  "rw_ok M l \<longleftrightarrow>
     (\<forall>t. t \<in> readers l \<longleftrightarrow> M t = Rd) \<and> (\<forall>t. writer l = Some t \<longleftrightarrow> M t = Wr) \<and>
     (writer l \<noteq> None \<longrightarrow> readers l = {})"

definition rw_effect :: "nat \<Rightarrow> mode \<Rightarrow> mode \<Rightarrow> rw \<Rightarrow> rw \<Rightarrow> bool" where
  "rw_effect t m m' l l' \<longleftrightarrow>
     (m' = m \<and> l' = l) \<or>
     (m = Free \<and> m' = Rd \<and> rd_enter t l = Some l') \<or> (m = Rd \<and> m' = Free \<and> l' = rd_leave t l) \<or>
     (m = Free \<and> m' = Wr \<and> wr_enter t l = Some l') \<or> (m = Wr \<and> m' = Free \<and> l' = wr_leave l)"

lemma rw_okD:
  assumes "rw_ok M l"
  shows "t \<in> readers l \<longleftrightarrow> M t = Rd" and "writer l = Some t \<longleftrightarrow> M t = Wr" and "writer l \<noteq> None \<Longrightarrow> readers l = {}"
  using assms unfolding rw_ok_def by blast+

lemma rw_ok_step:
  assumes ok: "rw_ok M l" and eff: "rw_effect t (M t) m' l l'"
  shows "rw_ok (M(t := m')) l'"
  using eff unfolding rw_effect_def
proof (elim disjE conjE, goal_cases)
  case 1
  then have "M(t := m') = M" by auto
  with 1 ok show ?case by simp
next
  case 2
  then show ?case using ok by (auto simp: rw_ok_def rd_enter_def split: if_splits)
next
  case 3
  then show ?case using ok by (auto simp: rw_ok_def rd_leave_def)
next
  case 4
  then show ?case using ok by (auto simp: rw_ok_def wr_enter_def split: if_splits)
next
  case 5
  then have w: "writer l = Some t" using ok by (simp add: rw_okD(2))
  then have "M u \<noteq> Wr" if "u \<noteq> t" for u using that ok rw_okD(2) [OF ok, of u] by auto
  then show ?case using 5 ok w by (auto simp: rw_ok_def wr_leave_def)
qed

lemma table_lock_step:
  assumes "cstep t ch p S = Some (p', S')" and "wf_pos p"
  shows "rw_effect t (table_mode p) (table_mode p') (crw S) (crw S')"
proof (cases p)
  case (Opening st c d)
  then show ?thesis using assms
    by (cases st) (auto simp: Let_def rw_effect_def split: option.splits choice.splits if_splits)
next
  case (Removing st c d f)
  then show ?thesis using assms
    by (cases st) (auto simp: Let_def rw_effect_def split: option.splits if_splits)
next
  case (Requesting st d)
  then show ?thesis using assms
    by (cases st) (auto simp: Let_def rw_effect_def split: option.splits choice.splits if_splits)
next
  case (Logging st)
  then show ?thesis using assms by (cases st) (auto simp: rw_effect_def split: option.splits)
next
  case (Locking st d k)
  then show ?thesis using assms
    by (cases st; cases k) (auto simp: Let_def rw_effect_def split: option.splits if_splits)
next
  case (Unlocking st d k)
  then show ?thesis using assms
    by (cases st; cases k) (auto simp: Let_def rw_effect_def split: option.splits qstage.splits if_splits)
qed (use assms in \<open>auto simp: rw_effect_def split: choice.splits\<close>)

lemma pool_lock_step:
  assumes "cstep t ch p S = Some (p', S')" and "wf_pos p"
  shows "rw_effect t (pool_mode p) (pool_mode p') (cpool_rw S) (cpool_rw S')"
proof (cases p)
  case (Opening st c d)
  then show ?thesis using assms
    by (cases st) (auto simp: Let_def rw_effect_def split: option.splits choice.splits if_splits)
next
  case (Removing st c d f)
  then show ?thesis using assms
    by (cases st) (auto simp: Let_def rw_effect_def split: option.splits if_splits)
next
  case (Requesting st d)
  then show ?thesis using assms
    by (cases st) (auto simp: Let_def rw_effect_def split: option.splits choice.splits if_splits)
next
  case (Logging st)
  then show ?thesis using assms by (cases st) (auto simp: rw_effect_def split: option.splits)
next
  case (Locking st d k)
  then show ?thesis using assms
    by (cases st; cases k) (auto simp: Let_def rw_effect_def split: option.splits if_splits)
next
  case (Unlocking st d k)
  then show ?thesis using assms
    by (cases st; cases k) (auto simp: Let_def rw_effect_def split: option.splits qstage.splits if_splits)
qed (use assms in \<open>auto simp: rw_effect_def split: choice.splits\<close>)

section \<open>The invariant of all interleavings\<close>

definition cinv :: "cstate \<Rightarrow> bool" where
  "cinv s = (case s of (ps, S) \<Rightarrow>
     (\<forall>t. ps t \<noteq> Crashed \<and> wf_pos (ps t) \<and> here S (ps t)) \<and> mutexes_ok ps S \<and>
     handles_ok (\<lambda>t. carried (ps t)) S \<and>
     rw_ok (\<lambda>t. table_mode (ps t)) (crw S) \<and> rw_ok (\<lambda>t. pool_mode (ps t)) (cpool_rw S))"

lemma cinvD:
  assumes "cinv (ps, S)"
  shows "ps t \<noteq> Crashed" "wf_pos (ps t)" "here S (ps t)" "mutexes_ok ps S" "handles_ok (\<lambda>t. carried (ps t)) S"
    "rw_ok (\<lambda>t. table_mode (ps t)) (crw S)" "rw_ok (\<lambda>t. pool_mode (ps t)) (cpool_rw S)"
  using assms by (simp_all add: cinv_def)

lemma no_crash_step:
  assumes inv: "cinv (ps, S)" and step: "cstep t ch (ps t) S = Some (p', S')"
  shows "p' \<noteq> Crashed"
proof
  assume "p' = Crashed"
  note step = step [unfolded this]
  have here: "here S (ps t)" and wf: "wf_pos (ps t)" and notcr: "ps t \<noteq> Crashed"
    using cinvD [OF inv] by auto
  have live: "map_find d (cdevices S) = Some (Some h) \<Longrightarrow> h \<in> live S" for d h
    using handles_okD(1) [OF cinvD(5) [OF inv]] by (simp add: entry_def)
  show False
  proof (cases "ps t")
    case (Opening st c d)
    then show ?thesis using step by (cases st) (auto simp: Let_def split: option.splits choice.splits if_splits)
  next
    case (Removing st c d f)
    then show ?thesis using step here live
      by (cases st) (auto simp: Let_def split: option.splits if_splits)
  next
    case (Requesting st d)
    then show ?thesis using step here live
      by (cases st) (auto simp: Let_def split: option.splits choice.splits if_splits)
  next
    case (Logging st)
    then show ?thesis using step by (cases st) (auto split: option.splits)
  next
    case (Locking st d k)
    then show ?thesis using step wf mutexesD(2) [OF cinvD(4) [OF inv], of t d k]
      by (cases st; cases k) (auto simp: Let_def split: option.splits if_splits)
  next
    case (Unlocking st d k)
    then have "map_find d (cpool S) = Some (Some t)" using mutexes_own [OF cinvD(4) [OF inv], of t d] by simp
    with Unlocking show ?thesis using step wf
      by (cases st; cases k) (auto simp: Let_def indexed_entry split: option.splits if_splits)
  qed (use step notcr in \<open>auto split: choice.splits\<close>)
qed

lemma lmutex_pool:
  assumes "cstep t ch p S = Some (Locking LMutex d k, S')" and "wf_pos p"
  shows "map_find d (cpool S') \<noteq> None"
proof (cases p)
  case (Opening st c d)
  then show ?thesis using assms by (cases st) (auto simp: Let_def split: option.splits choice.splits if_splits)
next
  case (Removing st c d f)
  then show ?thesis using assms by (cases st) (auto simp: Let_def split: option.splits if_splits)
next
  case (Requesting st d)
  then show ?thesis using assms
    by (cases st) (auto simp: Let_def split: option.splits choice.splits if_splits)
next
  case (Logging st)
  then show ?thesis using assms by (cases st) (auto split: option.splits)
next
  case (Locking st d k)
  then show ?thesis using assms
    by (cases st; cases k) (auto simp: Let_def dm.find_index split: option.splits if_splits)
next
  case (Unlocking st d k)
  then show ?thesis using assms
    by (cases st; cases k) (auto simp: Let_def split: option.splits if_splits)
qed (use assms in \<open>auto split: choice.splits\<close>)

lemma cinv_step:
  assumes inv: "cinv s" and step: "crun1 e s = Some s'"
  shows "cinv s'"
proof -
  obtain ps S t ch where s: "s = (ps, S)" and e: "e = (t, ch)" by (cases s; cases e) auto
  obtain p' S' where c: "cstep t ch (ps t) S = Some (p', S')" and s': "s' = (ps(t := p'), S')"
    using step by (auto simp: crun1_def s e)
  note inv = inv [unfolded s]
  note wf = cinvD(2) [OF inv]
  have ok: "p' \<noteq> Crashed" by (rule no_crash_step [OF inv c])
  have eff: "mutex_effect t (ps t) S p' S'"
    using step_mutex [OF c wf ok] mutexes_own [OF cinvD(4) [OF inv]] by blast
  have mut: "mutexes_ok (ps(t := p')) S'"
    using lmutex_pool [of t ch "ps t" S _ _ S'] c wf by (intro mutexes_step [OF cinvD(4) [OF inv] eff]) auto
  have others: "here S' (ps u)" if "u \<noteq> t" for u
  proof (rule here_frame [OF cinvD(3) [OF inv]])
    fix d assume d: "mutex_of (ps u) = Some d"
    show "map_find d (cdevices S') = map_find d (cdevices S)"
      using mutexes_same [OF cinvD(4) [OF inv] d] that by (intro dev_frame [OF c]) auto
  qed
  have "here S' p'" by (rule here_step [OF c cinvD(3) [OF inv] wf])
  moreover have "handles_ok (\<lambda>u. carried ((ps(t := p')) u)) S'"
    using handles_step [OF cinvD(5) [OF inv] step_handles [OF c wf cinvD(3) [OF inv] ok], of t]
    by (simp add: fun_upd_def if_distrib cong: if_cong)
  moreover have "rw_ok (\<lambda>u. table_mode ((ps(t := p')) u)) (crw S')"
    using rw_ok_step [OF cinvD(6) [OF inv] table_lock_step [OF c wf]]
    by (simp add: fun_upd_def if_distrib cong: if_cong)
  moreover have "rw_ok (\<lambda>u. pool_mode ((ps(t := p')) u)) (cpool_rw S')"
    using rw_ok_step [OF cinvD(7) [OF inv] pool_lock_step [OF c wf]]
    by (simp add: fun_upd_def if_distrib cong: if_cong)
  ultimately show ?thesis
    using ok others mut wf_step [OF c wf] cinvD(1,2) [OF inv] unfolding s' cinv_def by simp
qed

lemma cinv_run: "cinv s \<Longrightarrow> crun es s = Some s' \<Longrightarrow> cinv s'"
  by (induction es s rule: crun.induct) (auto split: bind_splits dest: cinv_step)

lemma cinv_start: "cinv cstart"
  by (simp add: cinv_def cstart_def mutexes_ok_def handles_ok_def entry_def rw_ok_def unlocked_rw_def)


end
