(* ===== verification/Concurrent_Connections.thy ===== *)
theory Concurrent_Connections
  imports Concurrent_Invariant
begin

section \<open>Identifiers without a reserved number\<close>

fun plain_pos :: "pos \<Rightarrow> bool" where
  "plain_pos (Opening st c d) \<longleftrightarrow> dev_reserve d = 0"
| "plain_pos (Removing st c d force) \<longleftrightarrow> dev_reserve d = 0"
| "plain_pos (Requesting st d) \<longleftrightarrow> dev_reserve d = 0"
| "plain_pos (Locking st d k) \<longleftrightarrow> dev_reserve d = 0 \<and> plain_pos k"
| "plain_pos (Unlocking st d k) \<longleftrightarrow> dev_reserve d = 0 \<and> plain_pos k"
| "plain_pos _ \<longleftrightarrow> True"

fun plain_choice :: "choice \<Rightarrow> bool" where
  "plain_choice (Call_open c d) \<longleftrightarrow> dev_reserve d = 0"
| "plain_choice (Call_remove c d) \<longleftrightarrow> dev_reserve d = 0"
| "plain_choice (Call_request d) \<longleftrightarrow> dev_reserve d = 0"
| "plain_choice _ \<longleftrightarrow> True"

definition plain_conns :: "shared \<Rightarrow> bool" where
  "plain_conns S \<longleftrightarrow> (\<forall>(c, d) \<in> set (cconns S). dev_reserve d = 0)"

lemma plain_equiv: "dev_reserve d = 0 \<Longrightarrow> dev_reserve e = 0 \<Longrightarrow> devid_equiv d e \<longleftrightarrow> d = e"
  by (auto simp: devid_equiv_alt)

lemma find_conn_mem: "find_conn c cs = Some item \<Longrightarrow> item \<in> set cs"
  by (auto simp: find_conn_def find_Some_iff)

lemma erase_conn_subset: "set (erase_conn c cs) \<subseteq> set cs"
  by (induction cs) auto

lemma any_serial_iff: "any_serial d cs \<longleftrightarrow> (\<exists>c. (c, d) \<in> set cs)"
  by (auto simp: any_serial_def find_None_iff)

lemma plain_step:
  assumes "cstep t ch p S = Some (p', S')" and "plain_pos p" and "plain_choice ch" and "plain_conns S"
  shows "plain_pos p' \<and> plain_conns S'"
proof (cases p)
  case At_rest
  then show ?thesis using assms by (auto split: choice.splits)
next
  case Crashed
  then show ?thesis using assms by simp
next
  case (Opening st c d)
  then show ?thesis using assms
    by (cases st) (auto simp: Let_def plain_conns_def split: option.splits choice.splits if_splits)
next
  case (Removing st c d f)
  have known: "dev_reserve (snd item) = 0" if "find_conn c (cconns S) = Some item" for item
    using find_conn_mem [OF that] assms(4) by (auto simp: plain_conns_def)
  have "set (erase_conn c (cconns S)) \<subseteq> set (cconns S)" by (rule erase_conn_subset)
  with Removing known show ?thesis using assms
    by (cases st) (auto simp: Let_def plain_conns_def mk_devid_def split: option.splits if_splits)
next
  case (Requesting st d)
  then show ?thesis using assms
    by (cases st) (auto simp: plain_conns_def split: option.splits choice.splits if_splits)
next
  case (Logging st)
  then show ?thesis using assms by (cases st) (auto simp: plain_conns_def)
next
  case (Locking st d k)
  then show ?thesis using assms
    by (cases st) (auto simp: Let_def plain_conns_def split: option.splits if_splits)
next
  case (Unlocking st d k)
  then show ?thesis using assms
    by (cases st) (auto simp: Let_def plain_conns_def split: option.splits if_splits)
qed

section \<open>Connections and null entries\<close>

text \<open>Where the entry of a device may hold no handle while the thread has its mutex.\<close>

fun nulling :: "pos \<Rightarrow> devid option" where
  "nulling (Opening O_create c d) = Some d"
| "nulling (Opening (O_rewrite h) c d) = Some d"
| "nulling (Opening (O_store h) c d) = Some d"
| "nulling (Removing R_rewrite c d force) = Some d"
| "nulling (Removing R_drop c d force) = Some d"
| "nulling (Requesting Q_call d) = Some d"
| "nulling _ = None"

text \<open>Where a device is taken out of the table.\<close>

fun closing :: "pos \<Rightarrow> devid option" where
  "closing (Removing R_destroy c d force) = Some d"
| "closing (Removing R_rewrite c d force) = Some d"
| "closing (Removing R_drop c d force) = Some d"
| "closing _ = None"

lemma nulling_mutex: "nulling p = Some d \<Longrightarrow> mutex_of p = Some d"
  by (induction p rule: nulling.induct) auto

lemma closing_mutex: "closing p = Some d \<Longrightarrow> mutex_of p = Some d"
  by (induction p rule: closing.induct) auto

definition conn_inv :: "cstate \<Rightarrow> bool" where
  "conn_inv s = (case s of (ps, S) \<Rightarrow>
     (\<forall>t. plain_pos (ps t)) \<and> plain_conns S \<and>
     (\<forall>c d. (c, d) \<in> set (cconns S) \<longrightarrow> d \<notin> set (lost S) \<longrightarrow> (\<exists>h. map_find d (cdevices S) = Some (Some h))) \<and>
     (\<forall>d. dev_reserve d = 0 \<longrightarrow> map_find d (cdevices S) = Some None \<longrightarrow> d \<notin> set (lost S) \<longrightarrow>
        (\<exists>t. nulling (ps t) = Some d)) \<and>
     (\<forall>t d. closing (ps t) = Some d \<longrightarrow> d \<notin> set (lost S) \<longrightarrow> (\<forall>c. (c, d) \<notin> set (cconns S))))"


text \<open>The same from one thread's point of view; \<open>N\<close>: where other threads may have null entries.\<close>

definition conn_here :: "(devid \<Rightarrow> bool) \<Rightarrow> pos \<Rightarrow> shared \<Rightarrow> bool" where
  "conn_here N p S \<longleftrightarrow>
     plain_pos p \<and> plain_conns S \<and>
     (\<forall>c d. (c, d) \<in> set (cconns S) \<longrightarrow> d \<notin> set (lost S) \<longrightarrow> (\<exists>h. map_find d (cdevices S) = Some (Some h))) \<and>
     (\<forall>d. dev_reserve d = 0 \<longrightarrow> map_find d (cdevices S) = Some None \<longrightarrow> d \<notin> set (lost S) \<longrightarrow>
        nulling p = Some d \<or> N d) \<and>
     (\<forall>d. closing p = Some d \<longrightarrow> d \<notin> set (lost S) \<longrightarrow> (\<forall>c. (c, d) \<notin> set (cconns S)))"

lemma conn_hereD:
  assumes "conn_here N p S"
  shows "plain_pos p" "plain_conns S" "(c, d) \<in> set (cconns S) \<Longrightarrow> dev_reserve d = 0"
    "(c, d) \<in> set (cconns S) \<Longrightarrow> d \<notin> set (lost S) \<Longrightarrow> \<exists>h. map_find d (cdevices S) = Some (Some h)"
    "dev_reserve d = 0 \<Longrightarrow> map_find d (cdevices S) = Some None \<Longrightarrow> d \<notin> set (lost S) \<Longrightarrow> nulling p = Some d \<or> N d"
    "closing p = Some d \<Longrightarrow> d \<notin> set (lost S) \<Longrightarrow> (c, d) \<notin> set (cconns S)"
  using assms unfolding conn_here_def plain_conns_def by blast+

lemma conn_hereI:
  assumes "cstep t ch p S = Some (p', S')" and "plain_choice ch" and "conn_here N p S"
    and "\<And>c d. (c, d) \<in> set (cconns S') \<Longrightarrow> d \<notin> set (lost S') \<Longrightarrow> dev_reserve d = 0 \<Longrightarrow>
           \<exists>h. map_find d (cdevices S') = Some (Some h)"
    and "\<And>d. dev_reserve d = 0 \<Longrightarrow> map_find d (cdevices S') = Some None \<Longrightarrow> d \<notin> set (lost S') \<Longrightarrow>
           nulling p' = Some d \<or> N d"
    and "\<And>d c. closing p' = Some d \<Longrightarrow> d \<notin> set (lost S') \<Longrightarrow> (c, d) \<notin> set (cconns S')"
  shows "conn_here N p' S'"
  using plain_step [OF assms(1) conn_hereD(1) [OF assms(3)] assms(2) conn_hereD(2) [OF assms(3)]] assms(4-6)
  unfolding conn_here_def by (auto simp: plain_conns_def)

lemma open_conns:
  assumes step: "open_step t ch st c d S = Some (p', S')" and here: "here S (Opening st c d)"
    and ch: "plain_choice ch" and J: "conn_here N (Opening st c d) S" and N: "\<And>e. N e \<Longrightarrow> mutex_of (Opening st c d) \<noteq> Some e"
  shows "conn_here N p' S'"
proof -
  note J4 = conn_hereD(4) [OF J] and J5 = conn_hereD(5) [OF J]
  have d: "dev_reserve d = 0" using conn_hereD(1) [OF J] by simp
  have equiv: "devid_equiv e d \<longleftrightarrow> e = d" if "dev_reserve e = 0" for e using plain_equiv that d by blast
  have cs: "cstep t ch (Opening st c d) S = Some (p', S')" using step by simp
  show ?thesis
  proof (rule conn_hereI [OF cs ch J], goal_cases)
    case (1 c' d')
    show ?case
    proof (cases "st = O_find \<and> map_find d (cdevices S) \<noteq> None")
      case True
      then obtain y where y: "map_find d (cdevices S) = Some y" by blast
      have "y = None \<Longrightarrow> d \<in> set (lost S)" using True y J5 [of d] d N [of d] by auto
      then show ?thesis using step 1 True y J4 [of c' d'] by (cases y) auto
    next
      case False
      then show ?thesis using step here 1 J4 [of c' d'] d equiv [of d']
        by (cases st) (auto simp: Let_def dm.find_index dm.find_store dm.find_erase indexed_entry
            split: option.splits choice.splits if_splits)
    qed
  next
    case (2 d')
    show ?case using step here 2 J5 [of d'] d N [of d] equiv [of d']
      by (cases st) (auto simp: Let_def dm.find_index dm.find_store dm.find_erase indexed_entry
          split: option.splits choice.splits if_splits)
  next
    case (3 d' c')
    then show ?case using step
      by (cases st) (auto simp: Let_def split: option.splits choice.splits if_splits)
  qed
qed


lemma remove_conns:
  assumes step: "remove_step t st c d f S = Some (p', S')" and here: "here S (Removing st c d f)"
    and ok: "p' \<noteq> Crashed"
    and ch: "plain_choice ch" and J: "conn_here N (Removing st c d f) S"
  shows "conn_here N p' S'"
proof -
  note J3 = conn_hereD(3) [OF J] and J4 = conn_hereD(4) [OF J] and J5 = conn_hereD(5) [OF J] and J6 = conn_hereD(6) [OF J]
  have d: "dev_reserve d = 0" using conn_hereD(1) [OF J] by simp
  have equiv: "devid_equiv e d \<longleftrightarrow> e = d" if "dev_reserve e = 0" for e using plain_equiv that d by blast
  have sub: "(x, e) \<in> set (erase_conn c (cconns S)) \<Longrightarrow> (x, e) \<in> set (cconns S)" for x e
    using erase_conn_subset by blast
  have cs: "cstep t ch (Removing st c d f) S = Some (p', S')" using step by simp
  show ?thesis
  proof (rule conn_hereI [OF cs ch J], goal_cases)
    case (1 c' d')
    then show ?case using step here ok J4 [of c' d'] J6 [of d c'] d equiv [of d'] sub [of c' d']
      by (cases st) (auto simp: Let_def dm.find_store dm.find_erase split: option.split_asm if_splits)
  next
    case (2 d')
    show ?case using step here ok 2 J5 [of d'] d equiv [of d']
      by (cases st) (auto simp: Let_def dm.find_store dm.find_erase split: option.splits if_splits)
  next
    case (3 d' c')
    then show ?case using step ok J6 [of d' c']
      by (cases st) (auto simp: Let_def any_serial_iff split: option.splits if_splits)
  qed
qed

lemma request_conns:
  assumes step: "request_step t ch st d S = Some (p', S')" and here: "here S (Requesting st d)"
    and ok: "p' \<noteq> Crashed" and ch: "plain_choice ch" and J: "conn_here N (Requesting st d) S"
  shows "conn_here N p' S'"
proof -
  note J4 = conn_hereD(4) [OF J] and J5 = conn_hereD(5) [OF J]
  have d: "dev_reserve d = 0" using conn_hereD(1) [OF J] by simp
  have equiv: "devid_equiv e d \<longleftrightarrow> e = d" if "dev_reserve e = 0" for e using plain_equiv that d by blast
  have cs: "cstep t ch (Requesting st d) S = Some (p', S')" using step by simp
  show ?thesis
  proof (rule conn_hereI [OF cs ch J], goal_cases)
    case (1 c' d')
    then show ?case using step here ok J4 [of c' d'] d equiv [of d']
      by (cases st) (auto simp: dm.find_index split: option.split_asm choice.splits if_splits)
  next
    case (2 d')
    then show ?case using step here ok J5 [of d'] d equiv [of d']
      by (cases st) (auto simp: dm.find_index split: option.split_asm choice.splits if_splits)
  next
    case (3 d' c')
    then show ?case using step ok
      by (cases st) (auto split: option.splits choice.splits if_splits)
  qed
qed

lemma silent_conns:
  assumes step: "cstep t ch p S = Some (p', S')" and ch: "plain_choice ch" and J: "conn_here N p S"
    and same: "cconns S' = cconns S" "cdevices S' = cdevices S" "lost S' = lost S"
    and none: "nulling p = None" "closing p' = None"
  shows "conn_here N p' S'"
  using conn_hereD(4-6) [OF J] same none by (intro conn_hereI [OF step ch J]) auto

lemma step_conns:
  assumes step: "cstep t ch p S = Some (p', S')" and here: "here S p" and wf: "wf_pos p"
    and ok: "p' \<noteq> Crashed" and ch: "plain_choice ch" and J: "conn_here N p S"
    and N: "\<And>e. N e \<Longrightarrow> mutex_of p \<noteq> Some e"
  shows "conn_here N p' S'"
proof (cases p)
  case (Opening st c d)
  then show ?thesis using open_conns [of t ch st c d S p' S' N] assms by simp
next
  case (Removing st c d f)
  then show ?thesis using remove_conns [of t st c d f S p' S' ch N] assms by simp
next
  case (Requesting st d)
  then show ?thesis using request_conns [of t ch st d S p' S' N] assms by simp
next
  case (Logging st)
  show ?thesis using step unfolding Logging
    by (intro silent_conns [OF _ ch J]; cases st) (auto simp: Logging)
next
  case (Locking st d k)
  show ?thesis using step wf unfolding Locking
    by (intro silent_conns [OF _ ch J]; cases st; cases k) (auto simp: Locking Let_def split: option.splits if_splits)
next
  case (Unlocking st d k)
  show ?thesis using step wf unfolding Unlocking
    by (intro silent_conns [OF _ ch J]; cases st; cases k) (auto simp: Unlocking Let_def split: option.splits if_splits qstage.splits)
next
  case At_rest
  then show ?thesis using step
    by (intro silent_conns [OF step ch J]) (auto split: choice.splits)
qed (use step in simp)

text \<open>What the others can see of a step: connections come and go for the device of its mutex only.\<close>

lemma step_others:
  assumes "cstep t ch p S = Some (p', S')"
  shows "set (lost S) \<subseteq> set (lost S')"
    and "(c, d) \<in> set (cconns S') \<Longrightarrow> (c, d) \<in> set (cconns S) \<or> mutex_of p = Some d"
proof -
  have "set (lost S) \<subseteq> set (lost S') \<and> ((c, d) \<in> set (cconns S') \<longrightarrow> (c, d) \<in> set (cconns S) \<or> mutex_of p = Some d)"
  proof (cases p)
    case (Opening st c d)
    then show ?thesis using assms
      by (cases st) (auto simp: Let_def split: option.splits choice.splits if_splits)
  next
    case (Removing st c' d f)
    then show ?thesis using assms erase_conn_subset [of c' "cconns S"]
      by (cases st) (auto simp: Let_def split: option.splits if_splits)
  next
    case (Requesting st d)
    then show ?thesis using assms by (cases st) (auto split: option.splits choice.splits if_splits)
  next
    case (Logging st)
    then show ?thesis using assms by (cases st) (auto split: option.splits)
  next
    case (Locking st d k)
    then show ?thesis using assms by (cases st) (auto simp: Let_def split: option.splits if_splits)
  next
    case (Unlocking st d k)
    then show ?thesis using assms by (cases st) (auto simp: Let_def split: option.splits if_splits)
  qed (use assms in \<open>auto split: choice.splits\<close>)
  then show "set (lost S) \<subseteq> set (lost S')"
    and "(c, d) \<in> set (cconns S') \<Longrightarrow> (c, d) \<in> set (cconns S) \<or> mutex_of p = Some d" by auto
qed

lemma conn_inv_step:
  assumes inv: "cinv s" and conn: "conn_inv s" and plain: "plain_choice (snd e)" and step: "crun1 e s = Some s'"
  shows "conn_inv s'"
proof -
  obtain ps S t ch where s: "s = (ps, S)" and e: "e = (t, ch)" by (cases s; cases e) auto
  obtain p' S' where c: "cstep t ch (ps t) S = Some (p', S')" and s': "s' = (ps(t := p'), S')"
    using step by (auto simp: crun1_def s e)
  note inv = inv [unfolded s]
  have alone: "mutex_of (ps t) \<noteq> Some d" if "u \<noteq> t" "mutex_of (ps u) = Some d" for u d
    using mutexes_same [OF cinvD(4) [OF inv] that(2), of t d] that(1) by auto
  define N where "N d \<longleftrightarrow> (\<exists>u. u \<noteq> t \<and> nulling (ps u) = Some d)" for d
  have "conn_here N (ps t) S" 
  proof -
    have "nulling (ps t) = Some d \<or> N d" if d: "dev_reserve d = 0" "map_find d (cdevices S) = Some None" "d \<notin> set (lost S)" for d
    proof -
      obtain u where "nulling (ps u) = Some d" using conn d unfolding conn_inv_def s prod.case by blast
      then show ?thesis unfolding N_def by (cases "u = t") auto
    qed
    then show ?thesis using conn unfolding conn_inv_def s prod.case conn_here_def by simp
  qed
  moreover have "mutex_of (ps t) \<noteq> Some d" if N: "N d" for d
  proof -
    obtain u where "u \<noteq> t" "nulling (ps u) = Some d" using N unfolding N_def by blast
    then show ?thesis using alone [of u d] nulling_mutex by blast
  qed
  ultimately have J: "conn_here N p' S'"
    using step_conns [OF c cinvD(3) [OF inv] cinvD(2) [OF inv] no_crash_step [OF inv c]] plain e by simp
  have others: "(x, d) \<notin> set (cconns S')" if "u \<noteq> t" "closing (ps u) = Some d" "d \<notin> set (lost S')" for u d x
  proof
    assume "(x, d) \<in> set (cconns S')"
    then have "(x, d) \<in> set (cconns S) \<or> mutex_of (ps t) = Some d" using step_others(2) [OF c] by blast
    moreover have "(x, d) \<notin> set (cconns S)"
      using conn that(2,3) step_others(1) [OF c] unfolding conn_inv_def s prod.case by blast
    moreover have "mutex_of (ps t) \<noteq> Some d"
      by (rule alone [OF that(1) closing_mutex [OF that(2)]])
    ultimately show False by blast
  qed
  have "plain_pos (ps u)" for u using conn by (simp add: conn_inv_def s)
  moreover have "\<exists>u. nulling ((ps(t := p')) u) = Some d"
    if "dev_reserve d = 0" "map_find d (cdevices S') = Some None" "d \<notin> set (lost S')" for d
    using conn_hereD(5) [OF J that] unfolding N_def by (metis fun_upd_other fun_upd_same)
  ultimately show ?thesis
    using others conn_hereD [OF J] unfolding conn_inv_def s' by simp
qed

lemma conn_inv_run:
  "cinv s \<Longrightarrow> conn_inv s \<Longrightarrow> \<forall>e \<in> set es. plain_choice (snd e) \<Longrightarrow> crun es s = Some s' \<Longrightarrow> conn_inv s'"
  by (induction es s rule: crun.induct) (auto split: bind_splits dest: cinv_step conn_inv_step)

lemma conn_inv_start: "conn_inv cstart"
  by (simp add: conn_inv_def cstart_def plain_conns_def)



end
