(* ===== verification/Concurrent_Progress.thy ===== *)
theory Concurrent_Progress
  imports Concurrent_Invariant
begin

text \<open>
  The handler threads do not block each other for good: as long as one of them is inside a method some
  thread can take its next step, whichever the order in which the locks let them in, and no call takes
  more than thirty steps of its own.
\<close>

section \<open>Who can go on\<close>

definition can_step :: "nat \<Rightarrow> cstate \<Rightarrow> bool" where
  "can_step t s \<longleftrightarrow> (\<exists>ch. crun1 (t, ch) s \<noteq> None)"

text \<open>The locks a position is about to take.\<close>

fun wants_table :: "pos \<Rightarrow> mode" where
  "wants_table (Opening O_read c d) = Rd"
| "wants_table (Opening O_write c d) = Wr"
| "wants_table (Opening (O_rewrite h) c d) = Wr"
| "wants_table (Removing R_read c d force) = Rd"
| "wants_table (Removing R_write c d force) = Wr"
| "wants_table (Removing R_reread c d force) = Rd"
| "wants_table (Removing R_rewrite c d force) = Wr"
| "wants_table (Requesting Q_read d) = Rd"
| "wants_table (Logging G_read) = Rd"
| "wants_table _ = Free"

fun wants_pool :: "pos \<Rightarrow> mode" where
  "wants_pool (Locking LRead d k) = Rd"
| "wants_pool (Locking LWrite d k) = Wr"
| "wants_pool (Unlocking URead d k) = Rd"
| "wants_pool _ = Free"

fun wants_mutex :: "pos \<Rightarrow> devid option" where
  "wants_mutex (Locking LMutex d k) = Some d"
| "wants_mutex _ = None"

lemma rd_enter_free: "writer l = None \<Longrightarrow> rd_enter t l \<noteq> None"
  by (simp add: rd_enter_def)

lemma wr_enter_free: "writer l = None \<Longrightarrow> readers l = {} \<Longrightarrow> wr_enter t l \<noteq> None"
  by (simp add: wr_enter_def)

text \<open>A thread that waits for nothing, or for what is free, has a next step.\<close>

lemma open_can:
  assumes "wants_table (Opening st c d) \<noteq> Free \<Longrightarrow> writer (crw S) = None \<and> readers (crw S) = {}"
  shows "\<exists>ch. open_step t ch st c d S \<noteq> None"
proof (cases st)
  case O_create
  have "open_step t (New_handle None) O_create c d S \<noteq> None" by simp
  then show ?thesis unfolding O_create by blast
qed (use assms in \<open>auto simp: Let_def rd_enter_def wr_enter_def\<close>)

lemma remove_can:
  assumes "wants_table (Removing st c d f) \<noteq> Free \<Longrightarrow> writer (crw S) = None \<and> readers (crw S) = {}"
  shows "remove_step t st c d f S \<noteq> None"
  using assms by (cases st) (auto simp: Let_def rd_enter_def wr_enter_def split: option.splits)

lemma request_can:
  assumes "wants_table (Requesting st d) \<noteq> Free \<Longrightarrow> writer (crw S) = None \<and> readers (crw S) = {}"
  shows "\<exists>ch. request_step t ch st d S \<noteq> None"
proof (cases st)
  case Q_call
  have "request_step t (Device_result 0) Q_call d S \<noteq> None" by (auto split: option.splits)
  then show ?thesis unfolding Q_call by blast
qed (use assms in \<open>auto simp: rd_enter_def\<close>)

lemma step_can:
  assumes "wants_table p \<noteq> Free \<Longrightarrow> writer (crw S) = None \<and> readers (crw S) = {}"
    and "wants_pool p \<noteq> Free \<Longrightarrow> writer (cpool_rw S) = None \<and> readers (cpool_rw S) = {}"
    and "\<And>d u. wants_mutex p = Some d \<Longrightarrow> map_find d (cpool S) \<noteq> Some (Some u)" and "p \<noteq> Crashed"
  shows "\<exists>ch. cstep t ch p S \<noteq> None"
proof (cases p)
  case At_rest
  have "cstep t Call_log At_rest S \<noteq> None" by simp
  then show ?thesis unfolding At_rest by blast
next
  case (Opening st c d)
  then show ?thesis using open_can [of st c d S t] assms(1) by simp
next
  case (Removing st c d f)
  then show ?thesis using remove_can [of st c d f S t] assms(1) by simp
next
  case (Requesting st d)
  then show ?thesis using request_can [of st d S t] assms(1) by simp
next
  case (Logging st)
  then show ?thesis using assms(1) by (cases st) (auto simp: rd_enter_def)
next
  case (Locking st d k)
  then show ?thesis using assms(2,3)
    by (cases st) (auto simp: Let_def rd_enter_def wr_enter_def split: option.splits)
next
  case (Unlocking st d k)
  then show ?thesis using assms(2) by (cases st) (auto simp: Let_def rd_enter_def)
qed (use assms in simp)

text \<open>What a thread holds and what it wants never coincide.\<close>

lemma holder_wants_nothing: "table_mode p \<noteq> Free \<Longrightarrow> wants_table p = Free \<and> wants_pool p = Free \<and> wants_mutex p = None"
  by (induction p rule: table_mode.induct) auto

lemma pool_holder_wants_nothing: "pool_mode p \<noteq> Free \<Longrightarrow> wants_table p = Free \<and> wants_pool p = Free \<and> wants_mutex p = None"
  by (induction p rule: pool_mode.induct) auto

lemma mutex_holder_wants_no_mutex: "mutex_of p \<noteq> None \<Longrightarrow> wants_mutex p = None"
  by (induction p rule: mutex_of.induct) auto

lemma writer_wants_one_lock: "wants_table p = Wr \<Longrightarrow> wants_pool p = Free \<and> wants_mutex p = None"
  by (induction p rule: wants_table.induct) auto

lemma pool_writer_wants_one_lock: "wants_pool p = Wr \<Longrightarrow> wants_table p = Free \<and> wants_mutex p = None"
  by (induction p rule: wants_pool.induct) auto

lemma free_of_modes:
  assumes "rw_ok M l" and "\<forall>t. M t = Free"
  shows "writer l = None" and "readers l = {}"
proof -
  have "writer l \<noteq> Some t" for t using rw_okD(2) [OF assms(1), of t] assms(2) by simp
  then show "writer l = None" by (cases "writer l") auto
  show "readers l = {}" using rw_okD(1) [OF assms(1)] assms(2) by auto
qed

text \<open>
  A thread may be let in: its next step is possible, and when that takes a lock for reading no
  thread waits to write under it (writers come first).
\<close>

definition may_go :: "nat \<Rightarrow> cstate \<Rightarrow> bool" where
  "may_go t s \<longleftrightarrow> can_step t s \<and>
     (wants_table (fst s t) = Rd \<longrightarrow> (\<forall>u. wants_table (fst s u) \<noteq> Wr)) \<and>
     (wants_pool (fst s t) = Rd \<longrightarrow> (\<forall>u. wants_pool (fst s u) \<noteq> Wr))"

lemma can_stepI:
  assumes "cinv (ps, S)"
    and "wants_table (ps t) \<noteq> Free \<Longrightarrow> writer (crw S) = None \<and> readers (crw S) = {}"
    and "wants_pool (ps t) \<noteq> Free \<Longrightarrow> writer (cpool_rw S) = None \<and> readers (cpool_rw S) = {}"
    and "\<And>d u. wants_mutex (ps t) = Some d \<Longrightarrow> map_find d (cpool S) \<noteq> Some (Some u)"
  shows "can_step t (ps, S)"
  using step_can [of "ps t" S t] assms cinvD(1) [OF assms(1)]
  by (auto simp: can_step_def crun1_def split_def)

lemma some_thread_goes:
  assumes inv: "cinv (ps, S)" and busy: "ps t \<noteq> At_rest"
  shows "\<exists>u. ps u \<noteq> At_rest \<and> may_go u (ps, S)"
proof -
  note ok = cinvD(4) [OF inv] and table = cinvD(6) [OF inv] and pool = cinvD(7) [OF inv]
  consider (holds) u where "table_mode (ps u) \<noteq> Free" | (pool) u where "pool_mode (ps u) \<noteq> Free"
    | (free) "\<forall>u. table_mode (ps u) = Free" "\<forall>u. pool_mode (ps u) = Free" by blast
  then show ?thesis
  proof cases
    case holds
    note none = holder_wants_nothing [OF this]
    have "can_step u (ps, S)" by (rule can_stepI [OF inv]) (use none in simp_all)
    with none holds show ?thesis by (intro exI [of _ u]) (auto simp: may_go_def)
  next
    case pool
    note none = pool_holder_wants_nothing [OF this]
    have "can_step u (ps, S)" by (rule can_stepI [OF inv]) (use none in simp_all)
    with none pool show ?thesis by (intro exI [of _ u]) (auto simp: may_go_def)
  next
    case free
    note locks = free_of_modes [OF table free(1)] free_of_modes [OF pool free(2)]
    have go: "can_step u (ps, S)" if "\<And>d v. wants_mutex (ps u) = Some d \<Longrightarrow> map_find d (cpool S) \<noteq> Some (Some v)" for u
      by (rule can_stepI [OF inv]) (use locks that in auto)
    consider (table_writer) u where "wants_table (ps u) = Wr" | (pool_writer) u where "wants_pool (ps u) = Wr"
      | (mutex) d v where "wants_mutex (ps t) = Some d" "map_find d (cpool S) = Some (Some v)"
          "\<forall>u. wants_table (ps u) \<noteq> Wr \<and> wants_pool (ps u) \<noteq> Wr"
      | (self) "\<And>d v. wants_mutex (ps t) = Some d \<Longrightarrow> map_find d (cpool S) \<noteq> Some (Some v)"
          "\<forall>u. wants_table (ps u) \<noteq> Wr \<and> wants_pool (ps u) \<noteq> Wr" by blast
    then show ?thesis
    proof cases
      case table_writer
      note one = writer_wants_one_lock [OF this]
      have "can_step u (ps, S)" using one by (intro go) simp
      with one table_writer show ?thesis by (intro exI [of _ u]) (auto simp: may_go_def)
    next
      case pool_writer
      note one = pool_writer_wants_one_lock [OF this]
      have "can_step u (ps, S)" using one by (intro go) simp
      with one pool_writer show ?thesis by (intro exI [of _ u]) (auto simp: may_go_def)
    next
      case mutex
      then have v: "mutex_of (ps v) \<noteq> None" using mutexesD(1) [OF ok, of d v] by auto
      have "can_step v (ps, S)" using mutex_holder_wants_no_mutex [OF v] by (intro go) simp
      with v mutex(3) show ?thesis by (intro exI [of _ v]) (auto simp: may_go_def)
    next
      case self
      have "can_step t (ps, S)" using self(1) by (rule go)
      with self(2) busy show ?thesis by (intro exI [of _ t]) (auto simp: may_go_def)
    qed
  qed
qed

section \<open>How long a call takes\<close>

text \<open>An upper bound of the steps that a thread still has to take.\<close>

fun work :: "pos \<Rightarrow> nat" where
  "work At_rest = 0"
| "work Crashed = 0"
| "work (Locking st d k) =
     (case st of LRead \<Rightarrow> 5 | LFind \<Rightarrow> 4 | LWrite \<Rightarrow> 3 | LInsert \<Rightarrow> 2 | LMutex \<Rightarrow> 1) + work k"
| "work (Unlocking st d k) = (case st of URead \<Rightarrow> 3 | UFind \<Rightarrow> 2 | UIndex \<Rightarrow> 1) + work k"
| "work (Opening st c d) =
     (case st of O_read \<Rightarrow> 15 | O_actual \<Rightarrow> 14 | O_write \<Rightarrow> 8 | O_find \<Rightarrow> 7 | O_create \<Rightarrow> 6
      | O_rewrite h \<Rightarrow> 5 | O_store h \<Rightarrow> 4)"
| "work (Removing st c d force) =
     (case st of R_read \<Rightarrow> 17 | R_actual \<Rightarrow> 16 | R_write \<Rightarrow> 10 | R_erase \<Rightarrow> 9 | R_reread \<Rightarrow> 8
      | R_others \<Rightarrow> 7 | R_destroy \<Rightarrow> 6 | R_rewrite \<Rightarrow> 5 | R_drop \<Rightarrow> 4)"
| "work (Requesting st d) =
     (case st of Q_read \<Rightarrow> 30 | Q_find \<Rightarrow> 29 | Q_index \<Rightarrow> 23 | Q_call \<Rightarrow> 22 | Q_result r \<Rightarrow> 18)"
| "work (Logging st) = (case st of G_read \<Rightarrow> 2 | G_list \<Rightarrow> 1)"

lemma work_step:
  assumes "cstep t ch p S = Some (p', S')"
  shows "work p' + 1 \<le> work p + (if p = At_rest then 31 else 0)"
proof (cases p)
  case At_rest
  then show ?thesis using assms by (auto split: choice.splits)
next
  case (Opening st c d)
  then show ?thesis using assms
    by (cases st) (auto simp: Let_def split: option.splits choice.splits if_splits)
next
  case (Removing st c d f)
  then show ?thesis using assms by (cases st) (auto simp: Let_def split: option.splits if_splits)
next
  case (Requesting st d)
  then show ?thesis using assms by (cases st) (auto split: option.splits choice.splits if_splits)
next
  case (Logging st)
  then show ?thesis using assms by (cases st) (auto split: option.splits)
next
  case (Locking st d k)
  then show ?thesis using assms by (cases st) (auto simp: Let_def split: option.splits if_splits)
next
  case (Unlocking st d k)
  then show ?thesis using assms by (cases st) (auto simp: Let_def split: option.splits if_splits)
qed (use assms in simp)

text \<open>The calls that begin in a run.\<close>

fun begun :: "(nat \<times> choice) list \<Rightarrow> cstate \<Rightarrow> nat" where
  "begun [] s = 0"
| "begun (e # es) s = (if fst s (fst e) = At_rest then 1 else 0) + (case crun1 e s of None \<Rightarrow> 0 | Some s' \<Rightarrow> begun es s')"

lemma work_run:
  assumes "finite T" and "fst ` set es \<subseteq> T" and "crun es s = Some s'"
  shows "length es + (\<Sum>t\<in>T. work (fst s' t)) \<le> 31 * begun es s + (\<Sum>t\<in>T. work (fst s t))"
  using assms(2,3)
proof (induction es s rule: crun.induct)
  case (1 s)
  then show ?case by simp
next
  case (2 e es s)
  obtain t ch ps S where e: "e = (t, ch)" and s: "s = (ps, S)" by (cases e; cases s) auto
  obtain p' S' where c: "cstep t ch (ps t) S = Some (p', S')" and next_state: "crun1 e s = Some (ps(t := p'), S')"
    using 2 by (auto simp: e s crun1_def split: bind_splits)
  have t: "t \<in> T" using 2(2) e by simp
  have "(\<Sum>u\<in>T. work ((ps(t := p')) u)) = work p' + (\<Sum>u\<in>T - {t}. work (ps u))"
    using assms(1) t by (simp add: sum.remove)
  moreover have "(\<Sum>u\<in>T. work (ps u)) = work (ps t) + (\<Sum>u\<in>T - {t}. work (ps u))"
    using assms(1) t by (simp add: sum.remove)
  moreover have "length es + (\<Sum>u\<in>T. work (fst s' u)) \<le> 31 * begun es (ps(t := p'), S') + (\<Sum>u\<in>T. work ((ps(t := p')) u))"
    using 2(1) [OF next_state] 2(2,3) next_state by simp
  ultimately show ?case using work_step [OF c] by (simp add: e s crun1_def c split: if_splits)
qed


end
