(* ===== verification/Concurrent_Races.thy ===== *)
theory Concurrent_Races
  imports Concurrent_Connections Concurrent_Progress
begin

text \<open>
  Which accesses of two handler threads may meet: what each position reads and writes when the thread
  goes on, the places where two threads can do that to one object at a time with one of them writing,
  and runs that lead there.
\<close>

section \<open>Accesses\<close>

text \<open>
  The nodes of the map of devices, the list of connections, the nodes of the pool of mutexes, and the
  handle in the entry of a device.
\<close>

datatype loc = Map_tree | Conn_list | Pool_tree | Entry devid

fun same_loc :: "loc \<Rightarrow> loc \<Rightarrow> bool" where
  "same_loc (Entry d) (Entry e) \<longleftrightarrow> devid_equiv d e"
| "same_loc l l' \<longleftrightarrow> l = l'"

fun reads :: "pos \<Rightarrow> loc \<Rightarrow> bool" where
  "reads (Opening O_actual c d) l \<longleftrightarrow> l = Conn_list"
| "reads (Opening O_find c d) l \<longleftrightarrow> l = Map_tree \<or> l = Entry d"
| "reads (Opening (O_store h) c d) l \<longleftrightarrow> l = Map_tree \<or> l = Entry d"
| "reads (Removing R_actual c d force) l \<longleftrightarrow> l = Conn_list"
| "reads (Removing R_erase c d force) l \<longleftrightarrow> l = Conn_list"
| "reads (Removing R_others c d force) l \<longleftrightarrow> l = Map_tree \<or> l = Conn_list"
| "reads (Removing R_destroy c d force) l \<longleftrightarrow> l = Entry d"
| "reads (Removing R_drop c d force) l \<longleftrightarrow> l = Map_tree"
| "reads (Requesting Q_find d) l \<longleftrightarrow> l = Map_tree"
| "reads (Requesting Q_index d) l \<longleftrightarrow> l = Map_tree"
| "reads (Requesting Q_call d) l \<longleftrightarrow> l = Entry d"
| "reads (Logging G_list) l \<longleftrightarrow> l \<noteq> Pool_tree"
| "reads (Locking LFind d k) l \<longleftrightarrow> l = Pool_tree"
| "reads (Locking LInsert d k) l \<longleftrightarrow> l = Pool_tree"
| "reads (Unlocking UFind d k) l \<longleftrightarrow> l = Pool_tree"
| "reads (Unlocking UIndex d k) l \<longleftrightarrow> l = Pool_tree"
| "reads _ l \<longleftrightarrow> False"

fun writes :: "shared \<Rightarrow> pos \<Rightarrow> loc \<Rightarrow> bool" where
  "writes S (Opening O_find c d) l \<longleftrightarrow>
     (if map_find d (cdevices S) = None then l = Map_tree \<or> l = Entry d else l = Conn_list)"
| "writes S (Opening (O_store h) c d) l \<longleftrightarrow>
     l = Entry d \<or> (if h = None then l = Map_tree else l = Conn_list)"
| "writes S (Removing R_erase c d force) l \<longleftrightarrow> l = Conn_list"
| "writes S (Removing R_destroy c d force) l \<longleftrightarrow> l = Entry d"
| "writes S (Removing R_drop c d force) l \<longleftrightarrow> l = Map_tree \<or> l = Entry d"
| "writes S (Requesting Q_index d) l \<longleftrightarrow> map_find d (cdevices S) = None \<and> (l = Map_tree \<or> l = Entry d)"
| "writes S (Locking LInsert d k) l \<longleftrightarrow> map_find d (cpool S) = None \<and> l = Pool_tree"
| "writes S (Unlocking UIndex d k) l \<longleftrightarrow> map_find d (cpool S) = None \<and> l = Pool_tree"
| "writes S _ l \<longleftrightarrow> False"

definition race :: "cstate \<Rightarrow> nat \<Rightarrow> nat \<Rightarrow> loc \<Rightarrow> loc \<Rightarrow> bool" where
  "race s t u l l' \<longleftrightarrow> t \<noteq> u \<and> same_loc l l' \<and> writes (snd s) (fst s t) l \<and>
     (reads (fst s u) l' \<or> writes (snd s) (fst s u) l')"

fun at_index :: "pos \<Rightarrow> bool" where
  "at_index (Requesting Q_index d) = True"
| "at_index _ = False"

fun at_uindex :: "pos \<Rightarrow> bool" where
  "at_uindex (Unlocking UIndex d k) = True"
| "at_uindex _ = False"

fun at_destroy :: "pos \<Rightarrow> bool" where
  "at_destroy (Removing R_destroy c d force) = True"
| "at_destroy _ = False"

section \<open>What protects the accesses\<close>

lemma tree_access:
  "writes S p Map_tree \<Longrightarrow> table_mode p = Wr \<or> at_index p"
  "reads p Map_tree \<Longrightarrow> table_mode p \<noteq> Free \<or> at_index p"
  by (induction p rule: table_mode.induct) (auto split: if_splits elim: reads.elims writes.elims)

lemma list_access:
  "writes S p Conn_list \<Longrightarrow> table_mode p = Wr" "reads p Conn_list \<Longrightarrow> table_mode p \<noteq> Free"
  by (induction p rule: table_mode.induct) (auto split: if_splits elim: reads.elims writes.elims)

lemma pool_access:
  "writes S p Pool_tree \<Longrightarrow> pool_mode p = Wr \<or> (\<exists>d k. p = Unlocking UIndex d k \<and> map_find d (cpool S) = None)"
  "reads p Pool_tree \<Longrightarrow> pool_mode p \<noteq> Free \<or> at_uindex p"
  by (induction p rule: pool_mode.induct) (auto split: if_splits elim: reads.elims writes.elims)

lemma entry_access:
  "writes S p (Entry d) \<Longrightarrow> mutex_of p = Some d \<and> (table_mode p = Wr \<or> at_index p \<or> at_destroy p)"
  "reads p (Entry d) \<Longrightarrow> mutex_of p = Some d \<or> p = Logging G_list"
  by (induction p rule: table_mode.induct) (auto split: if_splits elim: reads.elims writes.elims)


lemma wr_pool_position: "pool_mode p = Wr \<Longrightarrow> \<exists>d k. p = Locking LInsert d k"
  by (induction p rule: pool_mode.induct) auto

lemma lock_excludes:
  assumes "rw_ok M l" and "M t = Wr" and "t \<noteq> u"
  shows "M u = Free"
proof -
  have w: "writer l = Some t" using rw_okD(2) [OF assms(1)] assms(2) by simp
  then have "M u \<noteq> Wr" using rw_okD(2) [OF assms(1), of u] assms(3) by auto
  moreover have "M u \<noteq> Rd" using rw_okD(1,3) [OF assms(1)] w by blast
  ultimately show ?thesis by (cases "M u") auto
qed


section \<open>Runs that lead to the races\<close>

definition go :: "nat \<Rightarrow> nat \<Rightarrow> (nat \<times> choice) list" where
  "go t n = replicate n (t, Go)"

text \<open>The events of an open that creates the device, of a request, of a close of the last connection.\<close>

definition open_events :: "nat \<Rightarrow> conn_id_t \<Rightarrow> devid \<Rightarrow> handle \<Rightarrow> (nat \<times> choice) list" where
  "open_events t c d h = (t, Call_open c d) # go t 9 @ [(t, New_handle (Some h))] @ go t 5"

definition device_a :: devid where "device_a = mk_devid 1 0 0 0"
definition device_b :: devid where "device_b = mk_devid 2 0 0 0"

definition map_race :: "(nat \<times> choice) list" where
  "map_race = open_events 0 1 device_a 7 @ (1, Call_request device_a) # go 1 5 @ (2, Call_open 2 device_b) # go 2 8"

definition pool_race :: "(nat \<times> choice) list" where
  "pool_race = open_events 0 1 device_a 7 @ (1, Call_remove 1 device_a) # go 1 14 @ (2, Call_open 2 device_b) # go 2 5"

definition entry_race :: "(nat \<times> choice) list" where
  "entry_race = open_events 0 1 device_a 7 @ (1, Call_remove 1 device_a) # go 1 9 @ (2, Call_log) # go 2 1"

lemma replicate_num: "replicate (numeral k) x = x # replicate (pred_numeral k) x"
  by (simp add: numeral_eq_Suc)

lemmas run_defs = go_def open_events_def device_a_def device_b_def mk_devid_def cstart_def unlocked_rw_def
  crun1_def replicate_num Let_def rd_enter_def rd_leave_def wr_enter_def wr_leave_def
  map_index_def map_store_def map_erase_def devid_less_alt devid_equiv_alt find_conn_def any_serial_def UINT32_MAX_def


lemma map_race_run: "\<exists>ps S. crun map_race cstart = Some (ps, S) \<and> race (ps, S) 2 1 Map_tree Map_tree"
  by (simp add: run_defs map_race_def race_def)



definition stale_request :: "(nat \<times> choice) list" where
  "stale_request =
     open_events 0 1 device_a 7 @ (1, Call_request device_a) # go 1 2 @
     (0, Call_remove 1 device_a) # go 0 15 @ go 1 8 @ (2, Call_open 2 device_a) # go 2 10 @ go 1 16"


lemma opened_run:
  "\<exists>ps S. crun (open_events 0 1 device_a 7) cstart = Some (ps, S) \<and> cconns S = [(1, device_a)] \<and> lost S = [] \<and>
     live S = {7}"
  by (simp add: run_defs)

lemma opening_run: "\<exists>ps S. crun [(3, Call_log)] cstart = Some (ps, S) \<and> ps 3 \<noteq> At_rest"
  by (simp add: run_defs)




end
