(* ===== verification/Server_Simu.thy ===== *)
theory Server_Simu
  imports System
begin

text \<open>
  The server simulator (\<open>test/server_simu/server_simu.cpp\<close>): three devices without any hardware,
  which answer the client in all three protocol versions. What the handler does for bindy is the
  list of packets it sends; its parts differ in the class of the object only by the table of
  schemas, so the protocol object is left out.
\<close>

section \<open>The simulator\<close>

definition serials :: "u32 list" where
  "serials = [3, 7, 12]"

definition is_serial_ok :: "u32 \<Rightarrow> bool" where
  "is_serial_ok serial \<longleftrightarrow> serial \<in> set serials"

definition last_server_version :: u32 where
  "last_server_version = 3"

text \<open>\<open>mbuf >> z >> ddev\<close> and \<open>mbuf >> z >> edev\<close> after version and packet type.\<close>

definition simu_ddev :: "mbuf \<Rightarrow> u32" where
  "simu_ddev m = (let (m, z) = get32 m (Hex32 0 False); (m, ddev) = get32 m (Hex32 0 False) in value32 ddev)"

definition simu_edev :: "mbuf \<Rightarrow> devid" where
  "simu_edev m = (let (m, z) = get32 m (Hex32 0 False); (m, edev) = get_idev3 m (HexIDev3 None False) in toDevId edev)"

text \<open>The records of an enumeration of version 1: a little-endian number, and 180 bytes in all.\<close>

fun simu_enum1 :: "u32 list \<Rightarrow> mbuf \<Rightarrow> mbuf" where
  "simu_enum1 [] resp = resp"
| "simu_enum1 (dev # devs) resp = simu_enum1 devs (mseek (put32 resp (Hex32 dev True)) (180 - 4))"

fun simu_enum3 :: "u32 list \<Rightarrow> mbuf \<Rightarrow> mbuf" where
  "simu_enum3 [] resp = resp"
| "simu_enum3 (dev # devs) resp = simu_enum3 devs (put_idev3 resp (HexIDev3 (Some (devid_of_id dev)) False))"

text \<open>An answer from the class's own table; a type that the table does not have leads to a null schema.\<close>

definition table_answer :: "u32 \<Rightarrow> cmd_schema list \<Rightarrow> u32 \<Rightarrow> devid \<Rightarrow> u32 \<Rightarrow> u32 \<Rightarrow> bvector option" where
  "table_answer pckt schemas protocol_ver dev zero_one some =
     Option.bind (get_schema pckt schemas) (\<lambda>cm. gen_plain_command cm protocol_ver dev zero_one some)"

definition yes_no :: "u32 \<Rightarrow> u32" where
  "yes_no serial = (if is_serial_ok serial then 1 else 0)"

definition simu1 :: "conn_id_t \<Rightarrow> mbuf \<Rightarrow> u32 \<Rightarrow> (conn_id_t \<times> bvector) list option" where
  "simu1 c m command_code =
     (let one = (\<lambda>answer. map_option (\<lambda>a. [(c, a)]) answer); ddev = simu_ddev m in
      if command_code = 3 then
        let len = plain_length_loop ''v_p_0_u'' 0; nd = word_of_nat (length serials);
            resp = put32s (MBuf_size (len + 180 * uint nd) False) [1, 253, 0, nd]
        in Some [(c, to_vector (simu_enum1 serials resp) False)]
      else if command_code = 0 then
        one (gen_plain_command \<lparr>pkt_type = 0, schema = Some ''v_p_0_d_0_0_0''\<rparr> 1 (devid_of_id ddev) 0 0)
      else if command_code = 1 then
        one (table_answer 255 Protocol1_cmd_schemas 1 (devid_of_id ddev) (yes_no ddev) 0)
      else if command_code = 2 then
        one (table_answer 254 Protocol1_cmd_schemas 1 (devid_of_id ddev) 1 0)
      else Some [])"

text \<open>Version 2, with the table of version 1.\<close>

definition simu2 :: "conn_id_t \<Rightarrow> mbuf \<Rightarrow> u32 \<Rightarrow> (conn_id_t \<times> bvector) list option" where
  "simu2 c m command_code =
     (let one = (\<lambda>answer. map_option (\<lambda>a. [(c, a)]) answer); ddev = simu_ddev m in
      if command_code = 3 then
        one (gen_plain_command \<lparr>pkt_type = 253, schema = Some ''v_p_0_d_0_0_0''\<rparr> 2 (devid_of_id ddev) 0 0)
      else if command_code = 1 then
        one (table_answer 255 Protocol1_cmd_schemas 2 (devid_of_id ddev) (yes_no ddev) 0)
      else if command_code = 2 then
        one (table_answer 254 Protocol1_cmd_schemas 2 (devid_of_id ddev) 1 0)
      else Some [])"

text \<open>Version 3: the answers carry \<open>ddev\<close>, which nothing has been read into.\<close>

definition simu3 :: "conn_id_t \<Rightarrow> mbuf \<Rightarrow> u32 \<Rightarrow> (conn_id_t \<times> bvector) list option" where
  "simu3 c m command_code =
     (let one = (\<lambda>answer. map_option (\<lambda>a. [(c, a)]) answer); ddev = (0 :: u32) in
      if command_code = 4 then
        let len = plain_length_loop ''v_p_0_0_0_0_0_0_u'' 0; nd = word_of_nat (length serials);
            resp = put32s (MBuf_size (len + uint nd * 12) False) [3, 252, 0, 0, 0, 0, 0, 0, nd]
        in Some [(c, to_vector (put32 (simu_enum3 serials resp) (Hex32 0 False)) False)]
      else if command_code = 3 then
        one (gen_plain_command \<lparr>pkt_type = 253, schema = Some ''v_p_0_I_0_0_u_0''\<rparr> 3 (devid_of_id ddev) 0 1)
      else if command_code = 1 then
        one (table_answer 255 Protocol3_cmd_schemas 3 (devid_of_id ddev) (yes_no (dev_id (simu_edev m))) 0)
      else if command_code = 2 then
        one (table_answer 254 Protocol3_cmd_schemas 3 (devid_of_id ddev) 1 0)
      else if command_code = 5 then
        one (table_answer 251 Protocol3_cmd_schemas 3 (devid_of_id ddev) 0 3)
      else Some [])"

text \<open>The handler: it throws (\<open>None\<close> inside), sends packets, or builds a text from a null pointer (\<open>None\<close>).\<close>

definition simu_callback_data :: "conn_id_t \<Rightarrow> bvector \<Rightarrow> (conn_id_t \<times> bvector) list option option" where
  "simu_callback_data c data =
     (if length data < 16 then Some None
      else
        let protocol_ver = get_version_of_cmd data; command_code = get_pckt_of_cmd data in
        if protocol_ver > last_server_version then Some (Some [])
        else
          let m = mseek (MBuf_data data True) (4 * 2) in
          map_option Some
            (if protocol_ver = 1 then simu1 c m command_code
             else if protocol_ver = 2 then simu2 c m command_code
             else if protocol_ver = 3 then simu3 c m command_code
             else Some []))"

section \<open>The simulator as the network\<close>

text \<open>As for the server: packets are handled when sent, and arrive when the client waits.\<close>

record simu =
  s_inbox :: "(conn_id_t \<times> bvector) list"
  s_next :: conn_id_t
  s_down :: bool

definition simu_net :: "simu net_env" where
  "simu_net =
     \<lparr>net_init = (\<lambda>S. (True, S)),
      net_connect = (\<lambda>h a S. if s_next S = cl_invalid then (None, S)
                             else (Some (s_next S), S\<lparr>s_next := s_next S + 1\<rparr>)),
      net_disconnect = (\<lambda>c S. (True, S)),
      net_send = (\<lambda>c d S. if s_down S then (False, S)
                          else (True, case simu_callback_data c d of
                                        Some (Some pkts) \<Rightarrow> S\<lparr>s_inbox := s_inbox S @ pkts\<rparr>
                                      | _ \<Rightarrow> S\<lparr>s_down := True\<rparr>)),
      net_early = (\<lambda>S. ([], S)),
      net_wait = (\<lambda>S. (s_inbox S, S\<lparr>s_inbox := []\<rparr>))\<rparr>"

end
