(* ===== verification/Simu_Client.thy ===== *)
theory Simu_Client
  imports Server_Simu
begin

text \<open>
  The client library against the simulator: what it answers, and the calls of the library in the three
  versions.
\<close>

section \<open>The answers\<close>

lemma skip2: "length rest < 2 ^ 29 \<Longrightarrow>
    mseek (rbuf 0 [] (be32 v @ be32 k @ rest)) 8 = rbuf 0 (be32 v @ be32 k) rest"
  using mseek_over [of "[]" "be32 v @ be32 k" rest 0] by simp

lemma simu_head:
  assumes "length rest < 2 ^ 29" and "8 \<le> length rest" and "v \<in> {1, 2, 3}"
  shows "simu_callback_data c (be32 v @ be32 k @ rest) = map_option Some
    ((if v = 1 then simu1 else if v = 2 then simu2 else simu3) c (rbuf 0 (be32 v @ be32 k) rest) k)"
  using assms skip2 [OF assms(1), of v k]
  by (auto simp: simu_callback_data_def last_server_version_def buf_simps codec_simps)

lemma simu_ddev_be: "length rest < 2 ^ 29 \<Longrightarrow> length pre < 2 ^ 29 \<Longrightarrow> simu_ddev (rbuf 0 pre (be32 t @ be32 s @ rest)) = s"
  by (simp add: simu_ddev_def buf_simps)

lemma simu_edev_be: "length rest < 2 ^ 29 \<Longrightarrow> length pre < 2 ^ 29 \<Longrightarrow> simu_edev (rbuf 0 pre (be32 t @ be_devid d @ rest)) = d"
  by (simp add: simu_edev_def buf_simps)

lemmas simu_tables = table_answer_def Protocol1_cmd_schemas_def Protocol3_cmd_schemas_def gen_plain_command_bytes letter_bytes_def letter_length_def
  yes_no_def

lemma simu_answers12:
  assumes "length rest < 2 ^ 28"
  shows "simu_callback_data c (head12 1 1 s @ rest) = Some (Some [(c, head12 1 255 s @ be32 (yes_no s))])"
    and "simu_callback_data c (head12 1 2 s @ rest) = Some (Some [(c, head12 1 254 s @ be32 1)])"
    and "simu_callback_data c (head12 1 0 s @ rest) = Some (Some [(c, head12 1 0 s @ be32 0)])"
    and "simu_callback_data c (head12 2 1 s @ rest) = Some (Some [(c, head12 2 255 s @ be32 (yes_no s))])"
    and "simu_callback_data c (head12 2 2 s @ rest) = Some (Some [(c, head12 2 254 s @ be32 1)])"
    and "simu_callback_data c (head12 2 3 s @ rest) = Some (Some [(c, head12 2 253 s @ be32 0)])"
  using assms
  by (simp_all add: head12_def simu_head simu_ddev_be simu1_def simu2_def simu_tables)

lemma simu_answers3:
  assumes "length rest < 2 ^ 28"
  shows "simu_callback_data c (head3 1 0 d @ rest) =
      Some (Some [(c, head3 255 0 (devid_of_id 0) @ be32 (yes_no (dev_id d)))])"
    and "simu_callback_data c (head3 2 0 d @ rest) = Some (Some [(c, head3 254 0 (devid_of_id 0) @ be32 1)])"
    and "simu_callback_data c (head3 3 0 d @ rest) = Some (Some [(c, head3 253 0 (devid_of_id 0) @ be32 1 @ be32 0)])"
    and "simu_callback_data c (head3 5 0 d @ rest) = Some (Some [(c, head3 251 0 (devid_of_id 0) @ be32 3)])"
  using assms be_devid_zero
  by (simp_all add: head3_def simu_head simu_edev_be simu3_def simu_tables)


section \<open>Calls over a link, in any version\<close>

abbreviation client_proto :: "u32 \<Rightarrow> aproto" where
  "client_proto u \<equiv> \<lparr>is_server = False, res_err = u, perror = 0\<rparr>"

context exchange_link
begin

lemma open_device_same:
  assumes "heap L p = Some c" and "bmap L (conn_id c) = Some p"
    and v: "server_protocol_version c \<in> {1, 2, 3}"
    and "answer (conn_id c) (create_open_request (class_of (server_protocol_version c)) (client_dev_id c) 3000) (net L) = Some (r, w)"
    and "get_version_of_cmd r = server_protocol_version c"
    and x: "get_data_from_bindy_callback (class_of (server_protocol_version c)) (client_proto u) (MBuf_data r True) u = Some x"
      "cd_ok x" "translate_response (class_of (server_protocol_version c)) (cd_proto x) (cd_pckt x) (cd_res x) = (pr, res)"
  shows "\<exists>c'. open_device env u p L = Some (res, L\<lparr>heap := (heap L)(p \<mapsto> c'), net := w\<rparr>) \<and>
    last_error c' = (if res then perror pr else ERR_DEVICE_OPEN) \<and>
    server_protocol_version c' = server_protocol_version c \<and> client_dev_id c' = client_dev_id c \<and> conn_id c' = conn_id c"
proof -
  let ?L0 = "L\<lparr>heap := (heap L)(p \<mapsto> c\<lparr>last_error := 0\<rparr>)\<rparr>"
  have sent: "send_and_receive env p (create_open_request (class_of (server_protocol_version c)) (client_dev_id c) 3000) ?L0 =
      Some (True, L\<lparr>heap := (heap L)(p \<mapsto> c\<lparr>last_error := 0, is_really_recv := True, recv_message := r\<rparr>), net := w\<rparr>)"
    using send_and_receive_answer [of ?L0 p "c\<lparr>last_error := 0\<rparr>"] assms(2,4) by simp
  have proto: "make_protocol u (c\<lparr>last_error := 0\<rparr>) = Some (class_of (server_protocol_version c), client_proto u)"
    using make_protocol_class [of "c\<lparr>last_error := 0\<rparr>" u] v by simp
  show ?thesis
    using assms(1,5) sent proto x open_request_not_empty
    by (simp add: open_device_def clr_errors_def set_error_def other_version_def parse_received_def
        fail_with_def Let_def client_order lib_order) (auto intro!: exI)
qed

lemma send_data_and_receive_same:
  assumes "heap L p = Some c" and "bmap L (conn_id c) = Some p" and "conn_id c \<noteq> cl_invalid"
    and v: "server_protocol_version c \<in> {1, 2, 3}"
    and req: "create_cmd_request (class_of (server_protocol_version c)) (client_dev_id c) 3000 (Some data) n = Some req" "req \<noteq> []"
    and "answer (conn_id c) req (net L) = Some (r, w)"
    and x: "get_data_from_bindy_callback (class_of (server_protocol_version c)) (client_proto u) (MBuf_data r True) u = Some x"
  shows "\<exists>c'. send_data_and_receive env u p data n L =
      Some (if cd_ok x then cd_data x else [], L\<lparr>heap := (heap L)(p \<mapsto> c'), net := w\<rparr>) \<and>
    last_error c' = perror (cd_proto x) \<and> server_protocol_version c' = server_protocol_version c \<and>
    client_dev_id c' = client_dev_id c \<and> conn_id c' = conn_id c"
proof -
  let ?L0 = "L\<lparr>heap := (heap L)(p \<mapsto> c\<lparr>last_error := 0\<rparr>)\<rparr>"
  have sent: "send_and_receive env p req ?L0 =
      Some (True, L\<lparr>heap := (heap L)(p \<mapsto> c\<lparr>last_error := 0, is_really_recv := True, recv_message := r\<rparr>), net := w\<rparr>)"
    using send_and_receive_answer [of ?L0 p "c\<lparr>last_error := 0\<rparr>"] assms(2,7) by simp
  have proto: "make_protocol u (c\<lparr>last_error := 0\<rparr>) = Some (class_of (server_protocol_version c), client_proto u)"
    using make_protocol_class [of "c\<lparr>last_error := 0\<rparr>" u] v by simp
  show ?thesis
    using assms(1-3) req sent proto x
    by (simp add: send_data_and_receive_def clr_errors_def set_error_def is_connected_def bh_is_connected_def
        parse_received_def client_order lib_order) (auto intro!: exI)
qed

lemma close_connection_device_same:
  assumes "heap L p = Some c" and "bmap L (conn_id c) = Some p" and "conn_id c \<noteq> cl_invalid" and "bindy L"
    and v: "server_protocol_version c \<in> {1, 2, 3}"
    and req: "create_close_request (class_of (server_protocol_version c)) (client_dev_id c) 3000 = req" "req \<noteq> []"
    and "answer (conn_id c) req (net L) = Some (r, w)" and leave: "net_disconnect env (conn_id c) w = (True, w')"
    and x: "get_data_from_bindy_callback (class_of (server_protocol_version c)) (client_proto u) (MBuf_data r True) u = Some x"
      "translate_response (class_of (server_protocol_version c)) (cd_proto x) (cd_pckt x) (cd_res x) = (pr, res)"
  shows "\<exists>c'. close_connection_device env u p L =
      Some (res, L\<lparr>bmap := (bmap L)(conn_id c := None), heap := (heap L)(p \<mapsto> c'), net := w'\<rparr>)"
proof -
  let ?L0 = "L\<lparr>heap := (heap L)(p \<mapsto> c\<lparr>last_error := 0\<rparr>)\<rparr>"
  have sent: "send_and_receive env p req ?L0 =
      Some (True, L\<lparr>heap := (heap L)(p \<mapsto> c\<lparr>last_error := 0, is_really_recv := True, recv_message := r\<rparr>), net := w\<rparr>)"
    using send_and_receive_answer [of ?L0 p "c\<lparr>last_error := 0\<rparr>"] assms(2,8) by simp
  have proto: "make_protocol u (c\<lparr>last_error := 0\<rparr>) = Some (class_of (server_protocol_version c), client_proto u)"
    using make_protocol_class [of "c\<lparr>last_error := 0\<rparr>" u] v by simp
  show ?thesis
    using assms(1-4) req sent proto x leave
    by (simp add: close_connection_device_def clr_errors_def set_error_def is_connected_def bh_is_connected_def
        parse_received_def disconnect_def bh_disconnect_def instance_bindy_def client_order lib_order Let_def)
      (auto intro!: exI)
qed

end


section \<open>The simulator as a link\<close>

definition simu_answer :: "conn_id_t \<Rightarrow> bvector \<Rightarrow> simu \<Rightarrow> (bvector \<times> simu) option" where
  "simu_answer c d S =
     (if s_down S \<or> s_inbox S \<noteq> [] then None
      else case simu_callback_data c d of
             Some (Some [(c', pkt)]) \<Rightarrow> if c' = c then Some (pkt, S) else None
           | _ \<Rightarrow> None)"

interpretation simu: exchange_link simu_net simu_answer
proof
  fix c d w r w'
  assume "simu_answer c d w = Some (r, w')"
  then have "s_inbox w = []" "\<not> s_down w" "simu_callback_data c d = Some (Some [(c, r)])" "w' = w"
    by (auto simp: simu_answer_def split: if_splits option.splits list.splits)
  then show "\<exists>w1 w2. net_send simu_net c d w = (True, w1) \<and> net_early simu_net w1 = ([], w2) \<and>
      net_wait simu_net w2 = ([(c, r)], w')"
    by (cases w) (simp add: simu_net_def)
qed

lemma simu_answer_one:
  "simu_callback_data c d = Some (Some [(c, r)]) \<Longrightarrow>
   simu_answer c d \<lparr>s_inbox = [], s_next = k, s_down = False\<rparr> = Some (r, \<lparr>s_inbox = [], s_next = k, s_down = False\<rparr>)"
  by (simp add: simu_answer_def)

text \<open>Nothing is under way, and the numbers from \<open>k\<close> on are not in use.\<close>

definition resting :: "conn_id_t \<Rightarrow> simu lib \<Rightarrow> bool" where
  "resting k L \<longleftrightarrow> net L = \<lparr>s_inbox = [], s_next = k, s_down = False\<rparr> \<and> k \<noteq> cl_invalid \<and> (\<forall>j \<ge> k. bmap L j = None)"

definition linked :: "u32 \<Rightarrow> conn_id_t \<Rightarrow> devid \<Rightarrow> 'w lib \<Rightarrow> bool" where
  "linked v k d L \<longleftrightarrow> k \<noteq> cl_invalid \<and> bindy L \<and>
     (\<exists>p c. bmap L k = Some p \<and> heap L p = Some c \<and> conn_id c = k \<and> client_dev_id c = d \<and> server_protocol_version c = v)"

lemma resting_next:
  assumes "resting k L" and "k + 1 \<noteq> cl_invalid" and "net L' = \<lparr>s_inbox = [], s_next = k + 1, s_down = False\<rparr>"
    and "\<And>j. j \<noteq> k \<Longrightarrow> bmap L' j = bmap L j"
  shows "resting (k + 1) L'"
proof -
  have "k < k + 1" using next_number [of k] assms(2) by (simp add: cl_invalid_def)
  then have "j \<noteq> k \<and> j \<ge> k" if "j \<ge> k + 1" for j using that by auto
  with assms show ?thesis by (simp add: resting_def)
qed

lemma simu_open_connection:
  assumes "heap L p = Some c" and "resting k L"
  shows "open_connection simu_net p L = Some (True,
    L\<lparr>bindy := True, bmap := (bmap L)(k \<mapsto> p), heap := (heap L)(p \<mapsto> c\<lparr>conn_id := k, last_error := 0\<rparr>),
      net := \<lparr>s_inbox = [], s_next = k + 1, s_down = False\<rparr>\<rparr>)"
  using assms
  by (cases "bindy L") (simp_all add: resting_def open_connection_def clr_errors_def set_error_def bh_connect_def
      instance_bindy_def simu_net_def client_order lib_order)

lemma simu_disconnect:
  assumes "heap L p = Some c" and "conn_id c \<noteq> cl_invalid" and "bindy L"
  shows "disconnect simu_net p L = Some (
    L\<lparr>bmap := (bmap L)(conn_id c := None), heap := (heap L)(p \<mapsto> c\<lparr>conn_id := cl_invalid\<rparr>)\<rparr>)"
  using assms
  by (simp add: disconnect_def bh_disconnect_def instance_bindy_def simu_net_def client_order lib_order)

lemma version_cases: "v \<in> {1, 2, 3} \<Longrightarrow> (v = 1 \<Longrightarrow> P) \<Longrightarrow> (v = 2 \<Longrightarrow> P) \<Longrightarrow> (v = 3 \<Longrightarrow> P) \<Longrightarrow> P" for v :: u32
  by auto

lemma version_head:
  "get_version_of_cmd (head12 v k s @ rest) = v AND 0xFF" "get_version_of_cmd (head3 k t d @ rest) = 3"
  by (simp_all add: head12_def head3_def codec_simps)

lemma head_nonempty: "head12 v k s \<noteq> []" "head3 k t d \<noteq> []"
  using length_head by (metis length_0_conv zero_neq_numeral)+

text \<open>What the client reads in the answers to open, close and command.\<close>

lemma simu_open_read:
  assumes "v \<in> {1, 2, 3}"
  shows "\<exists>r x. simu_callback_data c (create_open_request (class_of v) d t) = Some (Some [(c, r)]) \<and>
    get_version_of_cmd r = v \<and>
    get_data_from_bindy_callback (class_of v) (client_proto u) (MBuf_data r True) u = Some x \<and> cd_ok x \<and>
    translate_response (class_of v) (cd_proto x) (cd_pckt x) (cd_res x) =
      ((client_proto u)\<lparr>res_err := yes_no (dev_id d)\<rparr>, is_serial_ok (dev_id d))"
  using assms
proof (rule version_cases)
  assume "v = 1"
  then show ?thesis using simu_answers12(1) [of "[]" c "dev_id d"]
    by (simp add: class_of_def Protocol1_request_bytes client_result12 Protocol1_translate_response_def yes_no_def version_head)
next
  assume "v = 2"
  then show ?thesis using simu_answers12(4) [of "[]" c "dev_id d"]
    by (simp add: class_of_def Protocol2_request_bytes client_result12 Protocol2_translate_response_def yes_no_def version_head)
next
  assume "v = 3"
  then show ?thesis using simu_answers3(1) [of "[]" c d]
    by (simp add: class_of_def Protocol3_request_bytes client_result3 Protocol3_translate_response_def yes_no_def version_head)
qed


lemma simu_close_read:
  assumes "v \<in> {1, 2, 3}"
  shows "\<exists>r x pr. simu_callback_data c (create_close_request (class_of v) d t) = Some (Some [(c, r)]) \<and>
    create_close_request (class_of v) d t \<noteq> [] \<and>
    get_data_from_bindy_callback (class_of v) (client_proto u) (MBuf_data r True) u = Some x \<and>
    translate_response (class_of v) (cd_proto x) (cd_pckt x) (cd_res x) = (pr, True)"
  using assms
proof (rule version_cases)
  assume "v = 1"
  then show ?thesis using simu_answers12(2) [of "[]" c "dev_id d"]
    by (simp add: class_of_def Protocol1_request_bytes client_result12 Protocol1_translate_response_def head_nonempty)
next
  assume "v = 2"
  then show ?thesis using simu_answers12(5) [of "[]" c "dev_id d"]
    by (simp add: class_of_def Protocol2_request_bytes client_result12 Protocol2_translate_response_def head_nonempty)
next
  assume "v = 3"
  then show ?thesis using simu_answers3(2) [of "[]" c d]
    by (simp add: class_of_def Protocol3_request_bytes client_result3 Protocol3_translate_response_def head_nonempty)
qed

text \<open>
  The simulator's command answer of version 3 announces one byte and carries four, which the client
  takes for a malformed packet; the others carry four zero bytes.
\<close>

lemma client_data3_bad:
  "get_data_from_bindy_callback Proto3 (client_proto u) (MBuf_data (head3 253 t d @ be32 1 @ be32 0) True) u =
    Some \<lparr>cd_ok = False, cd_proto = (client_proto u)\<lparr>res_err := 0, perror := ERR_PCKT_FMT\<rparr>, cd_res = [], cd_data = [], cd_pckt = u\<rparr>"
  by (simp add: head3_def client_head3 Protocol3_get_spec_data_def buf_simps)

lemma simu_cmd_read:
  assumes "v \<in> {1, 2, 3}" and "length cid = 4" and "length data < 2 ^ 27"
  shows "\<exists>req r x. create_cmd_request (class_of v) d t (Some (cid @ data)) n = Some req \<and> req \<noteq> [] \<and>
    simu_callback_data c req = Some (Some [(c, r)]) \<and>
    get_data_from_bindy_callback (class_of v) (client_proto u) (MBuf_data r True) u = Some x \<and>
    (if cd_ok x then cd_data x else []) = (if v = 3 then [] else be32 0) \<and>
    perror (cd_proto x) = (if v = 3 then ERR_PCKT_FMT else 0)"
  using assms(1)
proof (rule version_cases)
  assume "v = 1"
  then show ?thesis using simu_answers12(3) [of "cid @ data" c "dev_id d"] assms(2,3)
    by (simp add: class_of_def Protocol1_cmd_request_bytes client_data12 head_nonempty)
next
  assume "v = 2"
  then show ?thesis using simu_answers12(6) [of "cid @ be32 (n - 4) @ data" c "dev_id d"] assms(2,3)
    by (simp add: class_of_def Protocol2_cmd_request_bytes client_data12 head_nonempty)
next
  assume "v = 3"
  then show ?thesis
    using simu_answers3(3) [of "be32 (word_of_nat (4 + length data)) @ cid @ data @ be32 n" c d] assms(2,3)
    by (simp add: class_of_def Protocol3_cmd_request_bytes client_data3_bad head_nonempty)
qed

section \<open>Enumeration\<close>

text \<open>A record of the enumeration of version 1.\<close>

definition record1 :: "u32 \<Rightarrow> bvector" where
  "record1 dev = rev (be32 dev) @ replicate 176 0"

lemma length_record1 [simp]: "length (record1 dev) = 180"
  by (simp add: record1_def)

lemma length_records1 [simp]: "length (concat (map record1 devs)) = 180 * length devs"
  by (induction devs) simp_all

lemma put32_le_wbuf:
  "length out + 4 \<le> cap \<Longrightarrow> cap < 2 ^ 64 \<Longrightarrow> put32 (wbuf out cap) (Hex32 v True) = wbuf (out @ rev (be32 v)) cap"
  by (simp add: put32_def wbuf_store put_stream_le32)

lemma wbuf_seek:
  assumes "length out + n \<le> cap" and "cap < 2 ^ 31"
  shows "mseek (wbuf out cap) (int n) = wbuf (out @ replicate n 0) cap"
proof -
  have small: "c_int (int m) = int m" if "m < 2 ^ 31" for m
    using that by (simp add: c_int_def signed_take_bit_int_eq_self)
  have "c_int (int (length out) + int n) = int (length out + n)" using small [of "length out + n"] assms by simp
  moreover have "dlen (wbuf out cap) = cap" "pdata (wbuf out cap) = length out"
    using assms by (simp_all add: wbuf_def dlen_def)
  ultimately show ?thesis
    using assms small [of cap] by (simp add: mseek_def) (simp add: wbuf_def replicate_add [symmetric] nat_add_distrib)
qed

lemma put32_full: "length out = cap \<Longrightarrow> put32 (wbuf out cap) h = overflow (wbuf out cap)"
  by (simp add: put32_def room_def size_sub_def wbuf_def dlen_def)

lemma simu_enum1_wbuf:
  "length out + 180 * length devs \<le> cap \<Longrightarrow> cap < 2 ^ 31 \<Longrightarrow>
   simu_enum1 devs (wbuf out cap) = wbuf (out @ concat (map record1 devs)) cap"
proof (induction devs arbitrary: out)
  case (Cons dev devs)
  have "put32 (wbuf out cap) (Hex32 dev True) = wbuf (out @ rev (be32 dev)) cap"
    using Cons.prems by (intro put32_le_wbuf) simp_all
  moreover have "mseek (wbuf (out @ rev (be32 dev)) cap) 176 = wbuf (out @ record1 dev) cap"
    using wbuf_seek [of "out @ rev (be32 dev)" 176 cap] Cons.prems by (simp add: record1_def)
  ultimately show ?case using Cons by simp
qed simp

lemma simu_enum3_wbuf:
  "length out + 12 * length devs \<le> cap \<Longrightarrow> cap < 2 ^ 31 \<Longrightarrow>
   simu_enum3 devs (wbuf out cap) = wbuf (out @ concat (map (\<lambda>dev. be_devid (devid_of_id dev)) devs)) cap"
  by (induction devs arbitrary: out) (simp_all add: put_idev3_wbuf)


definition devices_simu :: "devid list" where
  "devices_simu = map devid_of_id serials"

lemma simu_enum1_answer:
  assumes "length rest < 2 ^ 28"
  shows "simu_callback_data c (head12 1 3 s @ rest) =
    Some (Some [(c, be32 1 @ be32 253 @ be32 0 @ be32 3 @ concat (map record1 serials))])"
proof -
  have nd: "word_of_nat (length serials) = (3 :: u32)" "length serials = 3" by (simp_all add: serials_def)
  have resp: "put32s (MBuf_size 556 False) [1, 253, 0, 3] = wbuf (be32 1 @ be32 253 @ be32 0 @ be32 3) 556"
    by (simp add: buf_simps)
  show ?thesis
    using assms simu_enum1_wbuf [of "be32 1 @ be32 253 @ be32 0 @ be32 3" serials 556] resp
    by (simp add: head12_def simu_head simu1_def letter_length_def nd Let_def wbuf_to_vector)
qed

lemma simu_enum3_answer:
  assumes "length rest < 2 ^ 28"
  shows "simu_callback_data c (head3 4 0 d @ rest) =
    Some (Some [(c, head3 252 0 (devid_of_id 0) @ be32 3 @ concat (map be_devid devices_simu))])"
proof -
  have nd: "word_of_nat (length serials) = (3 :: u32)" "length serials = 3" by (simp_all add: serials_def)
  let ?head = "be32 3 @ be32 252 @ be32 0 @ be32 0 @ be32 0 @ be32 0 @ be32 0 @ be32 0 @ be32 3"
  have resp: "put32s (MBuf_size 72 False) [3, 252, 0, 0, 0, 0, 0, 0, 3] = wbuf ?head 72" by (simp add: buf_simps)
  let ?out = "?head @ concat (map (\<lambda>dev. be_devid (devid_of_id dev)) serials)"
  have enum: "simu_enum3 serials (wbuf ?head 72) = wbuf ?out 72"
    using simu_enum3_wbuf [of ?head serials 72] nd by simp
  have full: "put32 (wbuf ?out 72) (Hex32 0 False) = overflow (wbuf ?out 72)"
    by (rule put32_full) (simp add: serials_def)
  have "to_vector (overflow (wbuf ?out 72)) False = ?out"
    using wbuf_to_vector [of ?out 72] by (simp add: to_vector_def overflow_def serials_def wbuf_def dlen_def cur_data_def)
  then show ?thesis
    using assms resp enum full be_devid_zero
    by (simp add: head3_def simu_head simu3_def letter_length_def nd Let_def devices_simu_def comp_def)
qed

lemma enum_loop1:
  "length pre + 180 * length devs < 2 ^ 29 \<Longrightarrow>
   Protocol1_enum_loop (length devs) (rbuf 0 pre (concat (map record1 devs))) (Hex32 w True) data =
     (rbuf 0 (pre @ concat (map record1 devs)) [], data @ concat (map (\<lambda>dev. be_devid (devid_of_id dev)) devs))"
proof (induction devs arbitrary: pre data w)
  case (Cons dev devs)
  let ?rest = "concat (map record1 devs)"
  have get: "get32 (rbuf 0 pre (record1 dev @ ?rest)) (Hex32 w True) =
      (rbuf 0 (pre @ rev (be32 dev)) (replicate 176 0 @ ?rest), Hex32 dev True)"
    using Cons.prems get_stream_le32 [of "Hex32 w True" dev "[]"]
    by (simp add: record1_def get32_le_rbuf)
  have seek: "mseek (rbuf 0 (pre @ rev (be32 dev)) (replicate 176 0 @ ?rest)) 176 = rbuf 0 (pre @ record1 dev) ?rest"
    using mseek_over [of "pre @ rev (be32 dev)" "replicate 176 0" ?rest 0] Cons.prems by (simp add: record1_def)
  show ?case using Cons get seek by (simp add: add_dev_id_be)
qed simp


lemma client_enum1:
  "get_data_from_bindy_callback Proto1 (client_proto u)
     (MBuf_data (be32 1 @ be32 253 @ be32 0 @ be32 3 @ concat (map record1 serials)) True) u =
   accepted (client_proto u) 3 (concat (map be_devid devices_simu)) 253"
proof -
  have three: "length serials = 3" by (simp add: serials_def)
  have loop: "Protocol1_enum_loop 3 (rbuf 0 (be32 1 @ be32 253 @ be32 0 @ be32 3) (concat (map record1 serials))) (Hex32 0 True) [] =
      (rbuf 0 ((be32 1 @ be32 253 @ be32 0 @ be32 3) @ concat (map record1 serials)) [], concat (map be_devid devices_simu))"
    using enum_loop1 [of "be32 1 @ be32 253 @ be32 0 @ be32 3" serials 0 "[]"] three by (simp add: devices_simu_def comp_def)
  have seek: "mseek (rbuf 0 (be32 1 @ be32 253 @ be32 0 @ be32 3) (concat (map record1 serials))) (-4) =
      rbuf 0 (be32 1 @ be32 253 @ be32 0) (be32 3 @ concat (map record1 serials))"
    using three by (simp add: mseek_def rbuf_def dlen_def)
  show ?thesis
    using client_head12 [of "concat (map record1 serials)" Proto1 "client_proto u" 1 253 0 3 u] loop seek three
    by (simp add: Protocol1_get_spec_data_def buf_simps)
qed

lemma client_enum3_short:
  "get_data_from_bindy_callback Proto3 (client_proto u)
     (MBuf_data (head3 252 0 (devid_of_id 0) @ be32 3 @ concat (map be_devid devices_simu)) True) u =
   accepted (client_proto u) 3 (concat (map be_devid devices_simu)) 252"
proof -
  let ?pre = "be32 3 @ be32 252 @ be32 0 @ be_devid (devid_of_id 0) @ be32 0 @ be32 0 @ be32 3"
  have three: "length devices_simu = 3" by (simp add: devices_simu_def serials_def)
  have "Protocol3_enum_loop 3 (rbuf 0 ?pre (concat (map be_devid devices_simu))) (idev3 (devid_of_id 0)) [] =
      (rbuf 0 (?pre @ concat (map be_devid devices_simu)) [], concat (map be_devid devices_simu))"
    using Protocol3_enum_loop_be [of ?pre devices_simu "[]" 0 "devid_of_id 0" "[]"] three by simp
  then show ?thesis
    using three by (simp add: head3_def client_head3 Protocol3_get_spec_data_def buf_simps)
qed

lemma simu_enum_read:
  assumes "v \<in> {1, 3}"
  shows "\<exists>req r k. create_enum_request (class_of v) t = req \<and> req \<noteq> [] \<and>
    simu_callback_data c req = Some (Some [(c, r)]) \<and> get_version_of_cmd r = v \<and>
    get_data_from_bindy_callback (class_of v) (client_proto u) (MBuf_data r True) u =
      accepted (client_proto u) 3 (concat (map be_devid devices_simu)) k"
proof (cases "v = 1")
  case True
  then show ?thesis using simu_enum1_answer [of "be32 0" c 0] client_enum1
    by (auto simp: class_of_def Protocol1_request_bytes head_nonempty codec_simps)
next
  case False
  then show ?thesis using assms simu_enum3_answer [of "[]" c "devid_of_id 0"] client_enum3_short
    by (auto simp: class_of_def Protocol3_request_bytes head_nonempty version_head)
qed

context exchange_link
begin

lemma exec_enumerate_same:
  assumes "heap L p = Some c" and "bmap L (conn_id c) = Some p"
    and v: "server_protocol_version c \<in> {1, 2, 3}"
    and req: "create_enum_request (class_of (server_protocol_version c)) 3000 = req" "req \<noteq> []"
    and "answer (conn_id c) req (net L) = Some (r, w)" and "get_version_of_cmd r = server_protocol_version c"
    and x: "get_data_from_bindy_callback (class_of (server_protocol_version c)) (client_proto u) (MBuf_data r True) u =
      accepted (client_proto u) (word_of_nat (length ds)) (concat (map be_devid ds)) k"
    and ds: "ds \<noteq> []" "(length (host c) + 40) * length ds < 2 ^ 30"
  shows "\<exists>c'. exec_enumerate env u p True L =
      Some ((True, Some (concat (map (\<lambda>d. ascii (device_uri (host c) d) @ [0]) ds) @ [0]), word_of_nat (length ds)),
            L\<lparr>heap := (heap L)(p \<mapsto> c'), net := w\<rparr>) \<and>
    last_error c' = 0 \<and> conn_id c' = conn_id c \<and> server_protocol_version c' = server_protocol_version c"
proof -
  let ?L0 = "L\<lparr>heap := (heap L)(p \<mapsto> c\<lparr>last_error := 0\<rparr>)\<rparr>"
  let ?cap = "(length (host c) + 40) * length ds"
  let ?out = "concat (map (\<lambda>d. ascii (device_uri (host c) d) @ [0]) ds) @ [0]"
  have sent: "send_and_receive env p req ?L0 =
      Some (True, L\<lparr>heap := (heap L)(p \<mapsto> c\<lparr>last_error := 0, is_really_recv := True, recv_message := r\<rparr>), net := w\<rparr>)"
    using send_and_receive_answer [of ?L0 p "c\<lparr>last_error := 0\<rparr>"] assms(2,6) by simp
  have proto: "make_protocol u (c\<lparr>last_error := 0\<rparr>) = Some (class_of (server_protocol_version c), client_proto u)"
    using make_protocol_class [of "c\<lparr>last_error := 0\<rparr>" u] v by simp
  have "40 * length ds \<le> ?cap" by (intro mult_right_mono) simp_all
  then have "40 * length ds < 2 ^ 30" using ds(2) by (rule le_less_trans)
  then have len: "length ds < 2 ^ 26" by simp
  then have n: "sint (word_of_nat (length ds) :: u32) = int (length ds)" by (intro sint_word_of_nat) simp
  have "c_int (int ?cap) = int ?cap" by (intro c_int_of_nat_small less_trans [OF ds(2)]) simp
  moreover have "int (length (host c) + 12 * 2 + 16) * int (length ds) = int ?cap" by simp
  ultimately have bytes: "c_int (int (length (host c) + 12 * 2 + 16) * int (length ds)) = int ?cap" by (simp only:)
  have room: "(length (host c) + 35) * length ds < ?cap" using ds(1) by simp
  then have uris: "xi_net_dev_uris (MBuf_size (int ?cap) False) (host c) (concat (map be_devid ds)) (int (length ds)) =
      Some (wbuf ?out ?cap, True)" using ds by (intro uris_written) simp_all
  have "length ?out = Suc ((length (host c) + 35) * length ds)" by simp
  then have "length ?out \<le> ?cap" using Suc_leI [OF room] by (simp only:)
  then have real: "take (realSize (wbuf ?out ?cap)) (origin_data (wbuf ?out ?cap)) = ?out"
    using ds(2) wbuf_realSize [of ?out ?cap] by (simp add: wbuf_def)
  have n0: "length ds \<noteq> 0" using ds(1) by simp
  show ?thesis
    using assms(1,7) req sent proto x n bytes uris real n0
    by (intro exI [of _ "c\<lparr>last_error := 0, is_really_recv := True, recv_message := r\<rparr>"])
      (simp add: exec_enumerate_def clr_errors_def set_error_def other_version_def parse_received_def
        client_order lib_order Let_def mult_less_0_iff)
qed

end

section \<open>The library's calls\<close>

text \<open>
  Opening through the library, in each of its three versions, against the simulator: the devices 3,
  7 and 12 open at the first try with the library's version, any other number gives the code for a
  device that does not open; nothing stays behind.
\<close>

lemma simu_open_device:
  assumes "resting k L" and "k + 1 \<noteq> cl_invalid" and "base_version L \<in> {1, 2, 3}"
    and "xibridge_parse_uri_dev12 uri True = (0, Some parsed)"
  shows "\<exists>L'. xibridge_open_device_connection simu_net u junk uri True L =
      Some (if is_serial_ok (dev_id (uri_device_id parsed))
            then (0, Some \<lparr>ct_conn_id = k, ct_proto_ver = \<lparr>major = ucast (base_version L), minor = 0, bagfix = 0\<rparr>\<rparr>)
            else (ERR_DEVICE_OPEN, None), L') \<and>
    resting (k + 1) L' \<and> base_version L' = base_version L \<and>
    (if is_serial_ok (dev_id (uri_device_id parsed)) then linked (base_version L) k (uri_device_id parsed) L'
     else bmap L' = bmap L)"
proof -
  let ?p = "next_ptr L" and ?v = "base_version L" and ?d = "uri_device_id parsed"
  let ?w = "\<lparr>s_inbox = [], s_next = k + 1, s_down = False\<rparr>"
  obtain c where c: "new_client u junk uri None L = Some (?p, L\<lparr>heap := (heap L)(?p \<mapsto> c), next_ptr := ?p + 1\<rparr>)"
    "server_protocol_version c = ?v" "client_dev_id c = ?d"
    using new_client_device [OF assms(4)] by blast
  define L0 where "L0 = L\<lparr>heap := (heap L)(?p \<mapsto> c), next_ptr := ?p + 1\<rparr>"
  define c1 where "c1 = c\<lparr>conn_id := k, last_error := 0\<rparr>"
  define L1 where "L1 = L0\<lparr>bindy := True, bmap := (bmap L)(k \<mapsto> ?p), heap := (heap L)(?p \<mapsto> c1), net := ?w\<rparr>"
  have k: "k \<noteq> cl_invalid" "bmap L k = None" using assms(1) by (simp_all add: resting_def)
  have "heap L0 ?p = Some c" "resting k L0" using assms(1) by (simp_all add: L0_def resting_def)
  then have open_conn: "open_connection simu_net ?p L0 = Some (True, L1)"
    by (simp add: simu_open_connection L1_def L0_def c1_def)
  have L1: "heap L1 ?p = Some c1" "bmap L1 (conn_id c1) = Some ?p" "net L1 = ?w" "bindy L1" "clr_errors ?p L1 = Some L1"
    by (simp_all add: L1_def c1_def clr_errors_def set_error_def upd_def)
  have c1: "server_protocol_version c1 = ?v" "client_dev_id c1 = ?d" "conn_id c1 = k" by (simp_all add: c1_def c)
  obtain r x where read: "simu_callback_data k (create_open_request (class_of ?v) ?d 3000) = Some (Some [(k, r)])"
    "get_version_of_cmd r = ?v"
    "get_data_from_bindy_callback (class_of ?v) (client_proto u) (MBuf_data r True) u = Some x" "cd_ok x"
    "translate_response (class_of ?v) (cd_proto x) (cd_pckt x) (cd_res x) =
      ((client_proto u)\<lparr>res_err := yes_no (dev_id ?d)\<rparr>, is_serial_ok (dev_id ?d))"
    using simu_open_read [OF assms(3)] by metis
  have answer: "simu_answer (conn_id c1) (create_open_request (class_of (server_protocol_version c1)) (client_dev_id c1) 3000)
      (net L1) = Some (r, ?w)"
    using simu_answer_one [OF read(1)] by (simp add: c1 L1(3))
  define code where "code = (if is_serial_ok (dev_id ?d) then 0 else ERR_DEVICE_OPEN)"
  obtain c2 where c2: "open_device simu_net u ?p L1 = Some (is_serial_ok (dev_id ?d), L1\<lparr>heap := (heap L1)(?p \<mapsto> c2), net := ?w\<rparr>)"
    "last_error c2 = code" "server_protocol_version c2 = ?v" "client_dev_id c2 = ?d" "conn_id c2 = k"
    using simu.open_device_same [OF L1(1,2) _ answer, unfolded c1, OF assms(3) read(2-5)] unfolding code_def by auto
  define L2 where "L2 = L1\<lparr>heap := (heap L1)(?p \<mapsto> c2), net := ?w\<rparr>"
  have L2: "heap L2 ?p = Some c2" "bindy L2" "net L2 = ?w" "bmap L2 = (bmap L)(k \<mapsto> ?p)" "base_version L2 = ?v"
    by (simp_all add: L2_def L1_def L0_def)
  have "get_last_error ?p L2 = Some code" using L2(1) c2(2) by (simp add: get_last_error_def)
  then have round: "open_round simu_net u ?p L0 = Some (Stop code (), L2)"
    using open_conn L1(5) c2(1)
    by (simp add: open_round_def L2_def [symmetric] code_def ERR_DEVICE_OPEN_def ERR_ANOTHER_PROTOCOL_def ERR_RECV_TIMEOUT_def)
  have three: "unat (major xbc_get_last_protocol_version) = Suc 2"
    by (simp add: xbc_get_last_protocol_version_def DEFAULT_PROTO_VERSION_def)
  have rounds: "rounds (Suc 2) (open_round simu_net u ?p) (u, ()) L0 = Some (Stop code (), L2)"
    by (subst rounds.simps) (simp add: round)
  have call: "xibridge_open_device_connection simu_net u junk uri True L =
      (if code \<noteq> 0 then Option.bind (disconnect simu_net ?p L2) (\<lambda>L. Some ((code, None), delete_client ?p L))
       else Some ((code, Some (to_xibridge_conn_t c2)), L2))"
    unfolding xibridge_open_device_connection_def three using c(1) rounds L2(1) by (simp add: L0_def)
  show ?thesis
  proof (cases "is_serial_ok (dev_id ?d)")
    case True
    have "linked ?v k ?d L2" using L2 c2 k by (simp add: linked_def)
    moreover have "resting (k + 1) L2" using L2 by (intro resting_next [OF assms(1,2)]) simp_all
    ultimately show ?thesis using True call c2 L2(5) by (simp add: code_def to_xibridge_conn_t_def)
  next
    case False
    let ?L3 = "delete_client ?p (L2\<lparr>bmap := (bmap L2)(k := None), heap := (heap L2)(?p \<mapsto> c2\<lparr>conn_id := cl_invalid\<rparr>)\<rparr>)"
    have "resting (k + 1) ?L3" using L2 by (intro resting_next [OF assms(1,2)]) (simp_all add: delete_client_def)
    moreover have "bmap ?L3 = bmap L" using L2(4) k(2) by (auto simp: delete_client_def)
    moreover have "base_version ?L3 = ?v" using L2(5) by (simp add: delete_client_def)
    ultimately show ?thesis
      using False call simu_disconnect [OF L2(1) _ L2(2)] c2(5) k(1) by (simp add: code_def ERR_DEVICE_OPEN_def)
  qed
qed

lemma simu_request:
  assumes "linked v k d L" and "resting j L" and "v \<in> {1, 2, 3}" and "4 \<le> length data" and "length data < 2 ^ 27"
  shows "\<exists>L'. xibridge_device_request_response simu_net u (Some \<lparr>ct_conn_id = k, ct_proto_ver = pv\<rparr>) data True n L =
      Some (if v = 3 then (ERR_PCKT_FMT, []) else (0, take (unat n) (be32 0)), L') \<and>
    linked v k d L' \<and> resting j L' \<and> base_version L' = base_version L"
proof -
  obtain p c where p: "bmap L k = Some p" "heap L p = Some c" "conn_id c = k" "client_dev_id c = d"
    "server_protocol_version c = v" "k \<noteq> cl_invalid" "bindy L"
    using assms(1) by (auto simp: linked_def)
  have split: "data = take 4 data @ drop 4 data" "length (take 4 data) = 4" "length (drop 4 data) < 2 ^ 27"
    using assms(4,5) by simp_all
  obtain req r x where read: "create_cmd_request (class_of v) d 3000 (Some data) n = Some req" "req \<noteq> []"
    "simu_callback_data k req = Some (Some [(k, r)])"
    "get_data_from_bindy_callback (class_of v) (client_proto u) (MBuf_data r True) u = Some x"
    "(if cd_ok x then cd_data x else []) = (if v = 3 then [] else be32 0)"
    "perror (cd_proto x) = (if v = 3 then ERR_PCKT_FMT else 0)"
    using simu_cmd_read [OF assms(3) split(2,3), of d 3000 n k u] split(1) by metis
  have answer: "simu_answer k req (net L) = Some (r, net L)"
    using simu_answer_one [OF read(3), of j] assms(2) by (simp add: resting_def)
  obtain c' where c': "send_data_and_receive simu_net u p data n L =
      Some (if cd_ok x then cd_data x else [], L\<lparr>heap := (heap L)(p \<mapsto> c'), net := net L\<rparr>)"
    "last_error c' = perror (cd_proto x)" "server_protocol_version c' = v" "client_dev_id c' = d" "conn_id c' = k"
    using simu.send_data_and_receive_same [OF p(2), unfolded p(3-5), OF p(1) p(6) assms(3) read(1,2) answer read(4)] by blast
  let ?L = "L\<lparr>heap := (heap L)(p \<mapsto> c'), net := net L\<rparr>"
  have "linked v k d ?L" "resting j ?L" using p c'(3-5) assms(2) by (simp_all add: linked_def resting_def)
  moreover have "to_vector (MBuf_data data True) False = data" by (simp add: to_vector_def MBuf_data_def)
  moreover have "get_last_error p ?L = Some (if v = 3 then ERR_PCKT_FMT else 0)"
    using c'(2) read(6) by (simp add: get_last_error_def)
  ultimately show ?thesis
    using p(1) c'(1) read(5)
    by (auto simp: xibridge_device_request_response_def xbc_request_response_def get_client_as_free_def unat_eq_zero
        intro!: exI [of _ ?L] split: if_splits)
qed

lemma simu_close:
  assumes "linked v k d L" and "resting j L" and "v \<in> {1, 2, 3}"
  shows "\<exists>L'. xibridge_close_device_connection simu_net u (Some \<lparr>ct_conn_id = k, ct_proto_ver = pv\<rparr>) L = Some (0, L') \<and>
    resting j L' \<and> base_version L' = base_version L \<and> bmap L' k = None"
proof -
  obtain p c where p: "bmap L k = Some p" "heap L p = Some c" "conn_id c = k" "client_dev_id c = d"
    "server_protocol_version c = v" "k \<noteq> cl_invalid" "bindy L"
    using assms(1) by (auto simp: linked_def)
  obtain r x pr where read: "simu_callback_data k (create_close_request (class_of v) d 3000) = Some (Some [(k, r)])"
    "create_close_request (class_of v) d 3000 \<noteq> []"
    "get_data_from_bindy_callback (class_of v) (client_proto u) (MBuf_data r True) u = Some x"
    "translate_response (class_of v) (cd_proto x) (cd_pckt x) (cd_res x) = (pr, True)"
    using simu_close_read [OF assms(3)] by blast
  have answer: "simu_answer k (create_close_request (class_of v) d 3000) (net L) = Some (r, net L)"
    using simu_answer_one [OF read(1), of j] assms(2) by (simp add: resting_def)
  have leave: "net_disconnect simu_net k (net L) = (True, net L)" by (simp add: simu_net_def)
  obtain c' where c': "close_connection_device simu_net u p L =
      Some (True, L\<lparr>bmap := (bmap L)(k := None), heap := (heap L)(p \<mapsto> c'), net := net L\<rparr>)"
    using simu.close_connection_device_same [OF p(2), unfolded p(3-5), OF p(1) p(6,7) assms(3) refl read(2) answer leave read(3,4)]
    by blast
  then show ?thesis
    using p(1) assms(2)
    by (auto simp: xibridge_close_device_connection_def xbc_close_connection_device_def get_client_as_free_def
        delete_client_def resting_def)
qed

lemma simu_enumerate:
  assumes "resting k L" and "k + 1 \<noteq> cl_invalid" and "base_version L \<in> {1, 3}"
    and "length addr \<le> XI_URI_HOST_LEN"
  shows "\<exists>L'. xibridge_enumerate_adapter_devices simu_net u junk addr (Some []) True L =
      Some ((0, Some (concat (map (\<lambda>d. ascii (device_uri addr d) @ [0]) devices_simu) @ [0]), 3), L') \<and>
    resting (k + 1) L' \<and> base_version L' = base_version L"
proof -
  let ?p = "next_ptr L" and ?v = "base_version L"
  let ?w = "\<lparr>s_inbox = [], s_next = k + 1, s_down = False\<rparr>"
  let ?uris = "concat (map (\<lambda>d. ascii (device_uri addr d) @ [0]) devices_simu) @ [0]"
  obtain c where c: "new_client u junk addr (Some []) L = Some (?p, L\<lparr>heap := (heap L)(?p \<mapsto> c), next_ptr := ?p + 1\<rparr>)"
    "server_protocol_version c = ?v" "host c = addr" "last_error c = 0"
    using assms(4) by (simp add: new_client_def Let_def not_less)
  define L0 where "L0 = L\<lparr>heap := (heap L)(?p \<mapsto> c), next_ptr := ?p + 1\<rparr>"
  define c1 where "c1 = c\<lparr>conn_id := k, last_error := 0\<rparr>"
  define L1 where "L1 = L0\<lparr>bindy := True, bmap := (bmap L)(k \<mapsto> ?p), heap := (heap L)(?p \<mapsto> c1), net := ?w\<rparr>"
  have k: "k \<noteq> cl_invalid" "bmap L k = None" using assms(1) by (simp_all add: resting_def)
  have "c\<lparr>last_error := 0\<rparr> = c" using c(4) by (cases c) simp
  then have L0: "clr_errors ?p L0 = Some L0" "heap L0 ?p = Some c" "resting k L0"
    using assms(1) by (simp_all add: L0_def resting_def clr_errors_def set_error_def upd_def)
  then have open_conn: "open_connection simu_net ?p L0 = Some (True, L1)"
    by (simp add: simu_open_connection L1_def L0_def c1_def)
  have L1: "heap L1 ?p = Some c1" "bmap L1 (conn_id c1) = Some ?p" "net L1 = ?w"
    by (simp_all add: L1_def c1_def)
  have c1: "server_protocol_version c1 = ?v" "host c1 = addr" "conn_id c1 = k" by (simp_all add: c1_def c)
  obtain req r kk where read: "create_enum_request (class_of ?v) 3000 = req" "req \<noteq> []"
    "simu_callback_data k req = Some (Some [(k, r)])" "get_version_of_cmd r = ?v"
    "get_data_from_bindy_callback (class_of ?v) (client_proto u) (MBuf_data r True) u =
      accepted (client_proto u) 3 (concat (map be_devid devices_simu)) kk"
    using simu_enum_read [OF assms(3)] by blast
  have answer: "simu_answer k req (net L1) = Some (r, ?w)"
    using simu_answer_one [OF read(3)] by (simp add: L1(3))
  have three: "length devices_simu = 3" "devices_simu \<noteq> []" by (simp_all add: devices_simu_def serials_def)
  have v: "?v \<in> {1, 2, 3}" using assms(3) by auto
  have small: "(length addr + 40) * length devices_simu < 2 ^ 30"
    using assms(4) three(1) by (simp add: XI_URI_HOST_LEN_def)
  obtain c2 where c2: "exec_enumerate simu_net u ?p True L1 = Some ((True, Some ?uris, 3), L1\<lparr>heap := (heap L1)(?p \<mapsto> c2), net := ?w\<rparr>)"
    "last_error c2 = 0" "conn_id c2 = k"
    using simu.exec_enumerate_same [OF L1(1,2), unfolded c1, OF v read(1,2) answer read(4), of u devices_simu kk]
      read(5) three small by auto
  define L2 where "L2 = L1\<lparr>heap := (heap L1)(?p \<mapsto> c2), net := ?w\<rparr>"
  have L2: "heap L2 ?p = Some c2" "bindy L2" "net L2 = ?w" "bmap L2 = (bmap L)(k \<mapsto> ?p)" "base_version L2 = ?v"
    by (simp_all add: L2_def L1_def L0_def)
  have "get_last_error ?p L2 = Some 0" using L2(1) c2(2) by (simp add: get_last_error_def)
  then have round: "enum_round simu_net u ?p L0 = Some (Stop 0 (Some ?uris, 3), L2)"
    using open_conn L0(1) c2(1)
    by (simp add: enum_round_def L2_def [symmetric] ERR_ANOTHER_PROTOCOL_def ERR_RECV_TIMEOUT_def ERR_NO_PROTOCOL_def)
  have rounds: "rounds (Suc 2) (enum_round simu_net u ?p) (u, (None, 0)) L0 = Some (Stop 0 (Some ?uris, 3), L2)"
    by (subst rounds.simps) (simp add: round)
  let ?L3 = "delete_client ?p (L2\<lparr>bmap := (bmap L2)(k := None), heap := (heap L2)(?p \<mapsto> c2\<lparr>conn_id := cl_invalid\<rparr>)\<rparr>)"
  have three': "unat (major xbc_get_last_protocol_version) = Suc 2"
    by (simp add: xbc_get_last_protocol_version_def DEFAULT_PROTO_VERSION_def)
  have call: "xibridge_enumerate_adapter_devices simu_net u junk addr (Some []) True L = Some ((0, Some ?uris, 3), ?L3)"
    unfolding xibridge_enumerate_adapter_devices_def three'
    using c(1) rounds simu_disconnect [OF L2(1) _ L2(2)] c2(3) k(1) by (simp add: L0_def)
  have "resting (k + 1) ?L3" using L2 by (intro resting_next [OF assms(1,2)]) (simp_all add: delete_client_def)
  with call L2(5) show ?thesis by (simp add: delete_client_def)
qed

end
