(* ===== verification/Addresses.thy ===== *)
theory Addresses
  imports Uri
begin

text \<open>
  What the programs that use the library do with text: the address of a device, printed with
  \<open>sprintf(..., "xi-net://%s/%x", ...)\<close> (test and example programs), and the walk over the URIs of an
  enumeration.
\<close>

section \<open>Addresses\<close>

definition hex_digits_low :: string where
  "hex_digits_low = ''0123456789abcdef''"

fun hexx :: "nat \<Rightarrow> nat \<Rightarrow> string" where
  "hexx 0 v = []"
| "hexx (Suc n) v = hexx n (v div 16) @ [hex_digits_low ! (v mod 16)]"

definition printf_x :: "u32 \<Rightarrow> string" where
  "printf_x v = hexx (hex_len (unat v)) (unat v)"

definition device_address :: "string \<Rightarrow> u32 \<Rightarrow> string" where
  "device_address ip dev_num = ''xi-net://'' @ ip @ ''/'' @ printf_x dev_num"

text \<open>
  \<open>_DEV_IP[256]\<close> (or 64): the text and its terminating zero fit.
\<close>

definition sprintf_address :: "nat \<Rightarrow> string \<Rightarrow> u32 \<Rightarrow> string option" where
  "sprintf_address cap ip dev_num =
     (let s = device_address ip dev_num in if length s < cap then Some s else None)"

lemma hex_digit_low_facts:
  assumes "d < 16"
  shows "is_digit 16 (hex_digits_low ! d)" "digit_val (hex_digits_low ! d) = Some d"
proof -
  have "d \<in> set [0..<16]" using assms by simp
  also have "[0..<16] = [0, 1, 2, 3, 4, 5, 6, 7, 8, 9, 10, 11, 12, 13, 14, 15]" by (simp add: upt_rec)
  finally have "d \<in> {0, 1, 2, 3, 4, 5, 6, 7, 8, 9, 10, 11, 12, 13, 14, 15}" by simp
  then show "is_digit 16 (hex_digits_low ! d)" "digit_val (hex_digits_low ! d) = Some d"
    by (auto simp: hex_digits_low_def digit_val_def is_digit_def)
qed

lemma digit_no_space: "is_digit 16 c \<Longrightarrow> \<not> c_isspace c"
  by (auto simp: c_isspace_def is_digit_def digit_val_def)

lemma digit_no_mark: "is_digit 16 c \<Longrightarrow> c \<notin> {CHR ''x'', CHR ''X'', CHR ''-'', CHR ''+'', CHR ''/''}"
  by (auto simp: is_digit_def digit_val_def)

text \<open>A field of digits of any kind is read by \<open>%nx\<close>.\<close>

lemma scan_x_digits:
  assumes "\<forall>c \<in> set ds. is_digit 16 c" and "ds \<noteq> []"
  shows "scan_x (length ds) (ds @ rest) = Some (word_of_nat (digits_val 16 ds), rest)"
proof -
  obtain c cs where h: "ds = c # cs" using assms(2) by (cases ds) auto
  then have c: "\<not> c_isspace c" "c \<noteq> CHR ''-''" "c \<noteq> CHR ''+''"
    using digit_no_space [of c] digit_no_mark [of c] assms(1) by auto
  have sign: "scan_sign (length ds) (dropWhile c_isspace (ds @ rest)) = (False, ds @ rest, length ds)"
    using c by (simp add: h scan_sign_def)
  have "CHR ''x'' \<notin> set ds" "CHR ''X'' \<notin> set ds" using assms(1) digit_no_mark by blast+
  then have pre: "take 2 ds \<notin> {''0x'', ''0X''}"
    by (metis in_set_takeD insertE list.set_intros singletonD)
  have take: "take (length ds) (ds @ rest) = ds" by simp
  have while: "takeWhile (is_digit 16) ds = ds" using assms(1) by (simp add: takeWhile_eq_all_conv)
  show ?thesis
    unfolding scan_x_def Let_def sign prod.case take if_not_P [OF pre] while using assms(2) by simp
qed

lemma length_hexx [simp]: "length (hexx n v) = n"
  by (induction n arbitrary: v) simp_all

lemma hexx_digits: "c \<in> set (hexx n v) \<Longrightarrow> is_digit 16 c"
  by (induction n arbitrary: v) (auto simp: hex_digit_low_facts)

lemma digits_val_zeroes: "digits_val 16 (replicate k CHR ''0'' @ s) = digits_val 16 s"
proof -
  have "foldl (\<lambda>v c. 16 * v + the (digit_val c)) 0 (replicate k CHR ''0'') = 0"
    by (induction k) (simp_all add: digit_val_def)
  then show ?thesis by (simp add: digits_val_def)
qed

lemma digits_val_hexx: "digits_val 16 (hexx n v) = v mod 16 ^ n"
proof (induction n arbitrary: v)
  case 0
  then show ?case by (simp add: digits_val_def)
next
  case (Suc n)
  have "16 * (v div 16 mod 16 ^ n) + v mod 16 = v mod (16 * 16 ^ n)"
    by (simp add: mod_mult2_eq)
  with Suc show ?case by (simp add: digits_val_append hex_digit_low_facts)
qed

lemma hex_len_bound: "v < 16 ^ hex_len v"
proof (induction v rule: hex_len.induct)
  case (1 v)
  show ?case
  proof (cases "v < 16")
    case True
    then show ?thesis by (simp add: hex_len.simps [of v])
  next
    case False
    with 1 have "v div 16 < 16 ^ hex_len (v div 16)" by simp
    then have "v < 16 ^ Suc (hex_len (v div 16))" by (simp add: div_less_iff_less_mult mult.commute)
    with False show ?thesis by (simp add: hex_len.simps [of v])
  qed
qed

lemma printf_x_length: "0 < length (printf_x v)" "length (printf_x v) \<le> 8"
  using hex_len_le [of "unat v" 7] unat_u32 [of v]
  by (simp_all add: printf_x_def hex_len.simps [of "unat v"])

lemma scan_device_printf_x:
  "scan_device (replicate (24 - length (printf_x v)) CHR ''0'' @ printf_x v) = Some (0, 0, 0, v)"
proof -
  let ?n = "length (printf_x v)" and ?last = "replicate (8 - length (printf_x v)) CHR ''0'' @ printf_x v"
  have zero: "scan_x k (replicate k CHR ''0'' @ rest) = Some (0, rest)" if "0 < k" for k rest
    using scan_x_digits [of "replicate k CHR ''0''" rest] digits_val_zeroes [of k "[]"] that
    by (simp add: is_digit_def digit_val_def digits_val_def)
  have "24 - ?n = 8 + (4 + (4 + (8 - ?n)))" using printf_x_length(2) [of v] by simp
  then have "replicate (24 - ?n) CHR ''0'' @ printf_x v =
      replicate 8 CHR ''0'' @ replicate 4 CHR ''0'' @ replicate 4 CHR ''0'' @ ?last"
    by (simp only: replicate_add append_assoc)
  moreover have "scan_x 8 ?last = Some (v, [])"
  proof -
    have "digits_val 16 ?last = unat v"
      using hex_len_bound [of "unat v"] by (simp add: digits_val_zeroes printf_x_def digits_val_hexx)
    moreover have "length ?last = 8" using printf_x_length [of v] by simp
    moreover have "\<forall>c \<in> set ?last. is_digit 16 c"
    proof
      fix c assume "c \<in> set ?last"
      then consider "c = CHR ''0''" | "c \<in> set (hexx (hex_len (unat v)) (unat v))"
        by (auto simp: printf_x_def split: if_splits)
      then show "is_digit 16 c" using hexx_digits by cases (simp_all add: is_digit_def digit_val_def)
    qed
    moreover have "?last \<noteq> []" using printf_x_length [of v] by auto
    ultimately show ?thesis using scan_x_digits [of ?last "[]"] by simp
  qed
  ultimately show ?thesis by (simp only: scan_device_def zero) (simp add: zero)
qed

text \<open>
  The address of a device that the programs print for its number is parsed to that number and
  server, with no product and no reserved number.
\<close>

lemma parse_address:
  assumes "CHR ''/'' \<notin> set ip" and "length ip < 64"
  shows "xibridge_parse_uri_dev12 (device_address ip n) True =
    (0, Some \<lparr>uri_schema = ''xi-net'', uri_server_host = ip, uri_device_id = devid_of_id n\<rparr>)"
proof -
  have "device_address ip n = ''xi-net'' @ ''://'' @ ip @ CHR ''/'' # printf_x n"
    by (simp add: device_address_def)
  moreover have "strstr (''xi-net'' @ ''://'' @ ip @ CHR ''/'' # printf_x n) ''://'' =
      Some (''xi-net'', ''://'' @ ip @ CHR ''/'' # printf_x n)"
    by (rule strstr_append) simp_all
  ultimately have "strstr (device_address ip n) ''://'' = Some (''xi-net'', ''://'' @ ip @ CHR ''/'' # printf_x n)"
    by simp
  moreover have "dropWhile (\<lambda>c. c = CHR '' '' \<or> c = CHR 0x09) (device_address ip n) = device_address ip n"
    by (simp add: device_address_def)
  ultimately show ?thesis
    using assms printf_x_length(2) [of n]
    by (simp add: xibridge_parse_uri_dev12_def XI_URI_SCHEMA_LEN_def XI_URI_HOST_LEN_def strchr_append
        scan_device_printf_x)
qed

section \<open>The walk over enumerated URIs\<close>

text \<open>
  \<open>p = pdata; for (i = 0; i < count; i++) { ... p ...; p = strchr(p, 0) + 1; }\<close>: the texts that \<open>p\<close>
  points to, one after the other; \<open>None\<close> when a text has no end inside the memory.
\<close>

fun walk_uris :: "nat \<Rightarrow> bvector \<Rightarrow> string list option" where
  "walk_uris 0 p = Some []"
| "walk_uris (Suc n) p =
     (if 0 \<notin> set p then None
      else map_option (\<lambda>us. map (\<lambda>b. char_of (unat b)) (takeWhile (\<lambda>b. b \<noteq> 0) p) # us)
             (walk_uris n (tl (dropWhile (\<lambda>b. b \<noteq> 0) p))))"

lemma char_byte: "char_of (unat (of_char c :: u8)) = c"
proof -
  have "(of_char c :: u8) = word_of_nat (of_char c)" by (simp only: of_nat_of_char)
  moreover have "unat (word_of_nat (of_char c) :: u8) = of_char c"
    by (simp add: unat_of_nat)
  ultimately show ?thesis by simp
qed

lemma walk_texts:
  assumes "\<forall>u \<in> set us. CHR 0x00 \<notin> set u"
  shows "walk_uris (length us) (concat (map (\<lambda>u. ascii u @ [0]) us) @ rest) = Some us"
  using assms
proof (induction us)
  case (Cons u us)
  have "(of_char c :: u8) \<noteq> 0" if "c \<in> set u" for c
  proof
    assume "(of_char c :: u8) = 0"
    then have "c = CHR 0x00" using char_byte [of c] by (simp add: char_of_def)
    with that Cons.prems show False by simp
  qed
  then have nz: "b \<noteq> 0" if "b \<in> set (ascii u)" for b using that by (auto simp: ascii_def)
  then have "takeWhile (\<lambda>b. b \<noteq> 0) (ascii u @ [0] @ x) = ascii u" "dropWhile (\<lambda>b. b \<noteq> 0) (ascii u @ [0] @ x) = [0] @ x" for x
    by (simp_all add: takeWhile_append2 dropWhile_append2)
  moreover have "map (\<lambda>b. char_of (unat b)) (ascii u) = u" by (simp add: ascii_def comp_def char_byte)
  ultimately show ?case using Cons by simp
qed simp

end
