(* ===== verification/Test_Program.thy ===== *)
theory Test_Program
  imports Simu_Client Addresses
begin

text \<open>
  The test program (\<open>test/test.cpp\<close>): what each of its functions checks, with the library's and the
  protocols' models, and the proof that every check succeeds; the server that it starts is the
  simulator.
\<close>

section \<open>Packets\<close>

text \<open>A check: the packet against the schema of its type in the class's table.\<close>

definition matches :: "u32 \<Rightarrow> cmd_schema list \<Rightarrow> bvector \<Rightarrow> u32 \<Rightarrow> u32 \<Rightarrow> bool option" where
  "matches pckt schemas data proto dev =
     Option.bind (get_schema pckt schemas) (\<lambda>cm. is_match cm data proto (devid_of_id dev))"

definition hahaha :: "char \<Rightarrow> bvector" where
  "hahaha c = ascii (''hahaha'' @ [c])"

definition test_request_proto1 :: "bool option list" where
  "test_request_proto1 =
     (let schemas = get_cmd_schema Proto1 in
      [Some (length (create_version_request Proto1 0) = 0),
       matches 1 schemas (create_open_request Proto1 (devid_of_id 1) 1000) 1 1,
       matches 2 schemas (create_close_request Proto1 (devid_of_id 2) 2000) 1 2,
       Option.bind (create_cmd_request Proto1 (devid_of_id 3) 3000 (Some (hahaha CHR ''1'')) 0)
         (\<lambda>reqw. matches 0 schemas reqw 1 3),
       matches 3 schemas (create_enum_request Proto1 4000) 1 0])"

definition test_request_proto2 :: "bool option list" where
  "test_request_proto2 =
     (let schemas = get_cmd_schema Proto2 in
      [Some (length (create_version_request Proto2 0) = 0),
       matches 1 schemas (create_open_request Proto2 (devid_of_id 1) 1000) 2 1,
       matches 2 schemas (create_close_request Proto2 (devid_of_id 2) 2000) 2 2,
       Option.bind (create_cmd_request Proto2 (devid_of_id 3) 3000 (Some (hahaha CHR ''2'')) 0)
         (\<lambda>reqw. matches 3 schemas reqw 2 3),
       Some (length (create_enum_request Proto2 4000) = 0)])"

definition test_response_proto2 :: "bool option list" where
  "test_response_proto2 =
     (let schemas = get_cmd_schema Proto2 in
      [matches 255 schemas (Protocol2_create_open_response (devid_of_id 1) 1) 2 1,
       matches 254 schemas (Protocol2_create_close_response (devid_of_id 2) 0) 2 2,
       matches 253 schemas (Protocol2_create_cmd_response 0 (devid_of_id 3) (hahaha CHR ''2'')) 2 3])"

definition test_request_proto3 :: "bool option list" where
  "test_request_proto3 =
     (let schemas = get_cmd_schema Proto3 in
      [matches 5 schemas (create_version_request Proto3 0) 3 0,
       matches 1 schemas (create_open_request Proto3 (devid_of_id 1) 1000) 3 1,
       matches 2 schemas (create_close_request Proto3 (devid_of_id 2) 2000) 3 2,
       Option.bind (create_cmd_request Proto3 (devid_of_id 3) 3000 (Some (hahaha CHR ''3'')) 0)
         (\<lambda>resp. matches 3 schemas resp 3 3),
       matches 4 schemas (create_enum_request Proto3 4000) 3 0])"

definition test_response_proto3 :: "bool option list" where
  "test_response_proto3 =
     (let schemas = get_cmd_schema Proto3 in
      [matches 251 schemas Protocol3_create_version_response 3 0,
       matches 255 schemas (Protocol3_create_open_response (devid_of_id 1) 1) 3 1,
       matches 254 schemas (Protocol3_create_close_response (devid_of_id 2) 0) 3 2,
       matches 253 schemas (Protocol3_create_cmd_response (devid_of_id 3) (hahaha CHR ''3'')) 3 3])"

definition test_protocols :: "bool option list" where
  "test_protocols = test_request_proto1 @ test_request_proto2 @ test_response_proto2
     @ test_request_proto3 @ test_response_proto3"

lemmas matching = matches_def is_match_def match_letter_def Let_def buf_simps packet_defs head12_def head3_def
  Protocol1_cmd_schemas_def Protocol2_cmd_schemas_def Protocol3_cmd_schemas_def hahaha_def ascii_def size_max_def

lemma request1: "list_all (\<lambda>x. x = Some True) test_request_proto1"
  by (simp add: test_request_proto1_def matching)


lemma request2: "list_all (\<lambda>x. x = Some True) test_request_proto2"
  using Protocol2_cmd_request_bytes [of "[104, 97, 104, 97]" "[104, 97, 50]" "devid_of_id 3" 3000 0]
  by (simp add: test_request_proto2_def matching)

lemma response2: "list_all (\<lambda>x. x = Some True) test_response_proto2"
  by (simp add: test_response_proto2_def matching)

lemma seek7: "length pre < 2 ^ 20 \<Longrightarrow> length rest < 2 ^ 20 \<Longrightarrow> mseek (rbuf c pre (b0 # b1 # b2 # b3 # b4 # b5 # b6 # rest)) 7 =
    rbuf c (pre @ [b0, b1, b2, b3, b4, b5, b6]) rest"
  using mseek_over [of pre "[b0, b1, b2, b3, b4, b5, b6]" rest c] by simp

lemma seek7_end: "length pre < 2 ^ 20 \<Longrightarrow> mseek (rbuf c pre [b0, b1, b2, b3, b4, b5, b6]) 7 =
    rbuf c (pre @ [b0, b1, b2, b3, b4, b5, b6]) []"
  using seek7 [of pre "[]"] by simp

lemma zero_devid: "be_devid (devid_of_id 0) = be32 0 @ be32 0 @ be32 0"
  by (simp add: be_devid_zero(1))

lemma request3: "list_all (\<lambda>x. x = Some True) test_request_proto3"
  by (simp add: test_request_proto3_def matching zero_devid seek7)

lemma response3: "list_all (\<lambda>x. x = Some True) test_response_proto3"
  by (simp add: test_response_proto3_def matching zero_devid seek7_end)


section \<open>URIs\<close>

definition test_xibridge_uri_parse :: "bool list" where
  "test_xibridge_uri_parse =
     (let (e1, p1) = xibridge_parse_uri_dev12 ''xi-net://abcd/1'' True;
          d1 = (case p1 of None \<Rightarrow> devid_of_id 0 | Some p \<Rightarrow> uri_device_id p);
          (e2, p2) = xibridge_parse_uri_dev12 ''xi-net://0.0.0.0/000000df00DF00dFAAAAAAAA'' True;
          d2 = (case p2 of None \<Rightarrow> devid_of_id 0 | Some p \<Rightarrow> uri_device_id p)
      in [e1 = 0, dev_id d1 = 1, dev_VID d1 = 0 \<and> dev_PID d1 = 0 \<and> dev_reserve d1 = 0,
          e2 = 0, dev_id d2 = 0xAAAAAAAA, dev_VID d2 = 0xDF, dev_PID d2 = 0xDF, dev_reserve d2 = 0xDF])"

lemma uri_checks: "list_all (\<lambda>x. x) test_xibridge_uri_parse"
proof -
  have "''xi-net://abcd/1'' = device_address ''abcd'' 1"
    by (simp add: device_address_def printf_x_def hex_len.simps hex_digits_low_def)
  then have one: "xibridge_parse_uri_dev12 ''xi-net://abcd/1'' True =
      (0, Some \<lparr>uri_schema = ''xi-net'', uri_server_host = ''abcd'', uri_device_id = devid_of_id 1\<rparr>)"
    using parse_address [of "''abcd''" 1] by simp
  have two: "xibridge_parse_uri_dev12 ''xi-net://0.0.0.0/000000df00DF00dFAAAAAAAA'' True =
      (0, Some \<lparr>uri_schema = ''xi-net'', uri_server_host = ''0.0.0.0'', uri_device_id = mk_devid 0xAAAAAAAA 0xDF 0xDF 0xDF\<rparr>)"
    by (simp add: xibridge_parse_uri_dev12_def XI_URI_SCHEMA_LEN_def XI_URI_HOST_LEN_def scan_device_def scan_x_def
        scan_sign_def c_isspace_def is_digit_def digit_val_def digits_val_def)
  show ?thesis by (simp add: test_xibridge_uri_parse_def one two mk_devid_def)
qed


section \<open>Sessions\<close>

text \<open>
  \<open>xibridge_conn_invalid\<close>, which \<open>xibridge_open_device_connection\<close> leaves at \<open>*pconn\<close> when it
  fails.
\<close>

definition conn_invalid :: conn_t where
  "conn_invalid = \<lparr>ct_conn_id = 0, ct_proto_ver = \<lparr>major = 0, minor = 0, bagfix = 0\<rparr>\<rparr>"

definition conn_or_invalid :: "conn_t option \<Rightarrow> conn_t" where
  "conn_or_invalid c = (case c of None \<Rightarrow> conn_invalid | Some c \<Rightarrow> c)"

definition localhost :: string where
  "localhost = ''127.0.0.1''"

text \<open>
  The enumeration that the tests begin with: code and listed URIs. The close that ends a session after
  a failed open.
\<close>

definition list_devices ::
    "'w net_env \<Rightarrow> u32 \<Rightarrow> devid \<Rightarrow> 'w lib \<Rightarrow> ((u32 \<times> string list) \<times> 'w lib) option" where
  "list_devices env u junk L = do {
     ((err, pdata, count), L) \<leftarrow> xibridge_enumerate_adapter_devices env u junk localhost (Some []) True L;
     uris \<leftarrow> (if count \<noteq> 0 then walk_uris (nat (sint count)) (case pdata of None \<Rightarrow> [] | Some p \<Rightarrow> p) else Some []);
     Some ((err, uris), L)
   }"

definition give_up :: "'w net_env \<Rightarrow> u32 \<Rightarrow> conn_t option \<Rightarrow> bool list \<Rightarrow> 'w lib \<Rightarrow> (bool list \<times> 'w lib) option" where
  "give_up env u conn checks L = do {
     (z, L) \<leftarrow> xibridge_close_device_connection env u (Some (conn_or_invalid conn)) L;
     Some (checks, L)
   }"

text \<open>The three sessions: what each of their checks finds.\<close>

definition test_server_ximc :: "'w net_env \<Rightarrow> u32 \<Rightarrow> devid \<Rightarrow> 'w lib \<Rightarrow> (bool list \<times> 'w lib) option" where
  "test_server_ximc env u junk L = do {
     let L = snd (xibridge_set_base_protocol_version \<lparr>major = 1, minor = 0, bagfix = 0\<rparr> L);
     ((err, uris), L) \<leftarrow> list_devices env u junk L;
     let checks = [err = 0];
     if err \<noteq> 0 then Some (checks, L)
     else do {
       ((err, conn), L) \<leftarrow> xibridge_open_device_connection env u junk (device_address localhost 3) True L;
       let checks = checks @ [err = 0];
       if err \<noteq> 0 then give_up env u conn checks L
       else do {
         ((err, settings), L) \<leftarrow> xibridge_device_request_response env u conn (ascii ''geng'') True 36 L;
         let checks = checks @ [err = 0];
         (err, L) \<leftarrow> xibridge_close_device_connection env u conn L;
         let checks = checks @ [err = 0];
         ((err, conn), L) \<leftarrow> xibridge_open_device_connection env u junk (device_address localhost 2) True L;
         Some (checks @ [err = ERR_DEVICE_OPEN], L)
       }
     }
   }"

definition test_server_urpc :: "'w net_env \<Rightarrow> u32 \<Rightarrow> devid \<Rightarrow> 'w lib \<Rightarrow> (bool list \<times> 'w lib) option" where
  "test_server_urpc env u junk L = do {
     let L = snd (xibridge_set_base_protocol_version \<lparr>major = 2, minor = 0, bagfix = 0\<rparr> L);
     ((err, conn), L) \<leftarrow> xibridge_open_device_connection env u junk (device_address localhost 7) True L;
     let checks = [err = 0];
     if err \<noteq> 0 then Some (checks, L)
     else do {
       ((err, resp), L) \<leftarrow> xibridge_device_request_response env u conn (ascii ''ginf'') True (72 + 4) L;
       let checks = checks @ [err = 0];
       ((err, resp), L) \<leftarrow> xibridge_device_request_response env u conn (ascii ''gets'') True (48 + 4) L;
       let checks = checks @ [err = 0];
       (err, L) \<leftarrow> xibridge_close_device_connection env u conn L;
       let checks = checks @ [err = 0];
       ((err, conn), L) \<leftarrow> xibridge_open_device_connection env u junk (device_address localhost 8) True L;
       Some (checks @ [err = ERR_DEVICE_OPEN], L)
     }
   }"

definition test_server_xibridge :: "'w net_env \<Rightarrow> u32 \<Rightarrow> devid \<Rightarrow> 'w lib \<Rightarrow> (bool list \<times> 'w lib) option" where
  "test_server_xibridge env u junk L = do {
     let L = snd (xibridge_set_base_protocol_version \<lparr>major = 3, minor = 0, bagfix = 0\<rparr> L);
     ((err, uris), L) \<leftarrow> list_devices env u junk L;
     let checks = [err = 0];
     if err \<noteq> 0 then Some (checks, L)
     else do {
       ((err, conn), L) \<leftarrow> xibridge_open_device_connection env u junk (device_address localhost 12) True L;
       let checks = checks @ [err = 0];
       if err \<noteq> 0 then give_up env u conn checks L
       else do {
         (err, L) \<leftarrow> xibridge_close_device_connection env u conn L;
         let checks = checks @ [err = 0];
         ((err, conn), L) \<leftarrow> xibridge_open_device_connection env u junk (device_address localhost 13) True L;
         Some (checks @ [err = ERR_DEVICE_OPEN], L)
       }
     }
   }"

text \<open>All of the program; \<open>server_ok\<close> is what starting the simulator gave.\<close>

definition test_main :: "'w net_env \<Rightarrow> u32 \<Rightarrow> devid \<Rightarrow> bool \<Rightarrow> 'w lib \<Rightarrow> (bool option list \<times> 'w lib) option" where
  "test_main env u junk server_ok L =
     (let checks = test_protocols @ map Some test_xibridge_uri_parse @ [Some server_ok] in
      if \<not> server_ok then Some (checks, L)
      else do {
        (c1, L) \<leftarrow> test_server_ximc env u junk L;
        (c2, L) \<leftarrow> test_server_urpc env u junk L;
        (c3, L) \<leftarrow> test_server_xibridge env u junk L;
        Some (checks @ map Some (c1 @ c2 @ c3), L)
      })"

lemma localhost_ok: "CHR ''/'' \<notin> set localhost" "length localhost < 64" "length localhost \<le> XI_URI_HOST_LEN"
  by (simp_all add: localhost_def XI_URI_HOST_LEN_def)

lemma set_base:
  assumes "v \<in> {1, 2, 3}" and "resting k L"
  shows "base_version (snd (xibridge_set_base_protocol_version \<lparr>major = v, minor = 0, bagfix = 0\<rparr> L)) = ucast v"
    and "resting k (snd (xibridge_set_base_protocol_version \<lparr>major = v, minor = 0, bagfix = 0\<rparr> L))"
  using assms
  by (auto simp: xibridge_set_base_protocol_version_def xbc_set_base_protocol_version_def
      is_protocol_supported_version_def DEFAULT_PROTO_VERSION_def resting_def)

lemma listed:
  assumes "resting k L" and "k + 1 \<noteq> cl_invalid" and "base_version L \<in> {1, 3}"
  shows "\<exists>L'. list_devices simu_net u junk L = Some ((0, map (device_uri localhost) devices_simu), L') \<and>
    resting (k + 1) L' \<and> base_version L' = base_version L"
proof -
  obtain L' where L': "xibridge_enumerate_adapter_devices simu_net u junk localhost (Some []) True L =
      Some ((0, Some (concat (map (\<lambda>d. ascii (device_uri localhost d) @ [0]) devices_simu) @ [0]), 3), L')"
    "resting (k + 1) L'" "base_version L' = base_version L"
    using simu_enumerate [OF assms localhost_ok(3)] by blast
  have "walk_uris (length (map (device_uri localhost) devices_simu))
      (concat (map (\<lambda>u. ascii u @ [0]) (map (device_uri localhost) devices_simu)) @ [0]) =
      Some (map (device_uri localhost) devices_simu)"
  proof (rule walk_texts)
    have nul: "digit_val (CHR 0x00) = None" by (simp add: digit_val_def)
    have "hex_digits ! d \<noteq> CHR 0x00" if "d < 16" for d
      using hex_digit_facts(1) [OF that] nul by (metis option.distinct(1))
    then have "CHR 0x00 \<notin> set (hexX n v)" for n v by (metis set_hexX)
    then show "\<forall>u \<in> set (map (device_uri localhost) devices_simu). CHR 0x00 \<notin> set u"
      by (auto simp: device_uri_def xinet_pre_def localhost_def str_dev_id_def)
  qed
  moreover have "length devices_simu = 3" by (simp add: devices_simu_def serials_def)
  ultimately show ?thesis using L' by (simp add: list_devices_def comp_def)
qed

lemma open_number:
  assumes "resting k L" and "k + 1 \<noteq> cl_invalid" and "base_version L \<in> {1, 2, 3}"
  shows "\<exists>L'. xibridge_open_device_connection simu_net u junk (device_address localhost n) True L =
      Some (if is_serial_ok n
            then (0, Some \<lparr>ct_conn_id = k, ct_proto_ver = \<lparr>major = ucast (base_version L), minor = 0, bagfix = 0\<rparr>\<rparr>)
            else (ERR_DEVICE_OPEN, None), L') \<and>
    resting (k + 1) L' \<and> base_version L' = base_version L \<and>
    (is_serial_ok n \<longrightarrow> linked (base_version L) k (devid_of_id n) L')"
  using simu_open_device [OF assms parse_address [OF localhost_ok(1,2), of n], of u junk]
  by (auto simp: mk_devid_def split: if_splits)

lemma ximc_session:
  assumes "resting k L" and "k + 1 \<noteq> cl_invalid" "k + 2 \<noteq> cl_invalid" "k + 3 \<noteq> cl_invalid"
  shows "\<exists>L'. test_server_ximc simu_net u junk L = Some ([True, True, True, True, True], L') \<and> resting (k + 3) L'"
proof -
  let ?L = "snd (xibridge_set_base_protocol_version \<lparr>major = 1, minor = 0, bagfix = 0\<rparr> L)"
  have base: "base_version ?L = 1" "resting k ?L" using set_base [of 1 k L] assms(1) by simp_all
  obtain L1 where L1: "list_devices simu_net u junk ?L = Some ((0, map (device_uri localhost) devices_simu), L1)"
    "resting (k + 1) L1" "base_version L1 = 1"
    using listed [OF base(2) assms(2)] base(1) by auto
  have "is_serial_ok 3" "\<not> is_serial_ok 2" by (simp_all add: is_serial_ok_def serials_def)
  then obtain L2 where L2: "xibridge_open_device_connection simu_net u junk (device_address localhost 3) True L1 =
      Some ((0, Some \<lparr>ct_conn_id = k + 1, ct_proto_ver = \<lparr>major = 1, minor = 0, bagfix = 0\<rparr>\<rparr>), L2)"
    "resting (k + 2) L2" "base_version L2 = 1" "linked 1 (k + 1) (devid_of_id 3) L2"
    using open_number [OF L1(2), of u junk 3] assms(3) L1(3) by (auto simp: add.assoc)
  obtain L3 where L3: "xibridge_device_request_response simu_net u
      (Some \<lparr>ct_conn_id = k + 1, ct_proto_ver = \<lparr>major = 1, minor = 0, bagfix = 0\<rparr>\<rparr>) (ascii ''geng'') True 36 L2 =
      Some ((0, take (unat (36 :: u32)) (be32 0)), L3)"
    "resting (k + 2) L3" "base_version L3 = 1" "linked 1 (k + 1) (devid_of_id 3) L3"
    using simu_request [OF L2(4,2), of "ascii ''geng''" u _ 36] L2(3) by (auto simp: ascii_def)
  obtain L4 where L4: "xibridge_close_device_connection simu_net u
      (Some \<lparr>ct_conn_id = k + 1, ct_proto_ver = \<lparr>major = 1, minor = 0, bagfix = 0\<rparr>\<rparr>) L3 = Some (0, L4)"
    "resting (k + 2) L4" "base_version L4 = 1"
    using simu_close [OF L3(4,2)] L3(3) by auto
  obtain L5 where "xibridge_open_device_connection simu_net u junk (device_address localhost 2) True L4 =
      Some ((ERR_DEVICE_OPEN, None), L5)" "resting (k + 3) L5"
    using open_number [OF L4(2), of u junk 2] assms(4) L4(3) \<open>\<not> is_serial_ok 2\<close> by (auto simp: add.assoc)
  with L1(1) L2(1) L3(1) L4(1) show ?thesis by (simp add: test_server_ximc_def)
qed

lemma urpc_session:
  assumes "resting k L" and "k + 1 \<noteq> cl_invalid" "k + 2 \<noteq> cl_invalid"
  shows "\<exists>L'. test_server_urpc simu_net u junk L = Some ([True, True, True, True, True], L') \<and> resting (k + 2) L'"
proof -
  let ?L = "snd (xibridge_set_base_protocol_version \<lparr>major = 2, minor = 0, bagfix = 0\<rparr> L)"
  let ?c = "Some \<lparr>ct_conn_id = k, ct_proto_ver = \<lparr>major = 2, minor = 0, bagfix = 0\<rparr>\<rparr>"
  have base: "base_version ?L = 2" "resting k ?L" using set_base [of 2 k L] assms(1) by simp_all
  have nums: "is_serial_ok 7" "\<not> is_serial_ok 8" by (simp_all add: is_serial_ok_def serials_def)
  then obtain L2 where L2: "xibridge_open_device_connection simu_net u junk (device_address localhost 7) True ?L =
      Some ((0, ?c), L2)" "resting (k + 1) L2" "base_version L2 = 2" "linked 2 k (devid_of_id 7) L2"
    using open_number [OF base(2), of u junk 7] assms(2) base(1) by auto
  obtain L3 where L3: "xibridge_device_request_response simu_net u ?c (ascii ''ginf'') True (72 + 4) L2 =
      Some ((0, take (unat (72 + 4 :: u32)) (be32 0)), L3)" "resting (k + 1) L3" "base_version L3 = 2" "linked 2 k (devid_of_id 7) L3"
    using simu_request [OF L2(4,2), of "ascii ''ginf''" u _ "72 + 4"] L2(3) by (auto simp: ascii_def)
  obtain L4 where L4: "xibridge_device_request_response simu_net u ?c (ascii ''gets'') True (48 + 4) L3 =
      Some ((0, take (unat (48 + 4 :: u32)) (be32 0)), L4)" "resting (k + 1) L4" "base_version L4 = 2" "linked 2 k (devid_of_id 7) L4"
    using simu_request [OF L3(4,2), of "ascii ''gets''" u _ "48 + 4"] L3(3) by (auto simp: ascii_def)
  obtain L5 where L5: "xibridge_close_device_connection simu_net u ?c L4 = Some (0, L5)"
    "resting (k + 1) L5" "base_version L5 = 2"
    using simu_close [OF L4(4,2)] L4(3) by auto
  obtain L6 where "xibridge_open_device_connection simu_net u junk (device_address localhost 8) True L5 =
      Some ((ERR_DEVICE_OPEN, None), L6)" "resting (k + 2) L6"
    using open_number [OF L5(2), of u junk 8] assms(3) L5(3) nums by (auto simp: add.assoc)
  with L2(1) L3(1) L4(1) L5(1) show ?thesis by (simp add: test_server_urpc_def)
qed

lemma xibridge_session:
  assumes "resting k L" and "k + 1 \<noteq> cl_invalid" "k + 2 \<noteq> cl_invalid" "k + 3 \<noteq> cl_invalid"
  shows "\<exists>L'. test_server_xibridge simu_net u junk L = Some ([True, True, True, True], L') \<and> resting (k + 3) L'"
proof -
  let ?L = "snd (xibridge_set_base_protocol_version \<lparr>major = 3, minor = 0, bagfix = 0\<rparr> L)"
  let ?c = "Some \<lparr>ct_conn_id = k + 1, ct_proto_ver = \<lparr>major = 3, minor = 0, bagfix = 0\<rparr>\<rparr>"
  have base: "base_version ?L = 3" "resting k ?L" using set_base [of 3 k L] assms(1) by simp_all
  obtain L1 where L1: "list_devices simu_net u junk ?L = Some ((0, map (device_uri localhost) devices_simu), L1)"
    "resting (k + 1) L1" "base_version L1 = 3"
    using listed [OF base(2) assms(2)] base(1) by auto
  have nums: "is_serial_ok 12" "\<not> is_serial_ok 13" by (simp_all add: is_serial_ok_def serials_def)
  then obtain L2 where L2: "xibridge_open_device_connection simu_net u junk (device_address localhost 12) True L1 =
      Some ((0, ?c), L2)" "resting (k + 2) L2" "base_version L2 = 3" "linked 3 (k + 1) (devid_of_id 12) L2"
    using open_number [OF L1(2), of u junk 12] assms(3) L1(3) by (auto simp: add.assoc)
  obtain L4 where L4: "xibridge_close_device_connection simu_net u ?c L2 = Some (0, L4)"
    "resting (k + 2) L4" "base_version L4 = 3"
    using simu_close [OF L2(4,2)] L2(3) by auto
  obtain L5 where "xibridge_open_device_connection simu_net u junk (device_address localhost 13) True L4 =
      Some ((ERR_DEVICE_OPEN, None), L5)" "resting (k + 3) L5"
    using open_number [OF L4(2), of u junk 13] assms(4) L4(3) nums by (auto simp: add.assoc)
  with L1(1) L2(1) L4(1) show ?thesis by (simp add: test_server_xibridge_def)
qed

text \<open>The library before its first call, beside a simulator that has just started.\<close>

definition fresh_lib :: "simu lib" where
  "fresh_lib = init_lib \<lparr>s_inbox = [], s_next = 1, s_down = False\<rparr>"

lemma fresh_calm: "resting 1 fresh_lib"
  by (simp add: fresh_lib_def init_lib_def resting_def xbc_set_base_protocol_version_def
      is_protocol_supported_version_def DEFAULT_PROTO_VERSION_def cl_invalid_def)

text \<open>
  C14: The test program passes. Run against its simulator, from the start of the program, every one of
  the checks of \<open>test_main\<close> succeeds: the packets that the three protocols compose match
  their schemas, the two URIs are parsed into the identifiers that they name, and the sessions by the
  protocols 1, 2 and 3, with their enumerations, opens, commands and closes, give the codes that the
  tests ask for, an open of a device that the simulator does not have among them. It holds whatever the
  library's uninitialised variables contain.
\<close>

theorem test_suite_passes:
  "\<exists>checks L'. test_main simu_net u junk True fresh_lib = Some (checks, L') \<and>
     length checks = 45 \<and> set checks = {Some True}"
proof -
  obtain L1 where L1: "test_server_ximc simu_net u junk fresh_lib = Some ([True, True, True, True, True], L1)" "resting 4 L1"
    using ximc_session [OF fresh_calm, of u junk] by (auto simp: cl_invalid_def)
  obtain L2 where L2: "test_server_urpc simu_net u junk L1 = Some ([True, True, True, True, True], L2)" "resting 6 L2"
    using urpc_session [OF L1(2), of u junk] by (auto simp: cl_invalid_def)
  obtain L3 where L3: "test_server_xibridge simu_net u junk L2 = Some ([True, True, True, True], L3)"
    using xibridge_session [OF L2(2), of u junk] by (auto simp: cl_invalid_def)
  have packets: "list_all (\<lambda>x. x = Some True) test_protocols"
    using request1 request2 response2 request3 response3 by (simp add: test_protocols_def)
  have "length test_protocols = 22"
    by (simp add: test_protocols_def test_request_proto1_def test_request_proto2_def test_response_proto2_def
        test_request_proto3_def test_response_proto3_def Let_def)
  moreover have "length test_xibridge_uri_parse = 8"
    by (simp add: test_xibridge_uri_parse_def case_prod_beta Let_def)
  moreover have "x = Some True" if "x \<in> set test_protocols \<union> Some ` set test_xibridge_uri_parse" for x
    using that packets uri_checks by (auto simp: list_all_iff)
  ultimately show ?thesis using L1(1) L2(1) L3 by (force simp: test_main_def)
qed

end
