(* ===== verification/Client_Enumerate.thy ===== *)
theory Client_Enumerate
  imports Client_Network
begin

text \<open>
  Enumerations over any network, and what the library's calls do to the map of connections. An
  enumeration can fail to allocate its buffer, so it is shown to keep the invariant where it returns.
\<close>

section \<open>Steps that return or are undefined\<close>

definition tells :: "('r \<Rightarrow> 'w lib \<Rightarrow> bool) \<Rightarrow> ('r \<times> 'w lib) option \<Rightarrow> bool" where
  "tells P m \<longleftrightarrow> (\<forall>r L. m = Some (r, L) \<longrightarrow> P r L)"

lemma tells_ret: "P r L \<Longrightarrow> tells P (Some (r, L))"
  by (simp add: tells_def)

lemma tells_none [simp]: "tells P None"
  by (simp add: tells_def)

lemma tells_yields: "yields Q m \<Longrightarrow> (\<And>r L1. Q r L1 \<Longrightarrow> tells P (f (r, L1))) \<Longrightarrow> tells P (Option.bind m f)"
  unfolding yields_def by fastforce

lemma tells_reaches: "reaches Q m \<Longrightarrow> (\<And>L1. Q L1 \<Longrightarrow> tells P (f L1)) \<Longrightarrow> tells P (Option.bind m f)"
  unfolding reaches_def by fastforce

lemma tells_tells: "tells Q m \<Longrightarrow> (\<And>r L1. Q r L1 \<Longrightarrow> tells P (f (r, L1))) \<Longrightarrow> tells P (Option.bind m f)"
  unfolding tells_def by (cases m) auto

lemma tells_any: "(\<And>x. tells P (f x)) \<Longrightarrow> tells P (Option.bind m f)"
  by (cases m) auto

lemmas tells_read = tells_any [where m = "heap L p" for L p] tells_any [where m = "get_last_error p L" for p L]
  tells_any [where m = "xi_net_dev_uris m h d n" for m h d n]

lemma tells_of_yields: "yields P m \<Longrightarrow> tells P m"
  by (auto simp: yields_def tells_def)

lemma other_version_joined:
  assumes "joined used B p L"
  shows "yields (\<lambda>z. joined used B p) (other_version p L)"
proof -
  obtain c where c: "heap L p = Some c" using assms by (auto simp: joined_def split: option.splits)
  have "kept used {p} L (L\<lparr>heap := (heap L)(p \<mapsto> c\<lparr>server_protocol_version := v, last_error := e\<rparr>)\<rparr>)" for v e
    using c by (auto simp: kept_def)
  then have "joined used B p (L\<lparr>heap := (heap L)(p \<mapsto> c\<lparr>server_protocol_version := v, last_error := e\<rparr>)\<rparr>)" for v e
    by (rule joined_kept [OF assms])
  with c assms show ?thesis by (simp add: other_version_def Let_def yields_ret)
qed

section \<open>The enumeration\<close>

context bindy_network
begin

lemma send_joined:
  assumes "joined used B p L"
  shows "yields (\<lambda>z. joined used B p) (send_and_receive env p req L)"
proof -
  have "live L p" "sound L" using assms by (auto simp: joined_live joined_def intro: lib_ok_sound)
  from good_joined [OF good_send_and_receive [OF this same_refl] assms] show ?thesis .
qed

lemma parse_joined:
  assumes "joined used B p L" and "\<not> is_server (snd pr)"
  shows "yields (\<lambda>z. joined used B p) (parse_received u p pr L)"
  using good_joined [OF good_parse_received [OF joined_live(1) [OF assms(1)] same_refl assms(2)] assms(1)] .

lemma fail_joined: "joined used B p L \<Longrightarrow> tells (\<lambda>z. joined used B p) (fail_with p e r L)"
  by (rule tells_of_yields, rule good_joined [OF good_fail_with [OF joined_live(1) same_refl]])

lemma enumerate_joined:
  assumes "joined used B p L"
  shows "tells (\<lambda>z. joined used B p) (exec_enumerate env u p has_out L)"
  unfolding exec_enumerate_def Let_def case_prod_beta
  by (rule tells_reaches [OF clr_errors_joined [OF assms]])
    (auto intro!: tells_ret tells_read fail_joined tells_yields [OF send_joined] tells_yields [OF other_version_joined]
      tells_yields [OF parse_joined] dest!: make_protocol_client split: option.splits)

definition enum_ok :: "(conn_id_t \<Rightarrow> ptr option) \<Rightarrow> ptr \<Rightarrow> 'r round \<Rightarrow> 'w lib \<Rightarrow> bool" where
  "enum_ok B p x L \<longleftrightarrow>
     (case x of
        No_conn e \<Rightarrow> e \<noteq> 0 \<and> lib_ok used {} L \<and> bmap L = B
      | Stop e r \<Rightarrow> lib_ok used {p} L \<and> live L p \<and> other_conns p (bmap L) = B
      | Again e r \<Rightarrow> parted used B p L)"

lemma enum_no_connection: "failed B p L \<Longrightarrow> tells (enum_ok B p) (no_connection p L)"
  using no_connection_yields [of used B p L] joined_live(3) [of used B p L]
  by (auto simp: enum_ok_def failed_def no_connection_def live_def get_last_error_def yields_def tells_def)

lemma enum_stop: "joined used B p L \<Longrightarrow> enum_ok B p (Stop e r) L"
  using joined_live(1) by (auto simp: enum_ok_def joined_def)

lemma enum_round_ok:
  assumes "parted used B p L"
  shows "tells (enum_ok B p) (enum_round env u p L)"
proof -
  have "reaches (parted used B p) (clr_errors p L)"
  proof -
    obtain c where c: "heap L p = Some c" "conn_id c = cl_invalid" using assms by (auto simp: parted_def detached_def)
    then show ?thesis
      using assms lib_ok_touch [of used "{p}" L p c "c\<lparr>last_error := 0\<rparr>" "net L"]
      by (simp add: clr_errors_def set_error_def reaches_def parted_def detached_def shape_def)
  qed
  then show ?thesis
    unfolding enum_round_def case_prod_beta
    by (rule tells_reaches)
      (auto simp: enum_ok_def [of B p "Again e r" for e r] intro!: tells_ret tells_read enum_stop
        tells_yields [OF open_connection_yields] tells_reaches [OF clr_errors_joined] tells_reaches [OF disconnect_tried]
        tells_reaches [OF decrement_joined] tells_tells [OF enumerate_joined] enum_no_connection)
qed

lemma enum_rounds_ok:
  "parted used B p L \<Longrightarrow>
   tells (\<lambda>x L'. enum_ok B p x L' \<and> (\<forall>e r. x \<noteq> Again e r)) (rounds n (enum_round env u p) (e, r) L)"
proof (induction n arbitrary: e r L)
  case 0
  then show ?case by (auto simp: enum_ok_def parted_def joined_live detached_def live_def intro!: tells_ret)
next
  case (Suc n)
  show ?case
    unfolding rounds.simps
  proof (rule tells_tells [OF enum_round_ok [OF Suc.prems]], goal_cases)
    case (1 x L1)
    show ?case
    proof (cases x)
      case (Again e r)
      with 1 have "parted used B p L1" by (simp add: enum_ok_def)
      then show ?thesis using Suc.IH [of L1 e r] by (simp add: Again)
    qed (use 1 in \<open>auto intro!: tells_ret\<close>)
  qed
qed

lemma enumerate_call_ok:
  assumes "lib_ok used {} L"
  shows "tells (\<lambda>r L'. lib_ok used {} L' \<and> bmap L' = bmap L)
    (xibridge_enumerate_adapter_devices env u junk addr adapt has_out L)"
proof (cases has_out)
  case False
  with assms show ?thesis by (simp add: xibridge_enumerate_adapter_devices_def tells_ret)
next
  case True
  have new: "tells (\<lambda>p. parted used (bmap L) p)
      (new_client u junk addr (Some (case adapt of None \<Rightarrow> [] | Some a \<Rightarrow> a)) L)"
    using new_client_parted [OF assms] by (auto simp: tells_def)
  show ?thesis
    unfolding xibridge_enumerate_adapter_devices_def case_prod_beta
  proof (simp only: True if_False not_True_eq_False, rule tells_tells [OF new], goal_cases)
    case (1 p L1)
    show ?case
    proof (simp only: fst_conv snd_conv, rule tells_tells [OF enum_rounds_ok [OF 1]], goal_cases)
      case (1 x L2)
      show ?case
      proof (cases x)
        case (Stop e r)
        with 1 have stop: "lib_ok used {p} L2" "live L2 p" "other_conns p (bmap L2) = bmap L" by (simp_all add: enum_ok_def)
        from Stop show ?thesis
          by (auto simp: case_prod_beta intro!: tells_ret tells_reaches [OF disconnect_joined [OF stop]] dest!: delete_parted)
      qed (use 1 in \<open>auto simp: enum_ok_def intro!: tells_ret\<close>)
    qed
  qed
qed

end

section \<open>Calls and connections\<close>


end
