(* ===== verification/Example_Programs.thy ===== *)
theory Example_Programs
  imports Test_Program Client_Enumerate
begin

text \<open>
  The example programs (\<open>example/\<close>) as programs over the library's interface: a session with each of
  the servers, and the main program that runs the sessions asked for. What they print is left out.
  \<open>None\<close> is a text or an array that overflows, or a call of the library without defined behaviour.
\<close>

section \<open>Shared parts\<close>

text \<open>Sizes of the structures of \<open>ximc_min.h\<close> and \<open>urmc_min.h\<close> where \<open>long\<close> has 64 bits.\<close>

definition sizeof_ginf :: nat where
  "sizeof_ginf = 3 * 16 + 4 * 1 + 2 * 1 + 3 * 2 + 4 + 8"

definition sizeof_urmc_status :: nat where
  "sizeof_urmc_status = 48"

definition sizeof_re_gets :: nat where
  "sizeof_re_gets = 4 + 80"

definition sizeof_re_geng :: nat where
  "sizeof_re_geng = 4 + 8 * 4"

definition CID_SIZE :: nat where
  "CID_SIZE = 4"

definition CRC_SIZE :: nat where
  "CRC_SIZE = 2"

text \<open>The check sum, with its two loops.\<close>

fun crc_bit_loop :: "nat \<Rightarrow> u16 \<Rightarrow> u16" where
  "crc_bit_loop 0 crc = crc"
| "crc_bit_loop (Suc j) crc =
     (let a = crc; carry_flag = a AND 1; crc = drop_bit 1 crc
      in crc_bit_loop j (if carry_flag = 1 then crc XOR 0xA001 else crc))"

fun crc_loop :: "bvector \<Rightarrow> u16 \<Rightarrow> u16" where
  "crc_loop [] crc = crc"
| "crc_loop (b # bs) crc = crc_loop bs (crc_bit_loop 8 (crc XOR ucast b))"

definition example_get_crc :: "bvector \<Rightarrow> nat \<Rightarrow> u16" where
  "example_get_crc pbuf n = crc_loop (take n pbuf) 0xFFFF"

text \<open>
  A response in an array of \<open>n\<close> zeroes; the check of the sum at its end, a 16-bit number in memory.
\<close>

definition in_zeroes :: "nat \<Rightarrow> bvector \<Rightarrow> bvector" where
  "in_zeroes n r = take n r @ replicate (n - length r) 0"

definition crc_matches :: "nat \<Rightarrow> bvector \<Rightarrow> bool" where
  "crc_matches len resp \<longleftrightarrow>
     example_get_crc (drop CID_SIZE resp) len =
     ucast (resp ! (CID_SIZE + len)) + 256 * ucast (resp ! (CID_SIZE + len + 1))"

text \<open>The way out of a session after a failure: close, and \<open>false\<close>.\<close>

definition close_and_fail :: "'w net_env \<Rightarrow> u32 \<Rightarrow> conn_t \<Rightarrow> 'w lib \<Rightarrow> (bool \<times> 'w lib) option" where
  "close_and_fail env u conn L = do {
     (z, L) \<leftarrow> xibridge_close_device_connection env u (Some conn) L;
     Some (False, L)
   }"

text \<open>Opening and enumerating as the programs do, with \<open>conn\<close> and the URIs that are printed.\<close>

definition open_uri :: "'w net_env \<Rightarrow> u32 \<Rightarrow> devid \<Rightarrow> string \<Rightarrow> 'w lib \<Rightarrow> ((u32 \<times> conn_t) \<times> 'w lib) option" where
  "open_uri env u junk uri L = do {
     ((err, conn), L) \<leftarrow> xibridge_open_device_connection env u junk uri True L;
     Some ((err, conn_or_invalid conn), L)
   }"

definition enumerate_uris ::
    "'w net_env \<Rightarrow> u32 \<Rightarrow> devid \<Rightarrow> string \<Rightarrow> 'w lib \<Rightarrow> ((u32 \<times> u32 \<times> string list) \<times> 'w lib) option" where
  "enumerate_uris env u junk ip L = do {
     ((err, pdata, count), L) \<leftarrow> xibridge_enumerate_adapter_devices env u junk ip (Some []) True L;
     if err \<noteq> 0 then Some ((err, count, []), L)
     else do {
       uris \<leftarrow> (if count \<noteq> 0 then Option.bind pdata (walk_uris (nat (sint count))) else Some []);
       Some ((err, count, uris), L)
     }
   }"

section \<open>The sessions\<close>

definition xinet_urpc_usage_example ::
    "'w net_env \<Rightarrow> u32 \<Rightarrow> devid \<Rightarrow> string \<Rightarrow> u32 \<Rightarrow> 'w lib \<Rightarrow> (bool \<times> 'w lib) option" where
  "xinet_urpc_usage_example env u junk ip dev_num L = do {
     let L = snd (xibridge_set_base_protocol_version \<lparr>major = 2, minor = 0, bagfix = 0\<rparr> L);
     dev_ip \<leftarrow> sprintf_address 256 ip dev_num;
     ((err, conn), L) \<leftarrow> open_uri env u junk dev_ip L;
     if err \<noteq> 0 then close_and_fail env u conn L
     else do {
       ((ginf_err, resp), L) \<leftarrow> xibridge_device_request_response env u (Some conn) (ascii ''ginf'') True
          (word_of_nat (sizeof_ginf + 4)) L;
       if ginf_err \<noteq> 0 then close_and_fail env u conn L
       else do {
         ((gets_err, resp_st), L) \<leftarrow> xibridge_device_request_response env u (Some conn) (ascii ''gets'') True
            (word_of_nat (sizeof_urmc_status + 4)) L;
         if gets_err \<noteq> 0 then close_and_fail env u conn L
         else do {
           (z, L) \<leftarrow> xibridge_close_device_connection env u (Some conn) L;
           Some (True, L)
         }
       }
     }
   }"

text \<open>The two commands that all sessions with an ximc controller send, up to their end.\<close>

definition ximc_commands :: "'w net_env \<Rightarrow> u32 \<Rightarrow> conn_t \<Rightarrow> 'w lib \<Rightarrow> (bool \<times> 'w lib) option" where
  "ximc_commands env u conn L = do {
     ((err_op, status), L) \<leftarrow> xibridge_device_request_response env u (Some conn) (ascii ''gets'') True
        (word_of_nat sizeof_re_gets) L;
     if err_op \<noteq> 0 then close_and_fail env u conn L
     else do {
       ((err_op, settings), L) \<leftarrow> xibridge_device_request_response env u (Some conn) (ascii ''geng'') True
          (word_of_nat sizeof_re_geng) L;
       if err_op \<noteq> 0 then close_and_fail env u conn L
       else do {
         (z, L) \<leftarrow> xibridge_close_device_connection env u (Some conn) L;
         Some (True, L)
       }
     }
   }"

definition xinet_ximc_usage_example ::
    "'w net_env \<Rightarrow> u32 \<Rightarrow> devid \<Rightarrow> string \<Rightarrow> u32 \<Rightarrow> 'w lib \<Rightarrow> (bool \<times> 'w lib) option" where
  "xinet_ximc_usage_example env u junk ip dev_num L = do {
     dev_ip \<leftarrow> sprintf_address 256 ip dev_num;
     ((err, count, uris), L) \<leftarrow> enumerate_uris env u junk ip L;
     if err \<noteq> 0 then Some (False, L)
     else do {
       ((err, conn), L) \<leftarrow> open_uri env u junk dev_ip L;
       if err \<noteq> 0 then close_and_fail env u conn L else ximc_commands env u conn L
     }
   }"

text \<open>Asking for the server's version, which becomes the base version.\<close>

definition use_server_version ::
    "'w net_env \<Rightarrow> u32 \<Rightarrow> devid \<Rightarrow> version \<Rightarrow> string \<Rightarrow> 'w lib \<Rightarrow> (u32 \<times> 'w lib) option" where
  "use_server_version env u junk real_server_version ip L = do {
     ((err, v), L) \<leftarrow> xibridge_get_server_last_protocol_version env u junk ip True L;
     if err \<noteq> 0 then Some (err, L)
     else Some (0, snd (xibridge_set_base_protocol_version
       (case v of None \<Rightarrow> real_server_version | Some v \<Rightarrow> v) L))
   }"

definition xinet_xibridge_usage_example_urpc ::
    "'w net_env \<Rightarrow> u32 \<Rightarrow> devid \<Rightarrow> version \<Rightarrow> string \<Rightarrow> u32 \<Rightarrow> 'w lib \<Rightarrow> (bool \<times> 'w lib) option" where
  "xinet_xibridge_usage_example_urpc env u junk ver ip dev_num L = do {
     dev_ip \<leftarrow> sprintf_address 256 ip dev_num;
     (err, L) \<leftarrow> use_server_version env u junk ver ip L;
     if err \<noteq> 0 then Some (False, L)
     else do {
       ((err, conn), L) \<leftarrow> open_uri env u junk dev_ip L;
       if err \<noteq> 0 then close_and_fail env u conn L
       else do {
         let n = sizeof_ginf + CID_SIZE + CRC_SIZE;
         ((ginf_err, resp), L) \<leftarrow> xibridge_device_request_response env u (Some conn) (ascii ''ginf'') True (word_of_nat n) L;
         if ginf_err \<noteq> 0 then close_and_fail env u conn L
         else if \<not> crc_matches sizeof_ginf (in_zeroes n resp) then close_and_fail env u conn L
         else do {
           let n = sizeof_urmc_status + CID_SIZE + CRC_SIZE;
           ((gets_err, resp_st), L) \<leftarrow> xibridge_device_request_response env u (Some conn) (ascii ''gets'') True (word_of_nat n) L;
           if gets_err \<noteq> 0 then close_and_fail env u conn L
           else if \<not> crc_matches sizeof_urmc_status (in_zeroes n resp_st) then close_and_fail env u conn L
           else do {
             (z, L) \<leftarrow> xibridge_close_device_connection env u (Some conn) L;
             ((err, count, uris), L) \<leftarrow> enumerate_uris env u junk ip L;
             Some (err = 0, L)
           }
         }
       }
     }
   }"

definition xinet_xibridge_usage_example_ximc ::
    "'w net_env \<Rightarrow> u32 \<Rightarrow> devid \<Rightarrow> version \<Rightarrow> string \<Rightarrow> u32 \<Rightarrow> 'w lib \<Rightarrow> (bool \<times> 'w lib) option" where
  "xinet_xibridge_usage_example_ximc env u junk ver ip dev_num L = do {
     dev_ip \<leftarrow> sprintf_address 256 ip dev_num;
     (err, L) \<leftarrow> use_server_version env u junk ver ip L;
     if err \<noteq> 0 then Some (False, L)
     else do {
       ((err, count, uris), L) \<leftarrow> enumerate_uris env u junk ip L;
       if err \<noteq> 0 then Some (False, L)
       else do {
         ((err, conn), L) \<leftarrow> open_uri env u junk dev_ip L;
         if err \<noteq> 0 then close_and_fail env u conn L else ximc_commands env u conn L
       }
     }
   }"

text \<open>
  The first enumerated URI is copied to \<open>dev_ip[256]\<close> and opened. A count that is no positive number
  of type \<open>int\<close> copies nothing.
\<close>

definition copy_dev_ip :: "string list \<Rightarrow> string option" where
  "copy_dev_ip uris =
     (case uris of [] \<Rightarrow> None | uri # us \<Rightarrow> if length uri + 1 \<le> 256 then Some uri else None)"

definition xinet_xibridge_usage_example_ximc_ext ::
    "'w net_env \<Rightarrow> u32 \<Rightarrow> devid \<Rightarrow> version \<Rightarrow> string \<Rightarrow> u32 \<Rightarrow> 'w lib \<Rightarrow> (bool \<times> 'w lib) option" where
  "xinet_xibridge_usage_example_ximc_ext env u junk ver ip dev_num L = do {
     dev_ip \<leftarrow> sprintf_address 256 ip dev_num;
     (err, L) \<leftarrow> use_server_version env u junk ver ip L;
     if err \<noteq> 0 then Some (False, L)
     else do {
       ((err, count, uris), L) \<leftarrow> enumerate_uris env u junk ip L;
       if err \<noteq> 0 then Some (False, L)
       else if count = 0 then Some (False, L)
       else do {
         dev_ip \<leftarrow> copy_dev_ip uris;
         ((err, conn), L) \<leftarrow> open_uri env u junk dev_ip L;
         if err \<noteq> 0 then close_and_fail env u conn L else ximc_commands env u conn L
       }
     }
   }"

text \<open>What one of the threads of \<open>xinet_urpc_threads\<close>, \<open>xinet_xibridge_threads_urpc\<close> and \<open>xinet_ximc_threads\<close> does.\<close>

definition thread_body :: "'w net_env \<Rightarrow> u32 \<Rightarrow> devid \<Rightarrow> string \<Rightarrow> bvector \<Rightarrow> nat \<Rightarrow> 'w lib \<Rightarrow> (bool \<times> 'w lib) option" where
  "thread_body env u junk dev_ip request n L = do {
     ((err, conn), L) \<leftarrow> open_uri env u junk dev_ip L;
     ((err, resp), L) \<leftarrow> xibridge_device_request_response env u (Some conn) request True (word_of_nat n) L;
     (z, L) \<leftarrow> xibridge_close_device_connection env u (Some conn) L;
     Some (err = 0, L)
   }"

definition thread_body_ximc :: "'w net_env \<Rightarrow> u32 \<Rightarrow> devid \<Rightarrow> string \<Rightarrow> 'w lib \<Rightarrow> (bool \<times> 'w lib) option" where
  "thread_body_ximc env u junk dev_ip = thread_body env u junk dev_ip (take 3 (ascii ''gets'')) 80"

definition thread_body_urpc2 :: "'w net_env \<Rightarrow> u32 \<Rightarrow> devid \<Rightarrow> string \<Rightarrow> 'w lib \<Rightarrow> (bool \<times> 'w lib) option" where
  "thread_body_urpc2 env u junk dev_ip = thread_body env u junk dev_ip (ascii ''ginf'') (sizeof_ginf + 4)"

definition thread_body_urpc :: "'w net_env \<Rightarrow> u32 \<Rightarrow> devid \<Rightarrow> string \<Rightarrow> 'w lib \<Rightarrow> (bool \<times> 'w lib) option" where
  "thread_body_urpc env u junk dev_ip =
     thread_body env u junk dev_ip (ascii ''ginf'' @ mem16 (example_get_crc (ascii ''ginf'') CID_SIZE))
       (sizeof_ginf + CID_SIZE + CRC_SIZE)"

section \<open>The main program\<close>

text \<open>
  The answers typed in: an address and a number for each server, and the kind of controller for the
  third. An answer that is empty or begins with \<open>N\<close> or \<open>n\<close> leaves a server out.
\<close>

definition wanted :: "string \<Rightarrow> bool" where
  "wanted ip_s \<longleftrightarrow> ip_s \<noteq> [] \<and> hd ip_s \<noteq> CHR ''N'' \<and> hd ip_s \<noteq> CHR ''n''"

record answers =
  a_ximc_ip :: string
  a_ximc_num :: u32
  a_urpc_ip :: string
  a_urpc_num :: u32
  a_xib_ip :: string
  a_xib_type :: string
  a_xib_num :: u32

definition xibridge_session_of ::
    "'w net_env \<Rightarrow> u32 \<Rightarrow> devid \<Rightarrow> version \<Rightarrow> answers \<Rightarrow> u32 \<Rightarrow> 'w lib \<Rightarrow> (bool \<times> 'w lib) option" where
  "xibridge_session_of env u junk ver a dev_num L =
     (let controller_type = a_xib_type a;
          dev_num = (if controller_type \<noteq> ''ximc_ext'' \<and> controller_type \<noteq> ''by_serialpidvid'' then a_xib_num a else dev_num)
      in if controller_type \<in> {''ximc'', ''by_serial''} then
           xinet_xibridge_usage_example_ximc env u junk ver (a_xib_ip a) dev_num L
         else if controller_type \<in> {''urpc'', ''by_com_addr'', ''bvvu''} then
           xinet_xibridge_usage_example_urpc env u junk ver (a_xib_ip a) dev_num L
         else if controller_type \<in> {''ximc_ext'', ''by_serialpidvid''} then
           xinet_xibridge_usage_example_ximc_ext env u junk ver (a_xib_ip a) dev_num L
         else Some (False, L))"

text \<open>The exit code.\<close>

definition example_main ::
    "'w net_env \<Rightarrow> u32 \<Rightarrow> devid \<Rightarrow> version \<Rightarrow> answers \<Rightarrow> 'w lib \<Rightarrow> (int \<times> 'w lib) option" where
  "example_main env u junk ver a L = do {
     let dev_num = (0 :: u32);
     let dev_num = (if wanted (a_ximc_ip a) then a_ximc_num a else dev_num);
     (ret, L) \<leftarrow> (if wanted (a_ximc_ip a) then xinet_ximc_usage_example env u junk (a_ximc_ip a) dev_num L else Some (True, L));
     if \<not> ret then Some (1, L)
     else do {
       let dev_num = (if wanted (a_urpc_ip a) then a_urpc_num a else dev_num);
       (ret, L) \<leftarrow> (if wanted (a_urpc_ip a) then xinet_urpc_usage_example env u junk (a_urpc_ip a) dev_num L else Some (True, L));
       if \<not> ret then Some (1, L)
       else do {
         (ret, L) \<leftarrow> (if wanted (a_xib_ip a) then xibridge_session_of env u junk ver a dev_num L else Some (True, L));
         Some (if ret then 0 else 1, L)
       }
     }
   }"

lemma crc_bit_loop_bits: "crc_bit_loop n crc = (crc_bit ^^ n) crc"
  by (induction n arbitrary: crc) (simp_all add: crc_bit_def Let_def funpow_Suc_right del: funpow.simps)

text \<open>The check sum of the example is the one of the server's serial layer.\<close>

lemma example_crc_same: "n \<le> length pbuf \<Longrightarrow> get_crc pbuf n = Some (example_get_crc pbuf n)"
proof -
  have "crc_loop bs crc = foldl crc_byte crc bs" for bs crc
    by (induction bs arbitrary: crc) (simp_all add: crc_byte_def crc_bit_loop_bits del: crc_bit_loop.simps)
  then show "n \<le> length pbuf \<Longrightarrow> get_crc pbuf n = Some (example_get_crc pbuf n)"
    by (simp add: get_crc_def example_get_crc_def)
qed

section \<open>Connections of the examples\<close>

text \<open>
  \<open>B\<close> is the map of connections around a session: with no connection of the session's own, and
  with the one that \<open>conn\<close> names, if any.
\<close>

definition quiet :: "('w \<Rightarrow> conn_id_t set) \<Rightarrow> (conn_id_t \<Rightarrow> ptr option) \<Rightarrow> 'w lib \<Rightarrow> bool" where
  "quiet used B L \<longleftrightarrow> lib_ok used {} L \<and> bmap L = B"

definition holds :: "('w \<Rightarrow> conn_id_t set) \<Rightarrow> (conn_id_t \<Rightarrow> ptr option) \<Rightarrow> conn_t \<Rightarrow> 'w lib \<Rightarrow> bool" where
  "holds used B conn L \<longleftrightarrow> lib_ok used {} L \<and> (bmap L)(ct_conn_id conn := None) = B"

lemma sprintf_fits:
  assumes "length ip \<le> 64"
  shows "sprintf_address 256 ip n = Some (device_address ip n)"
  using assms printf_x_length [of n] by (simp add: sprintf_address_def device_address_def)

lemma set_version_idle: "quiet used B L \<Longrightarrow> quiet used B (snd (xibridge_set_base_protocol_version v L))"
proof -
  assume L: "quiet used B L"
  then have "lib_ok used {} (L\<lparr>base_version := b\<rparr>)" for b
    using lib_ok_same [of used "{}" L "L\<lparr>base_version := b\<rparr>"] by (simp add: quiet_def same_def)
  with L show ?thesis by (simp add: quiet_def xibridge_set_base_protocol_version_def xbc_set_base_protocol_version_def)
qed

context bindy_network
begin

lemma open_holds:
  assumes "quiet used B L"
  shows "yields (\<lambda>r. holds used B (snd r)) (open_uri env u junk uri L)"
proof -
  have ok: "lib_ok used {} L" "bmap L = B" using assms by (simp_all add: quiet_def)
  show ?thesis
    unfolding open_uri_def case_prod_beta
  proof (rule yields_yields [OF open_call_ok [OF ok(1)]], goal_cases)
    case (1 r L1)
    have "(bmap L1)(cl_invalid := None) = bmap L1" if "lib_ok used {} L1"
      using lib_ok_invalid [OF that] by (simp add: fun_upd_idem)
    with 1 ok(2) show ?case
      by (cases r; cases "snd r")
        (auto simp: opens_def holds_def conn_or_invalid_def conn_invalid_def cl_invalid_def fun_upd_idem intro!: yields_ret)
  qed
qed

lemma request_holds:
  "holds used B conn L \<Longrightarrow> yields (\<lambda>r. holds used B conn) (xibridge_device_request_response env u (Some conn) req has_resp n L)"
  by (rule yields_mono [OF request_call_ok]) (auto simp: holds_def)

lemma close_idle:
  "holds used B conn L \<Longrightarrow> yields (\<lambda>r. quiet used B) (xibridge_close_device_connection env u (Some conn) L)"
  by (rule yields_mono [OF close_call_ok]) (auto simp: holds_def quiet_def closes_def)

lemma fail_idle: "holds used B conn L \<Longrightarrow> yields (\<lambda>r. quiet used B) (close_and_fail env u conn L)"
  unfolding close_and_fail_def case_prod_beta by (rule yields_yields [OF close_idle]) (auto intro!: yields_ret)

lemma version_idle:
  assumes "quiet used B L" and "length ip \<le> 64"
  shows "yields (\<lambda>r. quiet used B) (use_server_version env u junk ver ip L)"
  unfolding use_server_version_def case_prod_beta
proof (rule yields_yields [OF version_call_ok], goal_cases)
  case (3 r L1)
  then have "quiet used B L1" using assms(1) by (simp add: quiet_def)
  then show ?case by (auto intro!: yields_ret set_version_idle)
qed (use assms in \<open>simp_all add: quiet_def XI_URI_HOST_LEN_def\<close>)

lemma enumerate_idle:
  assumes "quiet used B L"
  shows "tells (\<lambda>r. quiet used B) (enumerate_uris env u junk ip L)"
  unfolding enumerate_uris_def case_prod_beta
  using assms by (intro tells_tells [OF enumerate_call_ok]) (auto simp: quiet_def intro!: tells_ret tells_any)

lemmas session_rules = yields_ret yields_yields [OF request_holds] yields_yields [OF close_idle] fail_idle

lemma commands_idle: "holds used B conn L \<Longrightarrow> yields (\<lambda>r. quiet used B) (ximc_commands env u conn L)"
  unfolding ximc_commands_def case_prod_beta by (auto intro!: session_rules)

lemma urpc_example_idle:
  assumes "quiet used B L" and "length ip \<le> 64"
  shows "yields (\<lambda>r. quiet used B) (xinet_urpc_usage_example env u junk ip n L)"
  unfolding xinet_urpc_usage_example_def case_prod_beta Let_def sprintf_fits [OF assms(2)] bind.bind_lunit
  by (rule yields_yields [OF open_holds [OF set_version_idle [OF assms(1)]]]) (auto intro!: session_rules)

lemma thread_idle:
  assumes "quiet used B L"
  shows "yields (\<lambda>r. quiet used B) (thread_body env u junk uri req n L)"
  unfolding thread_body_def case_prod_beta
  by (rule yields_yields [OF open_holds [OF assms]]) (auto intro!: session_rules)

text \<open>The sessions that enumerate.\<close>

lemmas told_rules = tells_ret tells_yields [OF request_holds] tells_yields [OF close_idle] tells_of_yields [OF fail_idle]
  tells_of_yields [OF commands_idle] tells_yields [OF open_holds] tells_tells [OF enumerate_idle]

lemma ximc_example_idle:
  assumes "quiet used B L" and "length ip \<le> 64"
  shows "tells (\<lambda>r. quiet used B) (xinet_ximc_usage_example env u junk ip n L)"
  unfolding xinet_ximc_usage_example_def case_prod_beta sprintf_fits [OF assms(2)] bind.bind_lunit
  by (rule tells_tells [OF enumerate_idle [OF assms(1)]]) (auto intro!: told_rules)

lemma xibridge_examples_idle:
  assumes "quiet used B L" and "length ip \<le> 64"
  shows "tells (\<lambda>r. quiet used B) (xinet_xibridge_usage_example_urpc env u junk ver ip n L)"
    and "tells (\<lambda>r. quiet used B) (xinet_xibridge_usage_example_ximc env u junk ver ip n L)"
    and "tells (\<lambda>r. quiet used B) (xinet_xibridge_usage_example_ximc_ext env u junk ver ip n L)"
proof -
  note unfold = case_prod_beta Let_def sprintf_fits [OF assms(2)] bind.bind_lunit
  show "tells (\<lambda>r. quiet used B) (xinet_xibridge_usage_example_urpc env u junk ver ip n L)"
    unfolding xinet_xibridge_usage_example_urpc_def unfold
    by (rule tells_yields [OF version_idle [OF assms]]) (auto intro!: told_rules)
  show "tells (\<lambda>r. quiet used B) (xinet_xibridge_usage_example_ximc env u junk ver ip n L)"
    unfolding xinet_xibridge_usage_example_ximc_def unfold
    by (rule tells_yields [OF version_idle [OF assms]]) (auto intro!: told_rules)
  show "tells (\<lambda>r. quiet used B) (xinet_xibridge_usage_example_ximc_ext env u junk ver ip n L)"
    unfolding xinet_xibridge_usage_example_ximc_ext_def unfold
    by (rule tells_yields [OF version_idle [OF assms]])
      (auto intro!: told_rules tells_any [where m = "copy_dev_ip us" for us])
qed

lemma main_idle:
  assumes "quiet used B L" and "length (a_ximc_ip a) \<le> 64" "length (a_urpc_ip a) \<le> 64" "length (a_xib_ip a) \<le> 64"
  shows "tells (\<lambda>r. quiet used B) (example_main env u junk ver a L)"
proof -
  have third: "tells (\<lambda>r. quiet used B) (xibridge_session_of env u junk ver a n L1)" if "quiet used B L1" for n L1
    unfolding xibridge_session_of_def Let_def
    using xibridge_examples_idle [OF that assms(4)] that by (auto intro!: tells_ret)
  have ret: "tells (\<lambda>r. quiet used B) (Some (b, L1))" if "quiet used B L1" for b :: bool and L1
    using that by (rule tells_ret)
  show ?thesis
    unfolding example_main_def Let_def case_prod_beta
    using assms
    by (auto intro!: tells_ret tells_tells [OF ximc_example_idle] tells_yields [OF urpc_example_idle] tells_tells [OF third]
        tells_tells [OF ret] split: if_splits simp del: bind.bind_lunit)
qed

end


end
