(* ===== verification/Example_Simu.thy ===== *)
theory Example_Simu
  imports Example_Programs
begin

text \<open>
  The example programs against the server simulator: the sessions by versions 1 and 2 come through,
  the one by version 3 fails at its first command.
\<close>

section \<open>The request for the version\<close>

context exchange_link
begin

lemma exec_version_request_same:
  assumes "heap L p = Some c" and "bmap L (conn_id c) = Some p"
    and "answer (conn_id c) (create_version_request Proto3 3000) (net L) = Some (r, w)"
    and "create_version_request Proto3 3000 \<noteq> []"
    and x: "get_data_from_bindy_callback Proto3 (client_proto u) (MBuf_data r True) u =
      accepted (client_proto u) v [] k"
  shows "\<exists>c'. exec_version_request env u p True L =
      Some (Some \<lparr>major = ucast v, minor = 0, bagfix = 0\<rparr>, L\<lparr>heap := (heap L)(p \<mapsto> c'), net := w\<rparr>) \<and>
    last_error c' = 0 \<and> conn_id c' = conn_id c"
proof -
  let ?c = "c\<lparr>server_protocol_version := 3, last_error := 0\<rparr>"
  let ?L0 = "L\<lparr>heap := (heap L)(p \<mapsto> ?c)\<rparr>"
  have sent: "send_and_receive env p (create_version_request Proto3 3000) ?L0 =
      Some (True, L\<lparr>heap := (heap L)(p \<mapsto> ?c\<lparr>is_really_recv := True, recv_message := r\<rparr>), net := w\<rparr>)"
    using send_and_receive_answer [of ?L0 p ?c] assms(2,3) by simp
  have proto: "make_protocol u ?c = Some (Proto3, client_proto u)"
    using make_protocol_class [of ?c u] by (simp add: class_of_def)
  show ?thesis
    using assms(1,4) sent proto x
    by (intro exI [of _ "?c\<lparr>is_really_recv := True, recv_message := r\<rparr>"])
      (simp add: exec_version_request_def clr_errors_def set_error_def parse_received_def
        xbc_get_last_protocol_version_def DEFAULT_PROTO_VERSION_def client_order lib_order Let_def)
qed

end

lemma simu_version:
  assumes "resting k L" and "k + 1 \<noteq> cl_invalid" and "length addr \<le> XI_URI_HOST_LEN"
  shows "\<exists>L'. xibridge_get_server_last_protocol_version simu_net u junk addr True L =
      Some ((0, Some \<lparr>major = 3, minor = 0, bagfix = 0\<rparr>), L') \<and> resting (k + 1) L' \<and> base_version L' = base_version L"
proof -
  let ?p = "next_ptr L" and ?w = "\<lparr>s_inbox = [], s_next = k + 1, s_down = False\<rparr>"
  obtain c where c: "new_client u junk addr (Some []) L = Some (?p, L\<lparr>heap := (heap L)(?p \<mapsto> c), next_ptr := ?p + 1\<rparr>)"
    using assms(3) by (simp add: new_client_def Let_def not_less)
  define L0 where "L0 = L\<lparr>heap := (heap L)(?p \<mapsto> c), next_ptr := ?p + 1\<rparr>"
  define c1 where "c1 = c\<lparr>conn_id := k, last_error := 0\<rparr>"
  define L1 where "L1 = L0\<lparr>bindy := True, bmap := (bmap L)(k \<mapsto> ?p), heap := (heap L)(?p \<mapsto> c1), net := ?w\<rparr>"
  have k: "k \<noteq> cl_invalid" using assms(1) by (simp add: resting_def)
  have "heap L0 ?p = Some c" "resting k L0" using assms(1) by (simp_all add: L0_def resting_def)
  then have open_conn: "open_connection simu_net ?p L0 = Some (True, L1)"
    by (simp add: simu_open_connection L1_def L0_def c1_def)
  have L1: "heap L1 ?p = Some c1" "bmap L1 (conn_id c1) = Some ?p" "net L1 = ?w" "conn_id c1 = k"
    by (simp_all add: L1_def c1_def)
  have req: "create_version_request Proto3 3000 = head3 5 0 (devid_of_id 0) @ []"
    by (simp add: Protocol3_request_bytes)
  have answer: "simu_answer (conn_id c1) (create_version_request Proto3 3000) (net L1) =
      Some (head3 251 0 (devid_of_id 0) @ be32 3, ?w)"
    using simu_answer_one [OF simu_answers3(4) [of "[]" k "devid_of_id 0"], of "k + 1"] by (simp only: req L1(3,4)) simp
  have nonempty: "create_version_request Proto3 3000 \<noteq> []" unfolding req by (simp add: head_nonempty)
  have read: "get_data_from_bindy_callback Proto3 (client_proto u) (MBuf_data (head3 251 0 (devid_of_id 0) @ be32 3) True) u =
      accepted (client_proto u) 3 [] 251" by (simp add: client_result3)
  obtain c2 where c2: "exec_version_request simu_net u ?p True L1 =
      Some (Some \<lparr>major = 3, minor = 0, bagfix = 0\<rparr>, L1\<lparr>heap := (heap L1)(?p \<mapsto> c2), net := ?w\<rparr>)"
    "last_error c2 = 0" "conn_id c2 = k"
    using simu.exec_version_request_same [OF L1(1,2) answer nonempty read] L1(4) by auto
  define L2 where "L2 = L1\<lparr>heap := (heap L1)(?p \<mapsto> c2), net := ?w\<rparr>"
  have L2: "heap L2 ?p = Some c2" "bindy L2" "net L2 = ?w" "bmap L2 = (bmap L)(k \<mapsto> ?p)" "base_version L2 = base_version L"
    by (simp_all add: L2_def L1_def L0_def)
  let ?L3 = "delete_client ?p (L2\<lparr>bmap := (bmap L2)(k := None), heap := (heap L2)(?p \<mapsto> c2\<lparr>conn_id := cl_invalid\<rparr>)\<rparr>)"
  have call: "xibridge_get_server_last_protocol_version simu_net u junk addr True L =
      Some ((0, Some \<lparr>major = 3, minor = 0, bagfix = 0\<rparr>), ?L3)"
    unfolding xibridge_get_server_last_protocol_version_def
    using c open_conn c2(1) simu_disconnect [OF L2(1) _ L2(2)] c2(2,3) k L2(1)
    by (simp add: L0_def L2_def [symmetric] get_last_error_def)
  have "resting (k + 1) ?L3" using L2 by (intro resting_next [OF assms(1,2)]) (simp_all add: delete_client_def)
  with call L2(5) show ?thesis by (simp add: delete_client_def)
qed

section \<open>Sessions\<close>

lemma enumerated:
  assumes "resting k L" and "k + 1 \<noteq> cl_invalid" and "base_version L \<in> {1, 3}"
  shows "\<exists>L'. enumerate_uris simu_net u junk localhost L = Some ((0, 3, map (device_uri localhost) devices_simu), L') \<and>
    resting (k + 1) L' \<and> base_version L' = base_version L"
proof -
  obtain L1 where L1: "xibridge_enumerate_adapter_devices simu_net u junk localhost (Some []) True L =
      Some ((0, Some (concat (map (\<lambda>d. ascii (device_uri localhost d) @ [0]) devices_simu) @ [0]), 3), L1)"
    "resting (k + 1) L1" "base_version L1 = base_version L"
    using simu_enumerate [OF assms localhost_ok(3), of u junk] by blast
  moreover have "walk_uris 3 (concat (map (\<lambda>d. ascii (device_uri localhost d) @ [0]) devices_simu) @ [0]) =
      Some (map (device_uri localhost) devices_simu)"
    using listed [OF assms, of u junk] L1(1) by (auto simp: list_devices_def bind_eq_Some_conv)
  ultimately show ?thesis by (simp add: enumerate_uris_def)
qed

lemma opened_number:
  assumes "resting k L" and "k + 1 \<noteq> cl_invalid" and "base_version L \<in> {1, 2, 3}" and "is_serial_ok n"
  shows "\<exists>L' conn. open_uri simu_net u junk (device_address localhost n) L = Some ((0, conn), L') \<and>
    ct_conn_id conn = k \<and> resting (k + 1) L' \<and> base_version L' = base_version L \<and> linked (base_version L) k (devid_of_id n) L'"
  using open_number [OF assms(1-3), of u junk n] assms(4) by (auto simp: open_uri_def conn_or_invalid_def)

text \<open>A request and a close on a connection, whatever version the program's copy of it names.\<close>

lemma asked:
  assumes "linked v k d L" and "resting j L" and "v \<in> {1, 2, 3}" and "ct_conn_id conn = k" and "length cid = 4"
  shows "\<exists>r L'. xibridge_device_request_response simu_net u (Some conn) (ascii cid) True n L =
      Some ((if v = 3 then ERR_PCKT_FMT else 0, r), L') \<and>
    linked v k d L' \<and> resting j L' \<and> base_version L' = base_version L"
proof -
  have "conn = \<lparr>ct_conn_id = k, ct_proto_ver = ct_proto_ver conn\<rparr>" using assms(4) by (cases conn) simp
  then show ?thesis
    using simu_request [OF assms(1-3), of "ascii cid" u "ct_proto_ver conn" n] assms(5) by (auto simp: ascii_def)
qed

lemma closed:
  assumes "linked v k d L" and "resting j L" and "v \<in> {1, 2, 3}" and "ct_conn_id conn = k"
  shows "\<exists>L'. xibridge_close_device_connection simu_net u (Some conn) L = Some (0, L') \<and>
    resting j L' \<and> base_version L' = base_version L"
proof -
  have "conn = \<lparr>ct_conn_id = k, ct_proto_ver = ct_proto_ver conn\<rparr>" using assms(4) by (cases conn) simp
  then show ?thesis using simu_close [OF assms(1-3), of u "ct_proto_ver conn"] by auto
qed

lemma localhost_address: "sprintf_address 256 localhost n = Some (device_address localhost n)"
  by (rule sprintf_fits) (use localhost_ok(2) in simp)

lemma commanded:
  assumes "linked v k d L" and "resting j L" and "v \<in> {1, 2, 3}" and "ct_conn_id conn = k"
  shows "\<exists>L'. ximc_commands simu_net u conn L = Some (v \<noteq> 3, L') \<and> resting j L' \<and> base_version L' = base_version L"
proof -
  obtain r1 L1 where L1: "xibridge_device_request_response simu_net u (Some conn) (ascii ''gets'') True (word_of_nat sizeof_re_gets) L =
      Some ((if v = 3 then ERR_PCKT_FMT else 0, r1), L1)" "linked v k d L1" "resting j L1" "base_version L1 = base_version L"
    using asked [OF assms, of "''gets''" u "word_of_nat sizeof_re_gets"] by auto
  obtain r2 L2 where L2: "xibridge_device_request_response simu_net u (Some conn) (ascii ''geng'') True (word_of_nat sizeof_re_geng) L1 =
      Some ((if v = 3 then ERR_PCKT_FMT else 0, r2), L2)" "linked v k d L2" "resting j L2" "base_version L2 = base_version L1"
    using asked [OF L1(2,3) assms(3,4), of "''geng''" u "word_of_nat sizeof_re_geng"] by auto
  show ?thesis
    using closed [OF L1(2,3) assms(3,4), of u] closed [OF L2(2,3) assms(3,4), of u] L1 L2
    by (auto simp: ximc_commands_def close_and_fail_def ERR_PCKT_FMT_def)
qed

lemma ximc_on_simulator:
  assumes "resting k L" and "k + 1 \<noteq> cl_invalid" "k + 2 \<noteq> cl_invalid" and "base_version L = 1" and "is_serial_ok n"
  shows "\<exists>L'. xinet_ximc_usage_example simu_net u junk localhost n L = Some (True, L') \<and> resting (k + 2) L'"
proof -
  obtain L1 where L1: "enumerate_uris simu_net u junk localhost L = Some ((0, 3, map (device_uri localhost) devices_simu), L1)"
    "resting (k + 1) L1" "base_version L1 = 1"
    using enumerated [OF assms(1,2), of u junk] assms(4) by auto
  obtain conn L2 where L2: "open_uri simu_net u junk (device_address localhost n) L1 = Some ((0, conn), L2)"
    "ct_conn_id conn = k + 1" "resting (k + 2) L2" "linked 1 (k + 1) (devid_of_id n) L2"
    using opened_number [OF L1(2) _ _ assms(5), of u junk] assms(3) L1(3) by (auto simp: add.assoc)
  show ?thesis
    using commanded [OF L2(4,3) _ L2(2), of u] L1(1) L2(1)
    by (auto simp: xinet_ximc_usage_example_def localhost_address)
qed

lemma urpc_on_simulator:
  assumes "resting k L" and "k + 1 \<noteq> cl_invalid" and "is_serial_ok n"
  shows "\<exists>L'. xinet_urpc_usage_example simu_net u junk localhost n L = Some (True, L') \<and> resting (k + 1) L'"
proof -
  let ?L = "snd (xibridge_set_base_protocol_version \<lparr>major = 2, minor = 0, bagfix = 0\<rparr> L)"
  have base: "base_version ?L = 2" "resting k ?L" using set_base [of 2 k L] assms(1) by simp_all
  obtain conn L1 where L1: "open_uri simu_net u junk (device_address localhost n) ?L = Some ((0, conn), L1)"
    "ct_conn_id conn = k" "resting (k + 1) L1" "linked 2 k (devid_of_id n) L1"
    using opened_number [OF base(2) assms(2) _ assms(3), of u junk] base(1) by auto
  obtain r1 L2 where L2: "xibridge_device_request_response simu_net u (Some conn) (ascii ''ginf'') True (word_of_nat (sizeof_ginf + 4)) L1 =
      Some ((0, r1), L2)" "linked 2 k (devid_of_id n) L2" "resting (k + 1) L2"
    using asked [OF L1(4,3) _ L1(2), of "''ginf''" u "word_of_nat (sizeof_ginf + 4)"] by auto
  obtain r2 L3 where L3: "xibridge_device_request_response simu_net u (Some conn) (ascii ''gets'') True (word_of_nat (sizeof_urmc_status + 4)) L2 =
      Some ((0, r2), L3)" "linked 2 k (devid_of_id n) L3" "resting (k + 1) L3"
    using asked [OF L2(2,3) _ L1(2), of "''gets''" u "word_of_nat (sizeof_urmc_status + 4)"] by auto
  show ?thesis
    using closed [OF L3(2,3) _ L1(2), of u] L1(1) L2(1) L3(1)
    by (auto simp: xinet_urpc_usage_example_def localhost_address Let_def)
qed

lemma version3_on_simulator:
  assumes "resting k L" and "k + 1 \<noteq> cl_invalid" "k + 2 \<noteq> cl_invalid" "k + 3 \<noteq> cl_invalid" and "is_serial_ok n"
  shows "\<exists>L'. xinet_xibridge_usage_example_ximc simu_net u junk ver localhost n L = Some (False, L') \<and> resting (k + 3) L'"
proof -
  obtain L0 where L0: "xibridge_get_server_last_protocol_version simu_net u junk localhost True L =
      Some ((0, Some \<lparr>major = 3, minor = 0, bagfix = 0\<rparr>), L0)" "resting (k + 1) L0"
    using simu_version [OF assms(1,2) localhost_ok(3)] by blast
  let ?L = "snd (xibridge_set_base_protocol_version \<lparr>major = 3, minor = 0, bagfix = 0\<rparr> L0)"
  have base: "base_version ?L = 3" "resting (k + 1) ?L" using set_base [of 3 "k + 1" L0] L0(2) by simp_all
  obtain L1 where L1: "enumerate_uris simu_net u junk localhost ?L = Some ((0, 3, map (device_uri localhost) devices_simu), L1)"
    "resting (k + 2) L1" "base_version L1 = 3"
    using enumerated [OF base(2), of u junk] assms(3) base(1) by (auto simp: add.assoc)
  obtain conn L2 where L2: "open_uri simu_net u junk (device_address localhost n) L1 = Some ((0, conn), L2)"
    "ct_conn_id conn = k + 2" "resting (k + 3) L2" "linked 3 (k + 2) (devid_of_id n) L2"
    using opened_number [OF L1(2) _ _ assms(5), of u junk] assms(4) L1(3) by (auto simp: add.assoc)
  show ?thesis
    using commanded [OF L2(4,3) _ L2(2), of u] L0(1) L1(1) L2(1)
    by (auto simp: xinet_xibridge_usage_example_ximc_def use_server_version_def localhost_address)
qed




end
