(* ===== verification/Platforms.thy ===== *)
theory Platforms
  imports Server_Main
begin

text \<open>
  What differs from one operating system to the other: the place of a USB device and its identifier
  (\<open>get_id_from_usb_location\<close> of \<open>server/platform-linux.cpp\<close>, \<open>-win32.cpp\<close>, \<open>-macos.cpp\<close>), names and
  numbers of COM ports (the Windows branches of \<open>DevId2UsbByComOrAddr\<close> in \<open>server/devid2usb.cpp\<close>), the
  guard against a second server with the runs of \<open>server_main\<close> that pass it, and the signal handler
  (\<open>server/platform-posix.cpp\<close>). The calls of the systems are parameters or a state that follows
  their documentation.
\<close>

section \<open>USB locations\<close>

text \<open>
  Windows. A device of the set-up API: its registry value \<open>PortName\<close> when it is a text that fits
  the 8 bytes, its location paths when they fit the 255.
\<close>

record reg_device =
  reg_port_name :: "string option"
  reg_location :: "string option"

definition bvvu_id :: "int \<Rightarrow> int \<Rightarrow> u32" where
  "bvvu_id hub nusb = (let i = word_of_int (hub * 4 + nusb) in if i > 9 then i + 6 else i)"

text \<open>The results of the two scans are not looked at; \<open>junk\<close> is what the two variables hold then.\<close>

definition win_location_id :: "int \<times> int \<Rightarrow> string \<Rightarrow> u32 option" where
  "win_location_id junk location =
     (case strstr location ''#USBROOT('' of
        None \<Rightarrow> None
      | Some (a, phub) \<Rightarrow>
          (case strstr location ''#USB('' of
             None \<Rightarrow> None
           | Some (b, pnusb) \<Rightarrow>
               let hub = (case scan_d (drop 9 phub) of None \<Rightarrow> fst junk | Some (n, r) \<Rightarrow> n);
                   nusb = (case scan_d (drop 5 pnusb) of None \<Rightarrow> snd junk | Some (n, r) \<Rightarrow> n)
               in Some (bvvu_id (hub + 1 - 1) nusb)))"

text \<open>The loop goes on after a match.\<close>

fun win_location_loop :: "int \<times> int \<Rightarrow> string \<Rightarrow> reg_device list \<Rightarrow> u32 \<times> bool \<Rightarrow> u32 \<times> bool" where
  "win_location_loop junk sp_port_name [] found = found"
| "win_location_loop junk sp_port_name (d # ds) found =
     win_location_loop junk sp_port_name ds
       (case reg_port_name d of
          None \<Rightarrow> found
        | Some v \<Rightarrow>
            if take 7 v \<noteq> sp_port_name then found
            else case reg_location d of
                   None \<Rightarrow> found
                 | Some location \<Rightarrow>
                     (case win_location_id junk location of None \<Rightarrow> found | Some i \<Rightarrow> (i, True)))"

definition win_get_id_from_usb_location :: "int \<times> int \<Rightarrow> reg_device list option \<Rightarrow> string \<Rightarrow> u32 \<times> bool" where
  "win_get_id_from_usb_location junk device_info sp_port_name =
     (case device_info of None \<Rightarrow> (0, False)
      | Some ds \<Rightarrow> win_location_loop junk sp_port_name ds (0, False))"

definition mac_get_id_from_usb_location :: "string \<Rightarrow> u32 \<times> bool" where
  "mac_get_id_from_usb_location sp_port_name = (0, False)"

text \<open>
  The same place in the words of the two systems: the port of each hub on the way from the root
  hub. Linux counts the buses, Windows the root hubs.
\<close>

fun dotted :: "nat list \<Rightarrow> string" where
  "dotted [] = []"
| "dotted [p] = dec_digits p"
| "dotted (p # ps) = dec_digits p @ CHR ''.'' # dotted ps"

definition linux_link :: "string \<Rightarrow> nat \<Rightarrow> nat list \<Rightarrow> string \<Rightarrow> string" where
  "linux_link pre bus ps intf = pre @ CHR ''/'' # dec_digits bus @ CHR ''-'' # dotted ps @ CHR '':'' # intf"

definition win_path :: "string \<Rightarrow> nat \<Rightarrow> nat list \<Rightarrow> string" where
  "win_path pre rhub ps =
     pre @ ''#USBROOT('' @ dec_digits rhub @ '')'' @ concat (map (\<lambda>p. ''#USB('' @ dec_digits p @ '')'') ps)"

definition linux_hub :: "nat list \<Rightarrow> nat" where
  "linux_hub ps = (if length ps < 3 then 0 else ps ! (length ps - 2) - 1)"

lemma dotted_snoc: "ps \<noteq> [] \<Longrightarrow> dotted (ps @ [p]) = dotted ps @ CHR ''.'' # dec_digits p"
  by (induction ps rule: dotted.induct) auto

lemma set_dotted: "c \<in> set (dotted ps) \<Longrightarrow> is_digit 10 c \<or> c = CHR ''.''"
  by (induction ps rule: dotted.induct) (auto dest: set_dec_digits)

lemma not_in_dec [simp]:
  "CHR ''-'' \<notin> set (dec_digits n)" "CHR ''.'' \<notin> set (dec_digits n)" "CHR '':'' \<notin> set (dec_digits n)"
  "CHR ''/'' \<notin> set (dec_digits n)" "CHR ''#'' \<notin> set (dec_digits n)"
  using set_dec_digits decimal_chars(2) by fastforce+

lemma not_in_dotted [simp]:
  "CHR ''-'' \<notin> set (dotted ps)" "CHR '':'' \<notin> set (dotted ps)" "CHR ''/'' \<notin> set (dotted ps)"
  using set_dotted decimal_chars(2) by fastforce+

lemma scan_d_all: "n < 2 ^ 31 \<Longrightarrow> scan_d (dec_digits n) = Some (int n, [])"
  using scan_d_dec [of n "[]"] by simp

text \<open>What is left of the link: after the last slash, before the first colon.\<close>

lemma linux_start:
  assumes "CHR ''/'' \<notin> set intf"
  shows "strrchr (linux_link pre bus ps intf) CHR ''/'' =
      Some (pre, dec_digits bus @ CHR ''-'' # dotted ps @ CHR '':'' # intf)"
    and "strchr (dec_digits bus @ CHR ''-'' # dotted ps @ CHR '':'' # intf) CHR '':'' =
      Some (dec_digits bus @ CHR ''-'' # dotted ps, intf)"
  using assms strchr_append [of "CHR '':''" "dec_digits bus @ CHR ''-'' # dotted ps" intf]
  by (auto simp: linux_link_def intro!: strrchr_append)

lemma usb_location_parts:
  assumes "strrchr link CHR ''/'' = Some (a, s)" and "strchr s CHR '':'' = Some (t, i)"
    and "(case strrchr t CHR ''.'' of None \<Rightarrow> (after (strchr t CHR ''-''), None)
          | Some (a, b) \<Rightarrow> (Some b, after (strrchr a CHR ''.''))) = (Some pusb, phub)"
    and "scan_d pusb = Some (n, [])" and "case phub of None \<Rightarrow> h = 0 | Some s \<Rightarrow> scan_d s = Some (h, [])"
  shows "usb_location link = (bvvu_id (if h \<noteq> 0 then h - 1 else h) n, True)"
  using assms(4,5)
  unfolding usb_location_def bvvu_id_def Let_def assms(1) option.case prod.case assms(2) assms(3)
  by (cases phub) simp_all

lemma linux_location:
  assumes "CHR ''/'' \<notin> set intf" and "ps \<noteq> []" and "\<forall>p \<in> set ps. p < 2 ^ 31"
  shows "usb_location (linux_link pre bus ps intf) = (bvvu_id (int (linux_hub ps)) (int (last ps)), True)"
proof -
  obtain qs p where ps: "ps = qs @ [p]" using assms(2) by (metis rev_exhaust)
  have p: "scan_d (dec_digits p) = Some (int p, [])" using assms(3) by (simp add: ps scan_d_all)
  let ?t = "dec_digits bus @ CHR ''-'' # dotted ps"
  have parts: "usb_location (linux_link pre bus ps intf) = (bvvu_id (if h \<noteq> 0 then h - 1 else h) (int p), True)"
    if "(case strrchr ?t CHR ''.'' of None \<Rightarrow> (after (strchr ?t CHR ''-''), None)
         | Some (a, b) \<Rightarrow> (Some b, after (strrchr a CHR ''.''))) = (Some (dec_digits p), phub)"
      and "case phub of None \<Rightarrow> h = 0 | Some s \<Rightarrow> scan_d s = Some (h, [])" for phub h
    by (rule usb_location_parts [OF linux_start [OF assms(1)] that(1) p that(2)])
  show ?thesis
  proof (cases qs rule: rev_cases)
    case Nil
    have "strrchr (dec_digits bus @ CHR ''-'' # dotted ps) CHR ''.'' = None"
      by (rule strrchr_none) (simp add: ps Nil)
    moreover have "strchr (dec_digits bus @ CHR ''-'' # dotted ps) CHR ''-'' = Some (dec_digits bus, dec_digits p)"
      by (simp add: ps Nil strchr_append)
    ultimately show ?thesis using parts [of None 0] by (simp add: after_def linux_hub_def ps Nil)
  next
    case (snoc rs q)
    have q: "scan_d (dec_digits q) = Some (int q, [])" using assms(3) by (simp add: ps snoc scan_d_all)
    let ?a = "dec_digits bus @ CHR ''-'' # dotted (rs @ [q])"
    have 1: "strrchr (dec_digits bus @ CHR ''-'' # dotted ps) CHR ''.'' = Some (?a, dec_digits p)"
      using strrchr_append [of "CHR ''.''" "dec_digits p" ?a] dotted_snoc [of "rs @ [q]" p] by (simp add: ps snoc)
    show ?thesis
    proof (cases "rs = []")
      case True
      have "strrchr ?a CHR ''.'' = None" by (rule strrchr_none) (simp add: True)
      with 1 parts [of None 0] show ?thesis by (simp add: after_def linux_hub_def ps snoc True)
    next
      case False
      have "strrchr ?a CHR ''.'' = Some (dec_digits bus @ CHR ''-'' # dotted rs, dec_digits q)"
        using strrchr_append [of "CHR ''.''" "dec_digits q" "dec_digits bus @ CHR ''-'' # dotted rs"]
        by (simp add: dotted_snoc [OF False])
      moreover have "linux_hub ps = q - 1"
        using False by (cases rs) (auto simp: linux_hub_def ps snoc nth_append)
      moreover have "(if int q \<noteq> 0 then int q - 1 else int q) = int (q - 1)" by (cases q) auto
      ultimately show ?thesis using 1 q parts [of "Some (dec_digits q)" "int q"]
        by (simp add: after_def) (simp add: ps)
    qed
  qed
qed

text \<open>A part of the path without \<open>#USB\<close> is skipped by both searches.\<close>

lemma strstr_hit: "strstr (pat @ b) pat = Some ([], pat @ b)"
  by (cases "pat @ b") (auto, metis append_eq_conv_conj)

lemma strstr_skip:
  assumes "strstr a ''#USB'' = None" and "pat = ''#USB'' @ r"
  shows "strstr (a @ CHR ''#'' # b) pat = map_option (\<lambda>(x, y). (a @ x, y)) (strstr (CHR ''#'' # b) pat)"
  using assms(1)
proof (induction a)
  case Nil
  show ?case by (cases "strstr (CHR ''#'' # b) pat") auto
next
  case (Cons c a)
  have 4: "take 4 (c # a) \<noteq> ''#USB''" and a: "strstr a ''#USB'' = None"
    using Cons.prems by (auto split: if_splits simp: eval_nat_numeral)
  have "take (length pat) (c # a @ CHR ''#'' # b) \<noteq> pat"
  proof
    assume "take (length pat) (c # a @ CHR ''#'' # b) = pat"
    then have "take 4 (take (length pat) (c # a @ CHR ''#'' # b)) = take 4 pat" by simp
    moreover have "min 4 (length pat) = 4" by (simp add: assms(2))
    ultimately have "take 4 (c # a @ CHR ''#'' # b) = take 4 pat" by (simp only: take_take)
    then have "take 4 (c # a @ CHR ''#'' # b) = ''#USB''" by (simp add: assms(2))
    then show False using 4
      by (cases a rule: list.exhaust; cases "tl a"; cases "tl (tl a)") (auto simp: eval_nat_numeral)
  qed
  with Cons.IH [OF a] show ?case by (simp add: option.map_comp comp_def case_prod_unfold)
qed

lemma strstr_dec:
  assumes "pat = CHR ''#'' # r"
  shows "strstr (dec_digits n @ CHR '')'' # b) pat = map_option (\<lambda>(x, y). (dec_digits n @ CHR '')'' # x, y)) (strstr b pat)"
proof -
  have "CHR ''#'' \<notin> set a \<Longrightarrow> strstr (a @ b) pat = map_option (\<lambda>(x, y). (a @ x, y)) (strstr b pat)" for a
    by (induction a) (auto simp: assms option.map_comp comp_def case_prod_unfold option.map_ident)
  from this [of "dec_digits n @ '')''"] show ?thesis by simp
qed

lemma win_location:
  assumes "strstr pre ''#USB'' = None" and "ps \<noteq> []" and "rhub < 2 ^ 31" and "hd ps < 2 ^ 31"
  shows "win_location_id junk (win_path pre rhub ps) = Some (bvvu_id (int rhub) (int (hd ps)))"
proof -
  obtain p qs where ps: "ps = p # qs" using assms(2) by (cases ps) auto
  let ?tail = "concat (map (\<lambda>p. ''#USB('' @ dec_digits p @ '')'') qs)"
  let ?usb = "''#USB('' @ dec_digits p @ CHR '')'' # ?tail"
  let ?hub = "''#USBROOT('' @ dec_digits rhub @ CHR '')'' # ?usb"
  have path: "win_path pre rhub ps = pre @ ?hub" by (simp add: win_path_def ps)
  have 1: "strstr (pre @ ?hub) ''#USBROOT('' = Some (pre, ?hub)"
    using strstr_skip [OF assms(1), of "''#USBROOT(''" "''ROOT(''"] strstr_hit [of "''#USBROOT(''"] by simp
  have "strstr (dec_digits rhub @ CHR '')'' # ?usb) ''#USB('' = Some (dec_digits rhub @ '')'', ?usb)"
    using strstr_dec [of "''#USB(''" "''USB(''" rhub ?usb] strstr_hit [of "''#USB(''"] by simp
  then have "strstr ?hub ''#USB('' = Some (''#USBROOT('' @ dec_digits rhub @ '')'', ?usb)" by simp
  then have 2: "strstr (pre @ ?hub) ''#USB('' = Some (pre @ ''#USBROOT('' @ dec_digits rhub @ '')'', ?usb)"
    using strstr_skip [OF assms(1), of "''#USB(''" "''(''"] by simp
  have "scan_d (dec_digits rhub @ CHR '')'' # ?usb) = Some (int rhub, CHR '')'' # ?usb)"
    "scan_d (dec_digits p @ CHR '')'' # ?tail) = Some (int p, CHR '')'' # ?tail)"
    using assms(3,4) by (auto simp: ps is_digit_def digit_val_def intro!: scan_d_dec)
  then show ?thesis unfolding win_location_id_def path 1 2 option.case prod.case Let_def by (simp add: ps)
qed

text \<open>
  C35: the identifier that \<open>bvvu\<close> takes from the place of a device. On Linux it comes from the last
  port on the way and the port before it (less one, with none for up to two levels); on Windows from
  the first port and the number of the root hub. So the systems agree on a device at a port of the
  first root hub itself; behind hubs they look at different ports.
\<close>

theorem usb_location_by_system:
  assumes "CHR ''/'' \<notin> set intf" and "strstr pre ''#USB'' = None" and "ps \<noteq> []"
    and "\<forall>p \<in> set ps. p < 2 ^ 31" and "rhub < 2 ^ 31"
  shows "usb_location (linux_link dir bus ps intf) = (bvvu_id (int (linux_hub ps)) (int (last ps)), True) \<and>
    win_location_id junk (win_path pre rhub ps) = Some (bvvu_id (int rhub) (int (hd ps)))"
  using linux_location [OF assms(1,3,4)] win_location [OF assms(2,3,5)] assms(3,4) by auto

theorem usb_location_by_system_witness:
  "usb_location (linux_link ''../../..'' 1 [1, 2, 3] ''1.0'') = (7, True) \<and>
   win_location_id (0, 0) (win_path ''PCIROOT(0)#PCI(1400)'' 0 [1, 2, 3]) = Some 1"
  using usb_location_by_system [of "''1.0''" "''PCIROOT(0)#PCI(1400)''" "[1, 2, 3]" 0 "''../../..''" 1 "(0, 0)"]
  by (simp add: linux_hub_def bvvu_id_def)

section \<open>COM ports\<close>

text \<open>
  \<open>sprintf_s\<close> into four bytes: a text that does not fit calls the handler of invalid parameters,
  which ends the program (\<open>None\<close>).
\<close>

definition addr_prefix :: string where
  "addr_prefix = [CHR 0x5C, CHR ''.'', CHR 0x5C] @ ''COM''"

definition win_serial_to_address :: "u32 \<Rightarrow> string option" where
  "win_serial_to_address serial =
     (let devstr = printf_d (sint serial)
      in if length devstr < 4 then Some (addr_prefix @ devstr) else None)"

text \<open>
  \<open>get_devid_from_sp_port\<close> of \<open>DevId2UsbByComOrAddr\<close>. The name is copied without its terminating
  zero over \<open>junk\<close>, the 256 characters that are on the stack; \<open>None\<close>: \<open>tolower\<close> runs out of the
  array, or \<open>sscanf\<close> gets a null pointer or a number out of range.
\<close>

definition win_com_devid :: "string \<Rightarrow> sp_port \<Rightarrow> (devid \<times> bool) option" where
  "win_com_devid junk psp =
     (if sp_usb_serial psp \<noteq> None \<and> length (sp_name psp) < 256 then
        let portname = sp_name psp @ drop (length (sp_name psp)) junk
        in if CHR 0x00 \<notin> set portname then None
           else
             let portname = strlwr_portable (takeWhile (\<lambda>c. c \<noteq> CHR 0x00) portname)
             in case strstr portname ''com'' of
                  None \<Rightarrow> None
                | Some (a, start) \<Rightarrow>
                    map_option (\<lambda>r. case r of None \<Rightarrow> (devid_of_id 0, False) | Some (i, rest) \<Rightarrow> (devid_of_id i, True))
                      (scan_u (drop 3 start))
      else Some (devid_of_id 0, False))"

lemma tolower_digit: "is_digit 10 c \<Longrightarrow> tolower_char c = c"
  by (auto simp: tolower_char_def is_digit_10 Let_def)

lemma tolower_digit_iff: "is_digit 10 (tolower_char c) \<longleftrightarrow> is_digit 10 c"
  by (auto simp: tolower_char_def is_digit_10 Let_def)

text \<open>
  The numbers for which \<open>serial_to_address\<close> returns on Windows, and what it returns. Any other
  number, such as one of four digits that a client asks for, ends the program.
\<close>

theorem win_serial_to_address_iff:
  "win_serial_to_address serial =
     (if -100 < sint serial \<and> sint serial < 1000
      then Some (addr_prefix @ printf_d (sint serial)) else None)"
proof -
  have "length (dec_digits n) < Suc k \<longleftrightarrow> n < 10 ^ k" if "0 < k" for n k
    using length_dec [of k n] length_dec_ge [of k n] that by (meson le_simps(2) linorder_not_le)
  from this [of 2] this [of 3]
  have 1: "length (dec_digits n) < 3 \<longleftrightarrow> n < 100" "length (dec_digits n) < 4 \<longleftrightarrow> n < 1000" for n
    by simp_all
  have "length (printf_d v) < 4 \<longleftrightarrow> -100 < v \<and> v < 1000" for v
    using 1(1) [of "nat (- v)"] 1(2) [of "nat v"] by (cases "v < 0") (simp_all add: printf_d_def, linarith+)
  then show ?thesis by (simp add: win_serial_to_address_def Let_def)
qed

lemma strlwr_digits: "\<forall>c \<in> set ds. is_digit 10 c \<Longrightarrow> strlwr_portable ds = ds"
  by (induction ds) (auto simp: strlwr_portable_def tolower_digit)

lemma strlwr_append: "strlwr_portable (a @ b) = strlwr_portable a @ strlwr_portable b"
  by (simp add: strlwr_portable_def)

lemma strlwr_COM: "strlwr_portable ''COM'' = ''com''"
  by code_simp

lemma digits_front:
  "\<exists>e r. t = e @ r \<and> (\<forall>c \<in> set e. is_digit 10 c) \<and> (r = [] \<or> \<not> is_digit 10 (hd r)) \<and>
     (e = [] \<longleftrightarrow> t = [] \<or> \<not> is_digit 10 (hd t))"
proof (intro exI conjI)
  show "t = takeWhile (is_digit 10) t @ dropWhile (is_digit 10) t" by simp
  show "\<forall>c \<in> set (takeWhile (is_digit 10) t). is_digit 10 c" by (auto dest: set_takeWhileD)
  show "dropWhile (is_digit 10) t = [] \<or> \<not> is_digit 10 (hd (dropWhile (is_digit 10) t))"
    using hd_dropWhile by blast
  show "takeWhile (is_digit 10) t = [] \<longleftrightarrow> t = [] \<or> \<not> is_digit 10 (hd t)" by (cases t) auto
qed

lemma com_name_scan:
  assumes "sp_name psp = ''COM'' @ dec_digits n" and "sp_usb_serial psp \<noteq> None" and "n < 2 ^ 32"
    and "drop (length (sp_name psp)) junk = t @ CHR 0x00 # x" and "CHR 0x00 \<notin> set t"
  shows "win_com_devid junk psp =
    map_option (\<lambda>r. case r of None \<Rightarrow> (devid_of_id 0, False) | Some (i, rest) \<Rightarrow> (devid_of_id i, True))
      (scan_u (dec_digits n @ strlwr_portable t))"
proof -
  have "length (dec_digits n) \<le> 10" using assms(3) by (intro length_dec) auto
  then have len: "length (sp_name psp) < 256" by (simp add: assms(1))
  have zero: "CHR 0x00 \<notin> set (dec_digits n)" using set_dec_digits decimal_chars(2) by fastforce
  have "takeWhile (\<lambda>c. c \<noteq> CHR 0x00) ((''COM'' @ dec_digits n @ t) @ CHR 0x00 # x) = ''COM'' @ dec_digits n @ t"
    using zero assms(5) by (subst takeWhile_append2) auto
  then have "strlwr_portable (takeWhile (\<lambda>c. c \<noteq> CHR 0x00) (sp_name psp @ t @ CHR 0x00 # x)) =
      ''com'' @ dec_digits n @ strlwr_portable t"
    using strlwr_digits [of "dec_digits n"] set_dec_digits
    by (simp add: assms(1) strlwr_append strlwr_COM del: append_Cons)
  then show ?thesis using assms(2) len strstr_hit [of "''com''"]
    by (simp add: win_com_devid_def assms(4) Let_def del: append_Cons)
qed

text \<open>
  C36: the identifier of a COM port on Windows is the number in its name exactly when what happens to be
  on the stack after the name does not begin with a digit: the copy of the name has no terminating
  zero of its own.
\<close>

theorem com_id_depends_on_stack:
  assumes "sp_name psp = ''COM'' @ dec_digits n" and "sp_usb_serial psp \<noteq> None" and "0 < n" and "n < 2 ^ 32"
    and "drop (length (sp_name psp)) junk = t @ CHR 0x00 # x" and "CHR 0x00 \<notin> set t"
  shows "win_com_devid junk psp = Some (devid_of_id (word_of_nat n), True) \<longleftrightarrow>
    t = [] \<or> \<not> is_digit 10 (hd t)"
proof -
  obtain e r where t: "t = e @ r" "\<forall>c \<in> set e. is_digit 10 c" "r = [] \<or> \<not> is_digit 10 (hd r)"
      and e: "e = [] \<longleftrightarrow> t = [] \<or> \<not> is_digit 10 (hd t)"
    using digits_front [of t] by blast
  let ?v = "n * 10 ^ length e + digits_val 10 e"
  have "strlwr_portable t = e @ strlwr_portable r" by (simp add: t(1) strlwr_append strlwr_digits [OF t(2)])
  moreover have "strlwr_portable r = [] \<or> \<not> is_digit 10 (hd (strlwr_portable r))"
    using t(3) by (cases r) (auto simp: strlwr_portable_def tolower_digit_iff)
  moreover have "\<forall>c \<in> set (dec_digits n @ e). is_digit 10 c" using t(2) by (auto dest: set_dec_digits)
  ultimately have "scan_u (dec_digits n @ strlwr_portable t) =
      (if ?v < 2 ^ 32 then Some (Some (word_of_nat ?v, strlwr_portable r)) else None)"
    using scan_u_digits [of "dec_digits n @ e" "strlwr_portable r"] by (simp add: digits_val_append2)
  then have "win_com_devid junk psp = (if ?v < 2 ^ 32 then Some (devid_of_id (word_of_nat ?v), True) else None)"
    by (simp add: com_name_scan [OF assms(1,2,4-6)])
  moreover have "(word_of_nat ?v :: u32) = word_of_nat n \<longleftrightarrow> ?v = n" if "?v < 2 ^ 32"
    using that assms(4) by (simp only: word_of_nat_eq_iff) (simp add: take_bit_nat_eq_self)
  moreover have "?v = n \<longleftrightarrow> e = []"
  proof (cases e)
    case Nil
    then show ?thesis by (simp add: digits_val_def)
  next
    case (Cons c cs)
    have "1 < (10 :: nat) ^ length e" by (rule one_less_power) (simp_all add: Cons)
    then have "n < n * 10 ^ length e" using assms(3) by simp
    then have "?v \<noteq> n" by linarith
    with Cons show ?thesis by blast
  qed
  ultimately show ?thesis using assms(4) e by (auto simp: mk_devid_def)
qed

theorem com_id_depends_on_stack_witness:
  "win_com_devid (''....7'' @ [CHR 0x00])
     \<lparr>sp_name = ''COM3'', sp_usb_serial = Some ''A1'', sp_usb_bus_address = None, sp_usb_vid_pid = None\<rparr> \<noteq>
   Some (devid_of_id 3, True)"
  using com_id_depends_on_stack [of
      "\<lparr>sp_name = ''COM3'', sp_usb_serial = Some ''A1'', sp_usb_bus_address = None, sp_usb_vid_pid = None\<rparr>" 3
      "''....7'' @ [CHR 0x00]" "''7''" "[]"]
  by (simp add: dec_digits.simps hex_digits_def is_digit_10)

section \<open>One server at a time\<close>

text \<open>
  What the guard against a second server sees of the system. Linux: the abstract socket names that
  are bound, and whether a socket can be made; a name stays bound until the process that bound it
  ends, for nothing closes the socket. Windows: the number of open handles of the named mutex. macOS
  has no guard.
\<close>

datatype os = Linux bool "string list" | Windows nat | Macos

definition SOCKET_NAME :: string where
  "SOCKET_NAME = ''SOCKET_TO_BE_USED_AS_NAMED_MUTEX''"

definition UNIX_PATH_MAX :: nat where "UNIX_PATH_MAX = 108"

definition sun_path :: string where
  "sun_path =
     overwrite 1 (take UNIX_PATH_MAX SOCKET_NAME) (replicate UNIX_PATH_MAX CHR 0x00)"

definition linux_is_already_started :: "bool \<Rightarrow> string list \<Rightarrow> bool \<times> string list" where
  "linux_is_already_started has_socket names =
     (if \<not> has_socket then (True, names)
      else if sun_path \<in> set names then (True, names)
      else (False, sun_path # names))"

definition win_is_already_started :: "nat \<Rightarrow> bool \<times> nat" where
  "win_is_already_started handles = (handles \<noteq> 0, handles + 1)"

definition mac_is_already_started :: bool where
  "mac_is_already_started = False"

fun is_already_started :: "os \<Rightarrow> bool \<times> os" where
  "is_already_started (Linux has_socket names) =
     map_prod id (Linux has_socket) (linux_is_already_started has_socket names)"
| "is_already_started (Windows handles) = map_prod id Windows (win_is_already_started handles)"
| "is_already_started Macos = (mac_is_already_started, Macos)"

text \<open>The calls are compiled on Windows only.\<close>

definition win_release_already_started_mutex :: "nat \<Rightarrow> nat" where
  "win_release_already_started_mutex handles = handles - 1"

fun release_already_started_mutex :: "os \<Rightarrow> os" where
  "release_already_started_mutex (Windows handles) = Windows (win_release_already_started_mutex handles)"
| "release_already_started_mutex s = s"

lemmas guard_defs = linux_is_already_started_def win_is_already_started_def mac_is_already_started_def
  win_release_already_started_mutex_def

text \<open>\<open>initialization\<close>: a signal to ignore on POSIX systems; the start of the sockets on Windows.\<close>

definition posix_initialization :: int where
  "posix_initialization = 0"

definition win_initialization :: "int \<Rightarrow> int" where
  "win_initialization iResult = (if iResult \<noteq> 0 then 1 else 0)"

definition initialization :: "os \<Rightarrow> int \<Rightarrow> int" where
  "initialization s iResult =
     (case s of Windows handles \<Rightarrow> win_initialization iResult | _ \<Rightarrow> posix_initialization)"

text \<open>
  The guard of the simulator (\<open>test/server_simu/server_simu.cpp\<close>, POSIX): the lines of \<open>ps\<close> that name
  another server, other than the one with its own number. It sees no other simulator and no
  server of this repository.
\<close>

definition simu_is_already_started :: "nat \<Rightarrow> string list \<Rightarrow> bool" where
  "simu_is_already_started pid ps_lines \<longleftrightarrow>
     (\<exists>l \<in> set ps_lines. strstr l ''urpc_xinet_serv'' \<noteq> None \<and> strstr l ('' '' @ dec_digits pid @ '' '') = None)"

lemma simu_guard_misses:
  "\<not> simu_is_already_started 7 [''    5 server_simu'', ''    6 xibridge_serve'', ''    7 server_simu'']"
  "simu_is_already_started 7 [''    5 urpc_xinet_serv'', ''    7 server_simu'']"
  by code_simp+

text \<open>
  \<open>server_main\<close> from its call to its return, on a system. \<open>None\<close>: macOS throws for the modes that
  need a USB location.
\<close>

definition mode_supported :: "os \<Rightarrow> string option \<Rightarrow> bool" where
  "mode_supported s mode \<longleftrightarrow> \<not> (s = Macos \<and> mode \<in> {Some ''bvvu'', Some ''by_com_addr''})"

definition server_main_run ::
    "'w dev_env \<Rightarrow> int \<Rightarrow> string option \<Rightarrow> string option \<Rightarrow> string option \<Rightarrow> 'w msu \<Rightarrow> os \<Rightarrow> 'w started option \<times> os" where
  "server_main_run env iResult keyfile debug mode m s =
     (let (already, s) = is_already_started s;
          res = initialization s iResult
      in if already then (Some Sm_err_allstarted, s)
         else if res \<noteq> 0 then (Some Sm_err_initfailed, release_already_started_mutex s)
         else if \<not> mode_supported s mode then (None, s)
         else (Some (server_main env already res keyfile debug mode m), release_already_started_mutex s))"

text \<open>The signal handler: the stack trace goes into ten pointers, but up to 32 are asked for.\<close>

definition handler :: "nat \<Rightarrow> int option" where
  "handler stack_depth = (let n = min stack_depth 32 in if 10 < n then None else Some 1)"

lemma handler_overflows: "handler stack_depth = None \<longleftrightarrow> 10 < stack_depth"
  by (auto simp: handler_def Let_def)

lemma sun_path_code:
  "length sun_path = UNIX_PATH_MAX" "take 33 sun_path = CHR 0x00 # SOCKET_NAME"
  by code_simp+


text \<open>
  On Windows a start that is refused keeps a handle of the mutex: when the server that was at work has
  returned, the process cannot start one again.
\<close>

lemma refused_start_keeps_handle:
  assumes "snd (is_already_started (Windows 0)) = s1" and "snd (server_main_run env r k d mode m s1) = s2"
  shows "fst (server_main_run env r' k' d' mode' m' (release_already_started_mutex s2)) = Some Sm_err_allstarted"
  using assms by (auto simp: server_main_run_def Let_def guard_defs)

text \<open>Without options the program asks for \<open>bvvu\<close>, for which it ends by an exception on macOS.\<close>

lemma mac_default_throws:
  "console_options [] = Some (None, None, ''bvvu'') \<and>
   server_main_run env r None None (Some ''bvvu'') m Macos = (None, Macos)"
  by (simp add: console_options_def wants_help_def select_mode_def select_debug_def server_main_run_def
      mode_supported_def guard_defs initialization_def posix_initialization_def)


end
