(* ===== verification/Platform_Time.thy ===== *)
theory Platform_Time
  imports Serial_Properties Complex_Main
begin

text \<open>
  Clock and sleep of the operating systems (\<open>server/xib-serial/platform-posix.c\<close>, \<open>platform-win32.c\<close>,
  \<open>msec_sleep\<close> of \<open>server/platform-posix.cpp\<close>): they agree on the time, and the sleep, which is computed
  with doubles, is exact.
\<close>

section \<open>Clock\<close>

text \<open>
  Microseconds since 1970. Windows gives tenths of microseconds since 1601 in two words; a shift
  into the sign of \<open>time_t\<close> has no defined result (\<open>None\<close>).
\<close>

definition DELTA_EPOCH_IN_MICROSECS :: int where
  "DELTA_EPOCH_IN_MICROSECS = 11644473600000000"

definition win_get_wallclock_us :: "u32 \<times> u32 \<Rightarrow> 64 word option" where
  "win_get_wallclock_us ft =
     (case ft of (dwHighDateTime, dwLowDateTime) \<Rightarrow>
        let tmpres = uint dwHighDateTime * 2 ^ 32 in
        if 2 ^ 63 \<le> tmpres then None
        else
          let tmpres = (or) tmpres (uint dwLowDateTime);
              tmpres = tmpres div 10;
              tmpres = tmpres - DELTA_EPOCH_IN_MICROSECS
          in Some (word_of_int tmpres))"

definition win_get_wallclock :: "u32 \<times> u32 \<Rightarrow> (int \<times> int) option" where
  "win_get_wallclock ft =
     map_option (\<lambda>us. (uint (us div 1000000), uint ((us mod 1000000) div 1000))) (win_get_wallclock_us ft)"

definition posix_get_wallclock_us :: "int \<times> int \<Rightarrow> 64 word" where
  "posix_get_wallclock_us now = (case now of (tv_sec, tv_usec) \<Rightarrow> word_of_int (tv_sec * 1000000 + tv_usec))"

text \<open>The same instant \<open>t\<close> in the words of the two systems; \<open>r\<close> tenths are left over.\<close>

definition timeval_of :: "int \<Rightarrow> int \<times> int" where
  "timeval_of t = (t div 1000000, t mod 1000000)"

definition filetime_of :: "int \<Rightarrow> int \<Rightarrow> u32 \<times> u32" where
  "filetime_of t r =
     (let ticks = 10 * (t + DELTA_EPOCH_IN_MICROSECS) + r in (word_of_int (ticks div 2 ^ 32), word_of_int ticks))"

lemma filetime_ticks:
  assumes "0 \<le> x" and "x < 2 ^ 63"
  shows "(or) (uint (word_of_int (x div 2 ^ 32) :: u32) * 2 ^ 32) (uint (word_of_int x :: u32)) = x"
proof -
  have hi: "uint (word_of_int (x div 2 ^ 32) :: u32) = x div 2 ^ 32"
    using assms by (simp add: uint_word_of_int take_bit_int_eq_self)
  have lo: "uint (word_of_int x :: u32) = take_bit 32 x" by (simp add: uint_word_of_int take_bit_eq_mod)
  have "(or) (push_bit 32 (drop_bit 32 x)) (take_bit 32 x) = x"
    by (rule bit_eqI) (auto simp: bit_simps)
  then show ?thesis by (simp only: hi lo) (simp add: push_bit_eq_mult drop_bit_eq_div)
qed



section \<open>Sleep\<close>

text \<open>
  The double next to a number below \<open>2 ^ 53\<close> in size: 53 bits from the first one on. (None of the numbers here
  lies in the middle between two doubles.) The cast to an integer drops the fraction.
\<close>

definition dbl_abs :: "rat \<Rightarrow> rat" where
  "dbl_abs x =
     (case find (\<lambda>k. 2 ^ 52 \<le> x * 2 ^ k) [0..<64] of
        None \<Rightarrow> 0
      | Some k \<Rightarrow> of_int \<lfloor>x * 2 ^ k + 1 / 2\<rfloor> / 2 ^ k)"

definition dbl :: "rat \<Rightarrow> rat" where
  "dbl x = (if x < 0 then - dbl_abs (- x) else dbl_abs x)"

definition cast_int :: "rat \<Rightarrow> int" where
  "cast_int x = (if x < 0 then - \<lfloor>- x\<rfloor> else \<lfloor>x\<rfloor>)"

definition sleep_timespec :: "u32 \<Rightarrow> int \<times> int" where
  "sleep_timespec msec =
     (let m = of_int (uint msec);
          tv_sec = cast_int (dbl (m / 1000));
          tv_nsec = cast_int (dbl (dbl (m * 1000000) - dbl (of_int tv_sec * 1000000000)))
      in (tv_sec, tv_nsec))"

lemma find_scale:
  assumes "1 / 1024 \<le> x"
  obtains k where "find (\<lambda>k. 2 ^ 52 \<le> x * 2 ^ k) [0..<64] = Some k" "2 ^ 52 \<le> (x :: rat) * 2 ^ k"
proof -
  have "2 ^ 52 \<le> x * 2 ^ 62" "62 \<in> set [0..<64]" using assms by simp_all
  then have "find (\<lambda>k. 2 ^ 52 \<le> x * 2 ^ k) [0..<64] \<noteq> None" unfolding find_None_iff by blast
  then obtain k where k: "find (\<lambda>k. 2 ^ 52 \<le> x * 2 ^ k) [0..<64] = Some k" by blast
  then have "2 ^ 52 \<le> x * 2 ^ k" by (auto simp: find_Some_iff)
  with k show thesis by (rule that)
qed

lemma dbl_int:
  assumes "0 \<le> n"
  shows "dbl (of_int n) = of_int n"
proof (cases "n = 0")
  case True
  have "find (\<lambda>k. False) [0..<64] = None" by (simp only: find_None_iff) simp
  with True show ?thesis by (simp add: dbl_def dbl_abs_def)
next
  case False
  then have "1 / 1024 \<le> (of_int n :: rat)" using assms by simp
  then obtain k where k: "find (\<lambda>k. 2 ^ 52 \<le> (of_int n :: rat) * 2 ^ k) [0..<64] = Some k"
    using find_scale by blast
  have "\<lfloor>(of_int n :: rat) * 2 ^ k + 1 / 2\<rfloor> = n * 2 ^ k"
    by (rule floor_unique) simp_all
  with k show ?thesis using assms by (simp add: dbl_def dbl_abs_def)
qed

text \<open>The quotient is rounded, but never up to the next second.\<close>

lemma dbl_seconds:
  assumes "0 \<le> m" and "m < 2 ^ 32"
  shows "cast_int (dbl (of_int m / 1000)) = m div 1000"
proof (cases "m = 0")
  case True
  then show ?thesis using dbl_int [of 0] by (simp add: cast_int_def)
next
  case False
  let ?x = "of_int m / 1000 :: rat" and ?q = "of_int (m div 1000) :: rat"
  have m: "m mod 1000 \<le> 999" "0 \<le> m mod 1000" by simp_all
  have "(of_int (1000 * (m div 1000) + m mod 1000) :: rat) = 1000 * ?q + of_int (m mod 1000)"
    by (simp only: of_int_add of_int_mult of_int_numeral)
  then have "(of_int m :: rat) = 1000 * ?q + of_int (m mod 1000)" by (simp only: mult_div_mod_eq)
  moreover have "of_int (m mod 1000) \<le> (999 :: rat)" "0 \<le> (of_int (m mod 1000) :: rat)" using m by simp_all
  ultimately have x: "?q \<le> ?x" "?x \<le> ?q + 999 / 1000" by (simp_all add: field_simps)
  have pos: "1 / 1024 \<le> ?x" using False assms(1) by simp
  obtain k where k: "find (\<lambda>k. 2 ^ 52 \<le> ?x * 2 ^ k) [0..<64] = Some k" "2 ^ 52 \<le> ?x * 2 ^ k"
    using find_scale [OF pos] by blast
  have "?x \<le> 2 ^ 32 / 1000" using assms(2) by simp
  then have "?x * 2 ^ k \<le> (2 ^ 32 / 1000) * 2 ^ k" by (rule mult_right_mono) simp
  with k(2) have "2 ^ 52 \<le> (2 ^ 32 / 1000) * (2 :: rat) ^ k" by (rule order_trans)
  then have big: "1000 \<le> (2 :: rat) ^ k" by simp
  let ?f = "\<lfloor>?x * 2 ^ k + 1 / 2\<rfloor>"
  have "?q * 2 ^ k \<le> ?x * 2 ^ k" "?x * 2 ^ k \<le> (?q + 999 / 1000) * 2 ^ k" using x by (simp_all add: mult_right_mono)
  then have "?q * 2 ^ k \<le> ?x * 2 ^ k + 1 / 2" "?x * 2 ^ k + 1 / 2 < (?q + 1) * 2 ^ k"
    using big unfolding distrib_right by linarith+
  then have "m div 1000 * 2 ^ k \<le> ?f" "of_int ?f < (?q + 1) * 2 ^ k" by (simp add: le_floor_iff, linarith)
  moreover from this(1) have "(of_int (m div 1000 * 2 ^ k) :: rat) \<le> of_int ?f" by (simp only: of_int_le_iff)
  ultimately have f: "?q \<le> of_int ?f / 2 ^ k" "of_int ?f / 2 ^ k < ?q + 1"
    by (simp_all add: pos_le_divide_eq pos_divide_less_eq)
  then have fl: "\<lfloor>of_int ?f / 2 ^ k :: rat\<rfloor> = m div 1000" by (intro floor_unique) simp_all
  have "0 \<le> ?q" using assms(1) by simp
  with f(1) have nn: "\<not> of_int ?f / (2 :: rat) ^ k < 0" by linarith
  have "\<not> ?x < 0" using assms(1) by simp
  then have "dbl ?x = of_int ?f / 2 ^ k" by (simp only: dbl_def dbl_abs_def k(1) option.case if_False)
  then show ?thesis by (simp only: cast_int_def nn if_False fl)
qed

text \<open>
  C34: the sleep asks for exactly the milliseconds it is given, for every \<open>unsigned int\<close>, although the
  source computes with doubles; the nanoseconds are below one second, as \<open>nanosleep\<close> demands.
\<close>

theorem sleep_exact:
  "case sleep_timespec msec of (tv_sec, tv_nsec) \<Rightarrow>
     tv_sec * 1000000000 + tv_nsec = uint msec * 1000000 \<and> 0 \<le> tv_nsec \<and> tv_nsec < 1000000000"
proof -
  let ?m = "uint msec"
  have m: "0 \<le> ?m" "?m < 2 ^ 32" using unsigned_less [of msec] by simp_all
  have sec: "cast_int (dbl (of_int ?m / 1000)) = ?m div 1000" by (rule dbl_seconds [OF m])
  have d: "?m * 1000000 - ?m div 1000 * 1000000000 = ?m mod 1000 * 1000000"
    using mult_div_mod_eq [of 1000 ?m] by linarith
  have mul: "dbl (of_int ?m * 1000000) = of_int (?m * 1000000)"
    "dbl (of_int (?m div 1000) * 1000000000) = of_int (?m div 1000 * 1000000000)"
    using dbl_int [of "?m * 1000000"] dbl_int [of "?m div 1000 * 1000000000"] m(1) by simp_all
  have "dbl (of_int (?m * 1000000) - of_int (?m div 1000 * 1000000000)) = of_int (?m mod 1000 * 1000000)"
    unfolding of_int_diff [symmetric] d by (rule dbl_int) simp
  then have "sleep_timespec msec = (?m div 1000, cast_int (of_int (?m mod 1000 * 1000000)))"
    unfolding sleep_timespec_def Let_def sec mul by (simp only: )
  moreover have "cast_int (of_int (?m mod 1000 * 1000000)) = ?m mod 1000 * 1000000"
    unfolding cast_int_def floor_of_int of_int_0_less_iff by simp
  moreover have "0 \<le> ?m mod 1000" "?m mod 1000 < 1000" by simp_all
  ultimately show ?thesis using d by (simp only: prod.case) linarith
qed

end
