(* ===== verification/Spec2Isabelle.thy ===== *)
theory Spec2Isabelle
  imports System Supervisor Server_Thread Concurrent_Races Example_Simu Platforms Platform_Time
begin

text \<open>
  Verification of xibridge, a client library and a server that carry the commands of motor
  controllers on serial ports over a network. The client (\<open>client/\<close>) turns calls of its interface
  into packets of one of three protocol versions, sends them over bindy and waits for the answer;
  the server (\<open>server/\<close>) parses the packets in bindy's callback, keeps a table of open devices and
  connections, hands commands to the serial layer and answers. Both sides share buffers, protocols,
  identifiers and URIs (\<open>common/\<close>).

  The theories, in the order of the code's layers:

  \<^item> \<^bold>\<open>Numbers and buffers.\<close> \<open>Prelude\<close> (machine integers, \<open>bvector\<close>), \<open>DevId\<close> (\<open>DevId\<close> of
    \<open>common/protocols.h\<close> and its order), \<open>Hex\<close> and \<open>MBuf\<close> (\<open>Hex8\<close> to \<open>Hex32\<close>, \<open>HexIDev3\<close> and
    \<open>MBuf\<close> of \<open>common/utils\<close>: allocation, pointer as an offset, the 8-bit overrun counter).
    \<open>Packet_Buffers\<close> has the facts for reading and writing packets front to back, and
    \<open>Buffer_Properties\<close> shows memory safety of every operation sequence, the round trip of fields,
    and where flag and seek wrap.
  \<^item> \<^bold>\<open>Protocols.\<close> \<open>Cmd_Schema\<close> (packet schemas: generation and matching), \<open>AProtocol\<close>, \<open>Protocol1\<close>,
    \<open>Protocol2\<close>, \<open>Protocol3\<close> (requests, responses, \<open>get_spec_data\<close> for both sides), \<open>Protocols\<close>
    (\<open>get_data_from_bindy_callback\<close>, virtual dispatch over \<open>proto_class\<close>, the choice by version).
    \<open>Exchange\<close> states the contract of a wire format as the locale \<open>wire_protocol\<close> and interprets it
    for versions 2 and 3, with the transaction proved once; \<open>Parsing\<close> gives the verdict of the
    server's parsers on arbitrary bytes, \<open>Wire_Properties\<close> the properties of the formats.
  \<^item> \<^bold>\<open>Texts.\<close> \<open>C_Text\<close> (what the code uses of \<open>strstr\<close>, \<open>sscanf\<close> and \<open>snprintf\<close>), \<open>Uri\<close> (parsing and
    printing of \<open>xi-net\<close> URIs) and \<open>Errors\<close> (\<open>xbc_get_err_expl\<close>).
  \<^item> \<^bold>\<open>The server's state.\<close> \<open>RW_Lock\<close> (\<open>server/rw_lock.h\<close> as a step relation of any number of
    threads), \<open>Devid2Usb\<close> (\<open>server/devid2usb\<close>: from serial ports to devices and back), \<open>Ordered_Map\<close>
    (\<open>std::map\<close> keyed by the code's order, locale \<open>key_map\<close>), \<open>Machine\<close> (runs of operations and the
    locales \<open>refinement\<close> and \<open>invariant_refinement\<close>), \<open>Device_Map\<close> (\<open>server/mapdevidphnd\<close>: every
    operation with its locks, and the table without locks as its specification) and
    \<open>Table_Properties\<close> (the refinement, its invariant and what opening, closing and losing a device
    do).
  \<^item> \<^bold>\<open>Threads on the table.\<close> \<open>Concurrent_Table\<close> cuts the operations of the table into steps between two
    accesses to what handler threads share, and lets any number of threads take them in any order.
    \<open>Concurrent_Properties\<close> says what a step does to mutexes, entries and handles;
    \<open>Concurrent_Invariant\<close> has the invariant of all interleavings, \<open>Concurrent_Connections\<close> shows that
    a registered connection keeps its device, \<open>Concurrent_Progress\<close> that calls return, and
    \<open>Concurrent_Races\<close> which accesses are not protected, with runs in which they meet.
  \<^item> \<^bold>\<open>The server's handler.\<close> \<open>Server\<close> (\<open>callback_data\<close>, \<open>callback_disc\<close>) and \<open>Server_Properties\<close>
    (for which packets its behaviour is defined, what it answers, a command from end to end).
    \<open>Server_Main\<close> has the program's options and the start of \<open>server_main\<close>, \<open>Server_Thread\<close> the interface
    that runs the server in a thread of a program with windows, and its log.
  \<^item> \<^bold>\<open>The serial layer.\<close> \<open>Xib_Com\<close> (result codes and handles), \<open>Serial\<close> (\<open>server/xib-serial\<close>: sending
    and receiving with time-outs, check sums, the synchronisation with zeroes, both kinds of request)
    and \<open>Serial_Properties\<close> (which errors the check sum finds, what a device on an ideal port and a
    silent device make of a request, that requests return).
  \<^item> \<^bold>\<open>The supervisor.\<close> \<open>Supervisor\<close> (\<open>server/supervisor\<close>: counts of calls under way and the thread that
    switches a slot off and on, as events in any order) with what its counts are worth.
  \<^item> \<^bold>\<open>Operating systems.\<close> \<open>Platforms\<close> (\<open>server/platform-*.cpp\<close>: identifiers from the place of a USB
    device on Linux and Windows, COM ports, the guard against a second server and what it does to
    later starts) and \<open>Platform_Time\<close> (clock and sleep). The other theories follow the Linux branches.
  \<^item> \<^bold>\<open>The client.\<close> \<open>Bindy_Helper\<close> (connections and the receiving thread's callback), \<open>Client\<close>
    (\<open>Xibridge_client\<close>), \<open>Xibridge_Api\<close> (\<open>client/xibridge.cpp\<close> with the search for a version),
    \<open>Client_Properties\<close> (opening on a network that does not answer), \<open>Client_Invariant\<close> and
    \<open>Client_Network\<close> (no call and no packet meets a deleted client, over every network that keeps
    the laws of the locale \<open>bindy_network\<close>), \<open>Client_Enumerate\<close> (the same for enumerations that return,
    and that a call touches no connection but its own).
  \<^item> \<^bold>\<open>The system.\<close> \<open>System\<close> links client and server: the client's operations over the locale
    \<open>exchange_link\<close>, and the network \<open>sys_net\<close> whose other end is this repository's server, which
    interprets both locales. The properties of the whole are in this theory.
  \<^item> \<^bold>\<open>The test program.\<close> \<open>Server_Simu\<close> (\<open>test/server_simu\<close>: a server without hardware) and
    \<open>Simu_Client\<close> (what each call of the library makes of its answers, by interpretation of
    \<open>exchange_link\<close>), \<open>Addresses\<close> (addresses printed with \<open>%x\<close>, the walk over enumerated URIs) and
    \<open>Test_Program\<close> (\<open>test/test.cpp\<close>, with the theorem that its checks succeed).
  \<^item> \<^bold>\<open>The examples.\<close> \<open>Example_Programs\<close> (\<open>example/\<close>: every session and the main program, which close
    what they open over any network) and \<open>Example_Simu\<close> (the same programs against the simulator).

  How the code maps to definitions: a class is a record and a method a function on it; a pointer
  into a buffer is an offset; integers are words of their width, an \<open>int\<close> is an integer with the
  conversion \<open>c_int\<close> where the code relies on it; \<open>size_t\<close> is a natural number with the wrap of
  \<open>size_sub\<close>. A step without defined behaviour (null or stale pointer, reading past an array,
  unlocking a free mutex) and, in the table, waiting for a lock the thread holds itself, is \<open>None\<close>;
  so a result \<open>Some\<close> says that the code gets through. What an uninitialised variable holds is a
  parameter (\<open>u\<close>, \<open>junk\<close>), and theorems hold for every value of it.

  Bounds: packet lengths below 2^30, or 2^30 - 8192 where several seeks follow each other, keep the
  code's \<open>int\<close> positions in range, far above what bindy delivers; \<open>mseek_safe_iff\<close> shows what
  happens beyond. The lock is treated for fewer than 2^32 threads, the width of its counters.
  Recursions are structural (\<open>while (ncount--)\<close> and \<open>for\<close> loops over their counts), so definitions are
  total without fuel, but for the two loops of the serial layer that depend on the clock and the
  device: \<open>receive_loop\<close> and \<open>first_byte\<close> are partial functions whose value \<open>None\<close> is a loop that does
  not end. \<open>request_returns\<close> shows that the first one ends while the clock moves; the second one does
  not end on a device that sends zeroes.

  Parameters, for code outside the repository: bindy (\<open>net_env\<close>), libserialport (\<open>sp_lib\<close>), its list of
  ports and the link of a port in the file system (\<open>usb_link\<close>, scans), the wall clock. The table has
  the serial layer as the parameter \<open>dev_env\<close>, which \<open>serial_env\<close> instantiates. In \<open>sys_net\<close> packets
  are handled in the order they are sent; the theorems on \<open>bindy_network\<close> hold for any order.

  Two views of the table: \<open>Device_Map\<close> runs one operation after the other with their locks, down to the
  serial layer; \<open>Concurrent_Table\<close> interleaves them, over a device layer reduced to whether a device
  can be opened, answers or is lost, and over a read-write lock that grants what
  \<open>rw_mutual_exclusion\<close> shows of the real one.

  Not modelled: the way exceptions of bindy's own threads end the server; what the programs print;
  in the handler theories, the guard against a second process (its result is a parameter there, and
  \<open>Platforms\<close> has the guards). Memory that the code leaks (protocol objects of the client) and
  the release of the results of an enumeration have no counterpart: results are values.
\<close>

section \<open>The whole system\<close>

text \<open>
  C25: a client of this library that starts with its base version 1 and opens a device of this
  repository's server agrees on version 3 in one round: the server refuses version 1, the client
  connects again and asks in version 3. The call succeeds exactly when the server's table opens the
  device, with the connection of version 3; otherwise it reports that the device cannot be opened.
  The table is then what the opening alone makes of it.
\<close>

theorem open_negotiates:
  fixes L :: "'w sys lib"
  assumes "sys_ready cf (net L)" and "no_device_0 (net L)" and "fresh_pair L" and "base_version L = 1"
    and "xibridge_parse_uri_dev12 uri True = (0, Some parsed)"
    and "spec_open env cf (next_conn (net L) + 1) (uri_device_id parsed) (view (srv (net L))) = (added, tb)"
  shows "\<exists>L'. xibridge_open_device_connection (sys_net env u) u junk uri True L =
      Some (if added then (0, Some \<lparr>ct_conn_id = next_conn (net L) + 1,
                                    ct_proto_ver = \<lparr>major = 3, minor = 0, bagfix = 0\<rparr>\<rparr>)
            else (ERR_DEVICE_OPEN, None), L') \<and>
    view (srv (net L')) = tb \<and> sys_ready cf (net L')"
  using sys_open_device_connection [OF assms, of u junk] by blast


text \<open>
  C30: a device that never answers goes unnoticed from its port to the caller of the library: the
  request succeeds and returns zeroes.
\<close>

theorem silent_device_end_to_end:
  fixes L :: "'w sys lib"
  assumes "linked_to k d L" and "sys_ready cf (net L)" and "medium data"
    and "map_find d (devices (srv (net L))) = Some (Some h)"
    and "over_serial lib env" and "silent_port lib h ok" and "ok (world (srv (net L)))"
    and "unat n < 2 ^ 31 - 8192"
  shows "\<exists>L'. xibridge_device_request_response (sys_net env u) u (Some \<lparr>ct_conn_id = k, ct_proto_ver = v\<rparr>) data True n L =
    Some ((0, replicate (unat n) 0), L')"
proof -
  let ?n = "unat (ucast n :: u8)"
  have n: "?n \<le> unat n" by (simp add: unsigned_ucast_eq take_bit_nat_less_eq_self)
  obtain w' where "xib_com_device_send_request lib (Some h) (take (length data mod 256) data) (replicate ?n 0)
      (world (srv (net L))) = Some (xib_result_ok, replicate ?n 0, w')"
    using silent_base [OF assms(6,7)] by (auto simp: xib_com_device_send_request_def)
  then have "com_request env h (take (length data mod 256) data) (ucast n) (world (srv (net L))) =
      (xib_result_ok, replicate ?n 0, w')" using assms(5) unfolding over_serial_def by blast
  from sys_request [OF assms(1-4) this _ assms(8), of u v] n show ?thesis
    by (auto simp: replicate_add [symmetric])
qed

section \<open>The client's connections\<close>


section \<open>A system to run\<close>

definition demo_sys :: "'w msu \<Rightarrow> 'w sys" where
  "demo_sys s = \<lparr>srv = s, inbox = [], next_conn = 1, down = False\<rparr>"

text \<open>The device layer over a serial library; a call that does not return counts as an error.\<close>

definition serial_env :: "'w sp_lib \<Rightarrow> 'w dev_env" where
  "serial_env lib = \<lparr>com_create = xib_com_device_create lib,
     com_destroy = (\<lambda>h w. snd (xib_com_device_destroy lib (Some h) w)),
     com_request = (\<lambda>h req n w. case xib_com_device_send_request lib (Some h) req (replicate (unat n) 0) w of
        None \<Rightarrow> (xib_result_error, [], w) | Some r \<Rightarrow> r),
     com_urpc_request = (\<lambda>h cid req n w. case urpc_device_send_request lib [0, 0, 0, 0] (Some h) cid req (replicate (unat n) 0) w of
        None \<Rightarrow> (xib_result_error, [], w) | Some r \<Rightarrow> r),
     com_scan = (\<lambda>w. (Some [], w)), com_link = (\<lambda>w s. None)\<rparr>"

lemma serial_env_over_serial: "over_serial lib (serial_env lib)"
  by (simp add: over_serial_def serial_env_def)

lemma demo_uri: "xibridge_parse_uri_dev12 ''xi-net://host/0000002A'' True =
    (0, Some \<lparr>uri_schema = ''xi-net'', uri_server_host = ''host'', uri_device_id = devid_of_id 42\<rparr>)"
  by code_simp

lemma demo_lib:
  "base_version (init_lib S) = 1" "net (init_lib S) = S" "bmap (init_lib S) = Map.empty" "next_ptr (init_lib S) = 0"
  by (simp_all add: init_lib_def xbc_set_base_protocol_version_def is_protocol_supported_version_def
      DEFAULT_PROTO_VERSION_def Let_def)

lemma demo_sys_ready:
  "sys_ready DevId2UsbBySerial (demo_sys (demo_msu ds cs))" "fresh_pair (init_lib (demo_sys (demo_msu ds [])))"
  "no_device_0 (demo_sys (demo_msu [] cs))"
  by (simp_all add: sys_ready_def demo_sys_def demo_ready fresh_pair_def demo_lib cl_invalid_def demo_idle
      find_conn_def no_device_0_def)

lemma demo_spec_open: "\<exists>tb. spec_open (echo_env 0) DevId2UsbBySerial 2 (devid_of_id 42) (view (demo_msu [] [])) = (True, tb) \<and>
    map_find (devid_of_id 42) (tdev tb) = Some (Some 1)"
  by (simp add: spec_open_def scan_and_create_def demo_env_def echo_env_def demo_msu_def view_def find_conn_def)



theorem open_negotiates_witness:
  "\<exists>L'. xibridge_open_device_connection (sys_net (echo_env 0) 0) 0 (devid_of_id 0) ''xi-net://host/0000002A'' True
      (init_lib (demo_sys (demo_msu [] []))) =
    Some ((0, Some \<lparr>ct_conn_id = 2, ct_proto_ver = \<lparr>major = 3, minor = 0, bagfix = 0\<rparr>\<rparr>), L')"
proof -
  obtain tb where tb: "spec_open (echo_env 0) DevId2UsbBySerial 2 (devid_of_id 42) (view (demo_msu [] [])) = (True, tb)"
    using demo_spec_open by blast
  show ?thesis
    using open_negotiates [where L = "init_lib (demo_sys (demo_msu [] []))", unfolded demo_lib,
        OF demo_sys_ready(1,3) demo_sys_ready(2) refl demo_uri, where env = "echo_env 0" and u = 0 and added = True and tb = tb]
      tb by (auto simp: demo_sys_def)
qed


text \<open>A library connected to a device on a port that has nothing to read.\<close>

definition silent_msu :: "(bvector \<times> bvector \<times> int) msu" where
  "silent_msu = \<lparr>devices = [(devid_of_id 42, Some 1)], conns = [(2, devid_of_id 42)], rwl = ReadWriteLock, pool = [],
     pool_rwl = ReadWriteLock, confor = Some DevId2UsbBySerial, pports = None, world = ([], [], 0)\<rparr>"

definition connected_lib :: "(bvector \<times> bvector \<times> int) sys lib" where
  "connected_lib = (init_lib (demo_sys silent_msu))\<lparr>bmap := [2 \<mapsto> 0], bindy := True,
     heap := [0 \<mapsto> \<lparr>server_protocol_version = 3, conn_id = 2, client_dev_id = devid_of_id 42, is_really_recv = False,
       recv_message = [], last_error = 0, host = [], adapter = []\<rparr>]\<rparr>"

theorem silent_device_end_to_end_witness:
  "\<exists>L'. xibridge_device_request_response (sys_net (serial_env fifo_lib) 0) 0
      (Some \<lparr>ct_conn_id = 2, ct_proto_ver = \<lparr>major = 3, minor = 0, bagfix = 0\<rparr>\<rparr>) [1, 2] True 3 connected_lib =
    Some ((0, [0, 0, 0]), L')"
proof -
  have link: "linked_to 2 (devid_of_id 42) connected_lib" by (simp add: linked_to_def connected_lib_def cl_invalid_def)
  have ready: "sys_ready DevId2UsbBySerial (net connected_lib)"
    by (simp add: connected_lib_def demo_lib sys_ready_def demo_sys_def silent_msu_def server_ready_def idle_def)
  have device: "map_find (devid_of_id 42) (devices (srv (net connected_lib))) = Some (Some 1)"
    "(\<lambda>(i, q, c). i = []) (world (srv (net connected_lib)))"
    by (simp_all add: connected_lib_def demo_lib demo_sys_def silent_msu_def)
  have "unat (3 :: u32) = 3" "replicate 3 (0 :: u8) = [0, 0, 0]" by (simp, simp add: numeral_3_eq_3)
  then have three: "replicate (unat (3 :: u32)) (0 :: u8) = [0, 0, 0]" by simp
  have "medium [1, 2]" "unat (3 :: u32) < 2 ^ 31 - 8192" by simp_all
  from silent_device_end_to_end [OF link ready this(1) device(1) serial_env_over_serial fifo_lib_silent device(2) this(2)]
  show ?thesis unfolding three .
qed

end
